(* ===== verification/Prelude.thy ===== *)
theory Prelude
  imports Main "HOL-Library.Word" "HOL-Library.Multiset" "HOL-Library.AList"
    "HOL-Library.List_Lexorder" "HOL-Library.Char_ord" "HOL-Library.Signed_Division"
begin

text \<open>
  What every component shares: the machine types of the Go code, the collections of lemmas
  (\<open>unat_specs\<close>: a 64-bit operation read as natural numbers; \<open>al_simps\<close>: association lists
  that stand for Go maps that are iterated over), and generic lemmas on lists, association
  lists and words.

  Go's \<^verbatim>\<open>uint64\<close>, \<^verbatim>\<open>uint\<close> and \<^verbatim>\<open>uint32\<close> are words and wrap around.  A Go map that is only looked
  up is a HOL map; one that the code ranges over is an association list with distinct keys,
  whose order stands for the (unspecified) order Go visits it in.
\<close>

type_synonym u64 = "64 word"
type_synonym u32 = "32 word"
type_synonym u16 = "16 word"
type_synonym byte = "8 word"

text \<open>Node ids, short channel ids and channel ids (\<^verbatim>\<open>scid/direction\<close>) are Go strings.\<close>

type_synonym node_id = string
type_synonym scid = string
type_synonym channel_id = string

abbreviation MaxUint64 :: u64 where
  "MaxUint64 \<equiv> -1"

named_theorems unat_specs "64-bit operations read as natural numbers"
named_theorems al_simps "association lists standing for Go maps"

section \<open>Words\<close>

lemma unat_MaxUint64 [unat_specs, simp]: "unat MaxUint64 = 18446744073709551615"
  by (simp add: unsigned_minus_1_eq_mask mask_eq_exp_minus_1)

lemma unat_u64_lt [simp]: "unat (x :: u64) < 18446744073709551616"
  using unsigned_less [where 'b = 64, of x, where 'a = nat] by simp

lemma unat_u64_lt_pow: "unat (x :: u64) < 2 ^ 64"
  by simp

lemma unat_u64_le [simp]: "unat (x :: u64) \<le> 18446744073709551615"
  using unat_u64_lt [of x] by linarith

lemma uint_int: "uint w = int (unat w)"
  by simp

lemma u64_eq_iff: "(x :: u64) = y \<longleftrightarrow> unat x = unat y"
  by (rule word_unat_eq_iff)

lemma u64_le_Max [simp]: "(x :: u64) \<le> MaxUint64"
  by simp

lemma u64_eq_Max_iff: "(x :: u64) = MaxUint64 \<longleftrightarrow> unat x = 18446744073709551615"
  by (simp add: u64_eq_iff)

lemma u64_neq_Max_iff: "(x :: u64) \<noteq> MaxUint64 \<longleftrightarrow> unat x < 18446744073709551615"
  by (simp add: u64_eq_Max_iff less_le)

lemma u64_less_Max_iff: "(x :: u64) < MaxUint64 \<longleftrightarrow> x \<noteq> MaxUint64"
  using word_le_less_eq by auto

lemma unat_of_nat_u64: "n < 2 ^ 64 \<Longrightarrow> unat (word_of_nat n :: u64) = n"
  by (simp add: unat_of_nat take_bit_nat_eq_self)

lemma u64_le_iff [unat_specs]: "(a :: u64) \<le> b \<longleftrightarrow> unat a \<le> unat b"
  by (rule word_le_nat_alt)

lemma u64_less_iff [unat_specs]: "(a :: u64) < b \<longleftrightarrow> unat a < unat b"
  by (rule word_less_nat_alt)

lemma unat_u64_add: "unat (a + b :: u64) = (unat a + unat b) mod 2 ^ 64"
  by (simp add: unat_word_ariths)

lemma unat_u64_add_exact: "unat a + unat b < 2 ^ 64 \<Longrightarrow> unat (a + b :: u64) = unat a + unat b"
  by (simp add: unat_u64_add)

lemma unat_u64_sub_exact: "b \<le> a \<Longrightarrow> unat (a - b :: u64) = unat a - unat b"
  by (rule unat_sub)

lemma unat_u64_mult: "unat (a * b :: u64) = (unat a * unat b) mod 2 ^ 64"
  by (simp add: unat_word_ariths)

lemma unat_u64_div [unat_specs]: "unat (a div b :: u64) = unat a div unat b"
  by (rule unat_div)

section \<open>Association lists\<close>

text \<open>
  \<open>AList.update\<close> and \<open>AList.delete\<close> are the map assignment and \<^verbatim>\<open>delete\<close> of Go.  Keys stay
  distinct under both, and the lookups are those of the updated map.
\<close>

abbreviation keys_distinct :: "('k \<times> 'v) list \<Rightarrow> bool" where
  "keys_distinct al \<equiv> distinct (map fst al)"

lemma map_of_AList_update [al_simps, simp]:
  "map_of (AList.update k v al) k' = (if k' = k then Some v else map_of al k')"
  by (simp add: update_conv')

lemma map_of_AList_delete [al_simps, simp]:
  "map_of (AList.delete k al) k' = (if k' = k then None else map_of al k')"
  by (simp add: delete_conv')

lemma keys_distinct_update [al_simps, simp]:
  "keys_distinct al \<Longrightarrow> keys_distinct (AList.update k v al)"
  by (rule distinct_update)

lemma keys_distinct_delete [al_simps, simp]:
  "keys_distinct al \<Longrightarrow> keys_distinct (AList.delete k al)"
  by (rule distinct_delete)

text \<open>A loop that changes every value in place: the keys and their order stay.\<close>

definition map_vals :: "('k \<Rightarrow> 'v \<Rightarrow> 'w) \<Rightarrow> ('k \<times> 'v) list \<Rightarrow> ('k \<times> 'w) list" where
  "map_vals f al = map (\<lambda>(k, v). (k, f k v)) al"

lemma map_fst_map_vals [simp]: "map fst (map_vals f al) = map fst al"
  by (induction al) (auto simp: map_vals_def)

lemma map_of_map_vals [simp]: "map_of (map_vals f al) k = map_option (f k) (map_of al k)"
  by (induction al) (auto simp: map_vals_def)

lemma map_of_filter_key:
  "keys_distinct al \<Longrightarrow>
   map_of (filter (\<lambda>(k, v). P k v) al) k =
     (case map_of al k of None \<Rightarrow> None | Some v \<Rightarrow> if P k v then Some v else None)"
  by (induction al) (force simp: map_of_eq_None_iff split: option.splits)+

lemma keys_distinct_filter [simp]: "keys_distinct al \<Longrightarrow> keys_distinct (filter P al)"
  by (simp add: distinct_map_filter)

lemma map_of_in_set: "map_of al k = Some v \<Longrightarrow> (k, v) \<in> set al"
  by (rule map_of_SomeD)

section \<open>Lists\<close>

lemma sum_list_less_mult:
  fixes f :: "'a \<Rightarrow> nat"
  assumes "\<And>x. x \<in> set xs \<Longrightarrow> f x \<le> b"
  shows "sum_list (map f xs) \<le> length xs * b"
  using assms by (induction xs) (auto simp: add_mono)

end
