(* ===== verification/Amounts.thy ===== *)
theory Amounts
  imports Prelude
begin

text \<open>
  Amounts and fee rates: the 64-bit arithmetic on millisatoshis shared by the route search, the
  rebalances and the parallel runs (\<^verbatim>\<open>graph/channel.go\<close>, \<^verbatim>\<open>graph/pathfinder.go\<close>,
  \<^verbatim>\<open>rebalance/route.go\<close>, \<^verbatim>\<open>rebalance/parallel/params.go\<close>, \<^verbatim>\<open>rebalance/parallel/result.go\<close>).
  Everything saturates instead of wrapping; the lemmas \<open>unat_specs\<close> say what each operation
  computes on natural numbers.
\<close>

section \<open>The 128-bit operations of Go's math/bits\<close>

text \<open>\<^verbatim>\<open>bits.Mul64\<close> (high and low half of the product), \<^verbatim>\<open>bits.Add64\<close> (sum and carry) and
  \<^verbatim>\<open>bits.Div64\<close>, which panics (\<open>None\<close>) when the quotient does not fit in 64 bits.\<close>

definition Mul64 :: "u64 \<Rightarrow> u64 \<Rightarrow> u64 \<times> u64" where
  "Mul64 x y = (let p = unat x * unat y in (word_of_nat (p div 2 ^ 64), word_of_nat (p mod 2 ^ 64)))"

definition Add64 :: "u64 \<Rightarrow> u64 \<Rightarrow> u64 \<Rightarrow> u64 \<times> u64" where
  "Add64 x y c = (x + y + c, if unat x + unat y + unat c \<ge> 2 ^ 64 then 1 else 0)"

definition Div64 :: "u64 \<Rightarrow> u64 \<Rightarrow> u64 \<Rightarrow> (u64 \<times> u64) option" where
  "Div64 hi lo y =
     (if y \<le> hi then None
      else let n = unat hi * 2 ^ 64 + unat lo in
           Some (word_of_nat (n div unat y), word_of_nat (n mod unat y)))"

text \<open>To evaluate them, on integers: natural numbers are unary there.\<close>

lemma u64_of_nat_div:
  "(word_of_nat (n div m) :: u64) = word_of_int (int n div int m)"
  "(word_of_nat (n mod m) :: u64) = word_of_int (int n mod int m)"
  by (metis of_int_of_nat_eq zdiv_int) (metis of_int_of_nat_eq zmod_int)

lemma Mul64_code [code]:
  "Mul64 x y = (let p = uint x * uint y in
     (word_of_int (p div 18446744073709551616), word_of_int (p mod 18446744073709551616)))"
  by (simp add: Mul64_def Let_def u64_of_nat_div)

lemma int_le_nat: "int a \<le> int b \<longleftrightarrow> a \<le> b"
  by simp

lemma Add64_code [code]:
  "Add64 x y c = (x + y + c, if uint x + uint y + uint c \<ge> 18446744073709551616 then 1 else 0)"
  using int_le_nat [of "18446744073709551616" "unat x + unat y + unat c"] by (simp add: Add64_def)

lemma Div64_code [code]:
  "Div64 hi lo y =
     (if y \<le> hi then None
      else let n = uint hi * 18446744073709551616 + uint lo in
           Some (word_of_int (n div uint y), word_of_int (n mod uint y)))"
  by (simp add: Div64_def Let_def u64_of_nat_div)

section \<open>Saturating sums and differences\<close>

definition addSaturating :: "u64 \<Rightarrow> u64 \<Rightarrow> u64" where
  "addSaturating a b = (let (sum, carry) = Add64 a b 0 in if carry \<noteq> 0 then MaxUint64 else sum)"

text \<open>The parallel commands have their own, written without \<^verbatim>\<open>math/bits\<close>.\<close>

definition addSaturating_parallel :: "u64 \<Rightarrow> u64 \<Rightarrow> u64" where
  "addSaturating_parallel a b = (if a > MaxUint64 - b then MaxUint64 else a + b)"

definition subSaturating :: "u64 \<Rightarrow> u64 \<Rightarrow> u64" where
  "subSaturating a b = (if b > a then 0 else a - b)"

definition util_Min :: "u64 \<Rightarrow> u64 \<Rightarrow> u64" where
  "util_Min n1 n2 = (if n1 < n2 then n1 else n2)"

definition util_Max :: "u64 \<Rightarrow> u64 \<Rightarrow> u64" where
  "util_Max n1 n2 = (if n1 > n2 then n1 else n2)"

section \<open>Fee rates\<close>

text \<open>\<^verbatim>\<open>feePPM\<close> of the graph: parts per million, rounded down, \<^term>\<open>MaxUint64\<close> for a saturated fee.\<close>

definition feePPM :: "u64 \<Rightarrow> u64 \<Rightarrow> u64" where
  "feePPM fee amount =
     (if amount = 0 then 0
      else let (hi, lo) = Mul64 fee 1000000 in
           if fee = MaxUint64 \<or> hi \<ge> amount then MaxUint64
           else fst (the (Div64 hi lo amount)))"

text \<open>The rebalances' own \<^verbatim>\<open>feePPM\<close> and the runs' \<^verbatim>\<open>avgPPM\<close> do not treat a saturated fee apart.\<close>

definition feePPM_rebalance :: "u64 \<Rightarrow> u64 \<Rightarrow> u64" where
  "feePPM_rebalance fee amount =
     (if amount = 0 then 0
      else let (hi, lo) = Mul64 fee 1000000 in
           if hi \<ge> amount then MaxUint64 else fst (the (Div64 hi lo amount)))"

definition avgPPM :: "u64 \<Rightarrow> u64 \<Rightarrow> u64" where
  "avgPPM fee moved =
     (if moved = 0 then 0
      else let (hi, lo) = Mul64 fee 1000000 in
           if hi \<ge> moved then MaxUint64 else fst (the (Div64 hi lo moved)))"

definition MaxFeeForPPM :: "u64 \<Rightarrow> u64 \<Rightarrow> u64" where
  "MaxFeeForPPM amount ppm =
     (if amount = 0 \<or> ppm = MaxUint64 then MaxUint64
      else let (hi, lo) = Mul64 (ppm + 1) amount in
           if hi \<noteq> 0 then MaxUint64 else (lo - 1) div 1000000)"

section \<open>What the operations compute\<close>

lemma Mul64_specs [unat_specs]:
  "unat (fst (Mul64 x y)) = unat x * unat y div 2 ^ 64"
  "unat (snd (Mul64 x y)) = unat x * unat y mod 2 ^ 64"
proof -
  have "unat x * unat y < 2 ^ 64 * 2 ^ 64"
    by (rule mult_strict_mono) simp_all
  then have "unat x * unat y div 2 ^ 64 < 2 ^ 64"
    by (simp add: less_mult_imp_div_less)
  then show "unat (fst (Mul64 x y)) = unat x * unat y div 2 ^ 64"
    "unat (snd (Mul64 x y)) = unat x * unat y mod 2 ^ 64"
    by (simp_all add: Mul64_def Let_def unat_of_nat take_bit_nat_eq_self)
qed

lemma Mul64_joins: "unat (fst (Mul64 x y)) * 2 ^ 64 + unat (snd (Mul64 x y)) = unat x * unat y"
  by (simp add: unat_specs)

lemma Add64_joins:
  assumes "unat c \<le> 1"
  shows "unat (snd (Add64 x y c)) * 18446744073709551616 + unat (fst (Add64 x y c)) = unat x + unat y + unat c"
proof -
  define S where "S = unat x + unat y + unat c"
  have "unat (x + y + c) = S mod 18446744073709551616"
    by (simp add: S_def unat_u64_add mod_add_left_eq)
  moreover have "S < 18446744073709551616 + 18446744073709551616"
    using assms unat_u64_le [of x] unat_u64_le [of y] unfolding S_def by linarith
  ultimately show ?thesis
    by (cases "18446744073709551616 \<le> S") (simp_all add: Add64_def S_def [symmetric] le_mod_geq)
qed

text \<open>No panic when the divisor exceeds the high half, and then the exact quotient.\<close>

lemma Div64_no_panic: "hi < y \<Longrightarrow> Div64 hi lo y \<noteq> None"
  by (simp add: Div64_def Let_def)

lemma Div64_quotient:
  assumes "hi < y"
  shows "unat (fst (the (Div64 hi lo y))) = (unat hi * 2 ^ 64 + unat lo) div unat y"
proof -
  have hi: "unat hi < unat y" using assms by (simp add: unat_specs)
  have "unat hi * 2 ^ 64 + unat lo < (unat hi + 1) * 2 ^ 64"
    using unat_u64_lt_pow [of lo] by (simp del: unat_u64_lt)
  also have "\<dots> \<le> unat y * 2 ^ 64" using hi by (intro mult_right_mono) auto
  finally have "(unat hi * 2 ^ 64 + unat lo) div unat y < 2 ^ 64"
    by (metis less_mult_imp_div_less mult.commute)
  with assms show ?thesis
    by (simp add: Div64_def Let_def unat_of_nat linorder_not_le [THEN iffD2])
qed

lemma unat_addSaturating [unat_specs]:
  "unat (addSaturating a b) = min (unat a + unat b) (2 ^ 64 - 1)"
  by (auto simp: addSaturating_def Add64_def unat_u64_add min_def)

lemma unat_addSaturating_parallel [unat_specs]:
  "unat (addSaturating_parallel a b) = min (unat a + unat b) (2 ^ 64 - 1)"
proof -
  have "unat (MaxUint64 - b) = 18446744073709551615 - unat b"
    using unat_sub [of b MaxUint64] by simp
  then have over: "a > MaxUint64 - b \<longleftrightarrow> unat a + unat b > 18446744073709551615"
    using less_diff_conv2 [OF unat_u64_le [of b]] by (auto simp: u64_less_iff less_diff_conv)
  show ?thesis
  proof (cases "unat a + unat b > 18446744073709551615")
    case True
    with over show ?thesis by (simp add: addSaturating_parallel_def)
  next
    case False
    with over show ?thesis by (simp add: addSaturating_parallel_def unat_u64_add_exact)
  qed
qed

lemma addSaturating_agree: "addSaturating_parallel a b = addSaturating a b"
  by (rule u64_eq_iff [THEN iffD2]) (simp add: unat_specs)

lemma unat_subSaturating [unat_specs]: "unat (subSaturating a b) = unat a - unat b"
  by (auto simp: subSaturating_def u64_less_iff unat_u64_sub_exact u64_le_iff)

lemma unat_util_Min [unat_specs]: "unat (util_Min a b) = min (unat a) (unat b)"
  by (auto simp: util_Min_def unat_specs)

lemma unat_util_Max [unat_specs]: "unat (util_Max a b) = max (unat a) (unat b)"
  by (auto simp: util_Max_def unat_specs)

lemma addSaturating_mono: "a \<le> a' \<Longrightarrow> b \<le> b' \<Longrightarrow> addSaturating a b \<le> addSaturating a' b'"
  by (simp add: unat_specs)

lemma addSaturating_ge: "a \<le> addSaturating a b" "b \<le> addSaturating a b"
  by (simp_all add: unat_specs)

lemma addSaturating_zero [simp]: "addSaturating a 0 = a" "addSaturating 0 a = a"
  by (simp_all add: addSaturating_def Add64_def linorder_not_le [THEN iffD2, OF unat_u64_lt])

lemma addSaturating_exact:
  "addSaturating a b \<noteq> MaxUint64 \<Longrightarrow> unat (addSaturating a b) = unat a + unat b"
  by (auto simp: unat_specs u64_eq_Max_iff min_def split: if_splits)

lemma addSaturating_eq_plus: "addSaturating a b \<noteq> MaxUint64 \<Longrightarrow> addSaturating a b = a + b"
  by (auto simp: addSaturating_def Add64_def split: if_splits)

lemma addSaturating_assoc: "addSaturating (addSaturating a b) c = addSaturating a (addSaturating b c)"
  by (rule u64_eq_iff [THEN iffD2]) (simp add: unat_specs)

lemma addSaturating_commute: "addSaturating a b = addSaturating b a"
  by (rule u64_eq_iff [THEN iffD2]) (simp add: unat_specs add.commute)

text \<open>The rate functions: the exact quotient when it fits, saturated otherwise.\<close>

lemma mul_hi_less_iff:
  assumes "amount \<noteq> (0 :: u64)"
  shows "fst (Mul64 fee c) < amount \<longleftrightarrow> unat fee * unat c div unat amount < 2 ^ 64"
proof -
  have "0 < unat amount" using assms by (simp add: unat_eq_zero [symmetric] del: unat_eq_zero)
  have "fst (Mul64 fee c) < amount \<longleftrightarrow> unat fee * unat c div 2 ^ 64 < unat amount"
    by (simp add: unat_specs)
  also have "\<dots> \<longleftrightarrow> unat fee * unat c < unat amount * 2 ^ 64"
    by (simp add: div_less_iff_less_mult)
  also have "\<dots> \<longleftrightarrow> unat fee * unat c div unat amount < 2 ^ 64"
    using \<open>0 < unat amount\<close> by (simp add: div_less_iff_less_mult mult.commute)
  finally show ?thesis .
qed

lemma feePPM_rebalance_spec:
  assumes "amount \<noteq> 0"
  shows "unat (feePPM_rebalance fee amount) = min (unat fee * 1000000 div unat amount) (2 ^ 64 - 1)"
proof (cases "fst (Mul64 fee 1000000) < amount")
  case True
  with assms have "unat fee * 1000000 div unat amount < 2 ^ 64"
    using mul_hi_less_iff [OF assms, of fee 1000000] by simp
  moreover have "unat (feePPM_rebalance fee amount) = unat fee * 1000000 div unat amount"
    using assms True Div64_quotient [OF True, of "snd (Mul64 fee 1000000)"] Mul64_joins [of fee 1000000]
    by (simp add: feePPM_rebalance_def split_beta)
  ultimately show ?thesis by simp
next
  case False
  with assms have "\<not> unat fee * 1000000 div unat amount < 2 ^ 64"
    using mul_hi_less_iff [OF assms, of fee 1000000] by simp
  with False assms show ?thesis
    by (simp add: feePPM_rebalance_def split_beta linorder_not_less)
qed

lemma avgPPM_eq: "avgPPM fee moved = feePPM_rebalance fee moved"
  by (simp add: avgPPM_def feePPM_rebalance_def)

lemma feePPM_eq: "fee \<noteq> MaxUint64 \<Longrightarrow> feePPM fee amount = feePPM_rebalance fee amount"
  by (simp add: feePPM_def feePPM_rebalance_def)

lemma feePPM_saturated: "amount \<noteq> 0 \<Longrightarrow> feePPM MaxUint64 amount = MaxUint64"
  by (simp add: feePPM_def split_beta)


section \<open>The fee limit of a rate\<close>

text \<open>
  \<^verbatim>\<open>MaxFeeForPPM\<close> is adjoint to the rounded-down rate: a fee is within it exactly when its rate
  is at most \<^verbatim>\<open>ppm\<close>, as long as \<^verbatim>\<open>(ppm+1) * amount\<close> fits in 64 bits.
\<close>

lemma unat_MaxFeeForPPM:
  assumes "amount \<noteq> 0" "ppm \<noteq> MaxUint64" "(unat ppm + 1) * unat amount < 2 ^ 64"
  shows "unat (MaxFeeForPPM amount ppm) = ((unat ppm + 1) * unat amount - 1) div 1000000"
proof -
  have ppm1: "unat (ppm + 1) = unat ppm + 1"
    using assms(2) by (subst unat_u64_add_exact) (simp_all add: u64_neq_Max_iff)
  have pos: "0 < (unat ppm + 1) * unat amount"
    using assms(1) by (simp add: unat_gt_0)
  define n where "n = (unat ppm + 1) * unat amount"
  let ?p = "Mul64 (ppm + 1) amount"
  have hi: "fst ?p = 0" and lo: "unat (snd ?p) = (unat ppm + 1) * unat amount"
    using assms(3) ppm1 by (simp_all add: u64_eq_iff unat_specs)
  have "1 \<le> snd ?p"
    using pos by (simp only: u64_le_iff lo) (simp only: n_def [symmetric], simp)
  then have "unat (snd ?p - 1) = (unat ppm + 1) * unat amount - 1"
    by (simp only: unat_u64_sub_exact lo) simp
  with hi assms show ?thesis
    by (simp add: MaxFeeForPPM_def split_beta unat_specs)
qed

lemma feePPM_rebalance_le_iff:
  assumes "amount \<noteq> 0" "ppm \<noteq> MaxUint64"
  shows "feePPM_rebalance fee amount \<le> ppm \<longleftrightarrow> unat fee * 1000000 < (unat ppm + 1) * unat amount"
proof -
  have pos: "0 < unat amount" using assms(1) by (simp add: unat_gt_0)
  have ppm: "unat ppm < 18446744073709551615"
    using assms(2) by (simp add: u64_neq_Max_iff)
  have "feePPM_rebalance fee amount \<le> ppm \<longleftrightarrow> unat fee * 1000000 div unat amount \<le> unat ppm"
    using ppm by (auto simp: u64_le_iff feePPM_rebalance_spec [OF assms(1)] min_def)
  also have "\<dots> \<longleftrightarrow> unat fee * 1000000 div unat amount < unat ppm + 1"
    by linarith
  also have "\<dots> \<longleftrightarrow> unat fee * 1000000 < (unat ppm + 1) * unat amount"
    using pos by (simp add: div_less_iff_less_mult)
  finally show ?thesis .
qed

lemma MaxFeeForPPM_adjoint:
  assumes "amount \<noteq> 0" "ppm \<noteq> MaxUint64" "(unat ppm + 1) * unat amount < 2 ^ 64"
  shows "fee \<le> MaxFeeForPPM amount ppm \<longleftrightarrow> feePPM_rebalance fee amount \<le> ppm"
proof -
  define n where "n = (unat ppm + 1) * unat amount"
  have pos: "0 < n" using assms(1) by (simp add: n_def unat_gt_0)
  have "fee \<le> MaxFeeForPPM amount ppm \<longleftrightarrow> unat fee \<le> (n - 1) div 1000000"
    by (simp add: u64_le_iff unat_MaxFeeForPPM [OF assms] n_def)
  also have "\<dots> \<longleftrightarrow> unat fee * 1000000 \<le> n - 1"
    by (simp add: less_eq_div_iff_mult_less_eq)
  also have "\<dots> \<longleftrightarrow> unat fee * 1000000 < n"
    using pos by linarith
  also have "\<dots> \<longleftrightarrow> feePPM_rebalance fee amount \<le> ppm"
    using feePPM_rebalance_le_iff [OF assms(1,2)] by (simp add: n_def)
  finally show ?thesis .
qed

section \<open>What a node charges\<close>

text \<open>
  \<^verbatim>\<open>int64\<close> values are integers; \<open>i64\<close> wraps one into the range after an operation, as Go does.
\<close>

abbreviation MaxInt64 :: int where "MaxInt64 \<equiv> 9223372036854775807"
abbreviation MinInt64 :: int where "MinInt64 \<equiv> -9223372036854775808"

definition i64 :: "int \<Rightarrow> int" where
  "i64 x = signed_take_bit 63 x"

abbreviation is_i64 :: "int \<Rightarrow> bool" where
  "is_i64 x \<equiv> MinInt64 \<le> x \<and> x \<le> MaxInt64"

lemma i64_exact: "is_i64 x \<Longrightarrow> i64 x = x"
  unfolding i64_def by (rule signed_take_bit_int_eq_self) simp_all

lemma is_i64_i64: "is_i64 (i64 x)"
  using signed_take_bit_int_greater_eq_minus_exp [of 63 x] signed_take_bit_int_less_exp [of 63 x]
  by (simp add: i64_def)

text \<open>A node charges its outbound fee plus its inbound fee, which can be negative, never below 0.\<close>

definition nodeFee :: "u64 \<Rightarrow> int \<Rightarrow> u64" where
  "nodeFee outboundFee inboundFee =
     (if outboundFee = MaxUint64 then outboundFee
      else if inboundFee \<ge> 0 then addSaturating outboundFee (word_of_int inboundFee)
      else let discount = word_of_int (i64 (- inboundFee)) in
           if discount \<ge> outboundFee then 0 else outboundFee - discount)"

lemma unat_word_of_int_u64: "0 \<le> x \<Longrightarrow> x < 2 ^ 64 \<Longrightarrow> unat (word_of_int x :: u64) = nat x"
  by (simp add: unsigned_of_int take_bit_int_eq_self)

lemma unat_discount:
  assumes "is_i64 x" "x < 0"
  shows "unat (word_of_int (i64 (- x)) :: u64) = nat (- x)"
proof (cases "x = MinInt64")
  case True
  then show ?thesis by (simp add: i64_def signed_take_bit_def unsigned_of_int mask_eq_exp_minus_1 not_int_def take_bit_eq_mod)
next
  case False
  with assms have "i64 (- x) = - x" by (intro i64_exact) simp
  moreover have "unat (word_of_int (- x) :: u64) = nat (- x)"
    using assms by (intro unat_word_of_int_u64) simp_all
  ultimately show ?thesis by simp
qed

lemma int_diff_max: "int (a - b) = max 0 (int a - int b)"
  by (simp add: max_def)

lemma nodeFee_exact:
  assumes "is_i64 i" "out \<noteq> MaxUint64"
  shows "uint (nodeFee out i) = min (max 0 (uint out + i)) 18446744073709551615"
proof (cases "0 \<le> i")
  case True
  then obtain n where i: "i = int n" by (metis nonneg_int_cases)
  with assms have "unat (word_of_int i :: u64) = n"
    by (subst unat_word_of_int_u64) simp_all
  with True assms have "unat (nodeFee out i) = min (unat out + n) 18446744073709551615"
    by (simp add: nodeFee_def unat_specs)
  then have "uint (nodeFee out i) = int (min (unat out + n) 18446744073709551615)"
    by (simp only: uint_int)
  then show ?thesis by (simp add: i of_nat_min)
next
  case False
  then obtain d where i: "i = - int d"
    using that [of "nat (- i)"] by simp
  with False assms(1) have d: "unat (word_of_int (i64 (- i)) :: u64) = d"
    by (subst unat_discount) simp_all
  have "unat (nodeFee out i) = unat out - d"
  proof (cases "out \<le> word_of_int (i64 (- i))")
    case True
    with False d assms show ?thesis
      by (simp add: nodeFee_def u64_le_iff)
  next
    case nle: False
    with d have "unat (out - word_of_int (i64 (- i))) = unat out - d"
      by (subst unat_u64_sub_exact) (simp_all add: u64_le_iff)
    with False nle assms show ?thesis by (simp add: nodeFee_def)
  qed
  then have "uint (nodeFee out i) = max 0 (uint out - int d)"
    using int_diff_max [of "unat out" d] by (simp only: uint_int)
  moreover have "uint out \<le> 18446744073709551615"
    using uint_lt2p [of out] by simp
  ultimately show ?thesis by (simp add: i)
qed

lemma nodeFee_saturated [simp]: "nodeFee MaxUint64 i = MaxUint64"
  by (simp add: nodeFee_def)

end
