(* ===== verification/GoFloat.thy ===== *)
theory GoFloat
  imports Prelude "HOL-Library.Log_Nat" Complex_Main
begin

text \<open>
  Go's \<^verbatim>\<open>float64\<close>.  A finite float is the rational number it stands for; every operation of the
  code is the exact operation followed by \<open>f64\<close>, rounding to 53 significant bits, ties to even
  (IEEE 754, and the Go specification).  The exponent range is not bounded here: the values the
  code computes with are far from overflow, and no claim rests on subnormals.  \<^verbatim>\<open>math.Log\<close> and
  \<^verbatim>\<open>math.Pow\<close> are not correctly rounded in Go and are parameters of the definitions that use
  them.

  The lemmas: rounding is monotone, exact on integers up to $2^{53}$, and keeps signs.
\<close>

section \<open>Rounding a rational number to an integer, ties to even\<close>

definition rne :: "rat \<Rightarrow> int" where
  "rne x = (let n = \<lfloor>x\<rfloor>; d = x - of_int n in
     if d < 1 / 2 then n else if d > 1 / 2 then n + 1 else if even n then n else n + 1)"

lemma rne_of_int [simp]: "rne (of_int n) = n"
  by (simp add: rne_def)

lemma rne_bounds: "\<lfloor>x\<rfloor> \<le> rne x" "rne x \<le> \<lfloor>x\<rfloor> + 1"
  by (simp_all add: rne_def Let_def)

lemma rne_mono:
  assumes "x \<le> y"
  shows "rne x \<le> rne y"
proof (cases "\<lfloor>x\<rfloor> = \<lfloor>y\<rfloor>")
  case True
  with assms show ?thesis by (auto simp: rne_def Let_def)
next
  case False
  then have "\<lfloor>x\<rfloor> + 1 \<le> \<lfloor>y\<rfloor>"
    using floor_mono [OF assms] by linarith
  then show ?thesis
    using rne_bounds [of x] rne_bounds [of y] by linarith
qed

lemma rne_ge: "of_int n \<le> x \<Longrightarrow> n \<le> rne x"
  using rne_mono [of "of_int n" x] by simp

lemma rne_le: "x \<le> of_int n \<Longrightarrow> rne x \<le> n"
  using rne_mono [of x "of_int n"] by simp

lemma rne_error: "\<bar>of_int (rne x) - x\<bar> \<le> 1 / 2"
proof -
  have "of_int \<lfloor>x\<rfloor> \<le> x" "x < of_int \<lfloor>x\<rfloor> + 1" by linarith+
  then show ?thesis by (auto simp: rne_def Let_def abs_le_iff field_simps)
qed

section \<open>The binary exponent\<close>

definition ilog2 :: "rat \<Rightarrow> int" where
  "ilog2 x = (let (p, q) = quotient_of x; e = bitlen p - bitlen q in
     if x < 2 powi e then e - 1 else e)"

lemma ilog2_bounds:
  assumes "0 < x"
  shows "2 powi (ilog2 x) \<le> x" "x < 2 powi (ilog2 x + 1)"
proof -
  obtain p q where pq: "quotient_of x = (p, q)" by fastforce
  have q: "0 < q" using pq quotient_of_denom_pos by blast
  have x: "x = of_int p / of_int q" using pq quotient_of_div by blast
  have p: "0 < p" using assms q x by (simp add: zero_less_divide_iff)
  define a b where "a = bitlen p" and "b = bitlen q"
  have a1: "0 < a" and b1: "0 < b"
    using p q by (simp_all add: a_def b_def bitlen_alt_def)
  have "2 ^ nat (a - 1) \<le> p" "p < 2 ^ nat a" "2 ^ nat (b - 1) \<le> q" "q < 2 ^ nat b"
    using bitlen_bounds [OF p] bitlen_bounds [OF q] by (auto simp: a_def b_def)
  then have "(of_int (2 ^ nat (a - 1)) :: rat) \<le> of_int p" "(of_int p :: rat) < of_int (2 ^ nat a)"
     "(of_int (2 ^ nat (b - 1)) :: rat) \<le> of_int q" "(of_int q :: rat) < of_int (2 ^ nat b)"
    by (simp_all only: of_int_le_iff of_int_less_iff)
  then have bnd: "(2 :: rat) powi (a - 1) \<le> of_int p" "of_int p < (2 :: rat) powi a"
     "(2 :: rat) powi (b - 1) \<le> of_int q" "of_int q < (2 :: rat) powi b"
    using a1 b1 by (simp_all add: power_int_def)
  have lo: "2 powi (a - b - 1) \<le> x"
  proof -
    have "(2 :: rat) powi (a - 1) / 2 powi b \<le> of_int p / of_int q"
      using bnd p q by (intro frac_le) auto
    then show ?thesis by (simp add: x power_int_diff [symmetric] algebra_simps)
  qed
  have hi: "x < 2 powi (a - b + 1)"
  proof -
    have "of_int p / of_int q < (2 :: rat) powi a / 2 powi (b - 1)"
      using bnd p q by (intro frac_less) auto
    then show ?thesis by (simp add: x power_int_diff [symmetric] algebra_simps)
  qed
  show "2 powi (ilog2 x) \<le> x" "x < 2 powi (ilog2 x + 1)"
    using lo hi by (simp_all add: ilog2_def pq a_def b_def Let_def not_less algebra_simps)
qed

lemma powi2_mono: "(i :: int) \<le> j \<Longrightarrow> (2 :: rat) powi i \<le> 2 powi j"
  by (simp add: power_int_increasing)

lemma ilog2_mono:
  assumes "0 < x" "x \<le> y"
  shows "ilog2 x \<le> ilog2 y"
proof (rule ccontr)
  assume "\<not> ilog2 x \<le> ilog2 y"
  then have "(2 :: rat) powi (ilog2 y + 1) \<le> 2 powi (ilog2 x)"
    by (intro powi2_mono) simp
  with ilog2_bounds [of x] ilog2_bounds [of y] assms show False by linarith
qed

section \<open>Rounding to float64\<close>

definition f64_pos :: "rat \<Rightarrow> rat" where
  "f64_pos x = (let e = ilog2 x - 52 in of_int (rne (x / 2 powi e)) * 2 powi e)"

definition f64 :: "rat \<Rightarrow> rat" where
  "f64 x = (if x = 0 then 0 else if x < 0 then - f64_pos (- x) else f64_pos x)"

lemma powi2_52: "(2 :: rat) powi i / 2 powi (i - 52) = of_int (2 ^ 52)"
  "(2 :: rat) powi (i + 1) / 2 powi (i - 52) = of_int (2 ^ 53)"
  by (simp_all flip: power_int_diff)

lemma f64_pos_binade:
  assumes "0 < x"
  shows "2 powi (ilog2 x) \<le> f64_pos x" "f64_pos x \<le> 2 powi (ilog2 x + 1)"
proof -
  let ?e = "ilog2 x - 52"
  have pos: "(0 :: rat) < 2 powi ?e" by simp
  have "2 powi (ilog2 x) / 2 powi ?e \<le> x / 2 powi ?e" "x / 2 powi ?e \<le> 2 powi (ilog2 x + 1) / 2 powi ?e"
    using ilog2_bounds [OF assms] by (simp_all add: divide_right_mono)
  then have "2 ^ 52 \<le> rne (x / 2 powi ?e)" "rne (x / 2 powi ?e) \<le> 2 ^ 53"
    unfolding powi2_52 by (auto intro: rne_ge rne_le)
  then have "of_int (2 ^ 52) * 2 powi ?e \<le> f64_pos x" "f64_pos x \<le> of_int (2 ^ 53) * 2 powi ?e"
    by (auto simp only: f64_pos_def Let_def intro!: mult_right_mono order.strict_implies_order [OF pos]
        of_int_le_iff [THEN iffD2])
  then show "2 powi (ilog2 x) \<le> f64_pos x" "f64_pos x \<le> 2 powi (ilog2 x + 1)"
    using powi2_52 [of "ilog2 x"] pos by (simp_all add: divide_eq_eq)
qed

lemma f64_pos_mono:
  assumes "0 < x" "x \<le> y"
  shows "f64_pos x \<le> f64_pos y"
proof (cases "ilog2 x = ilog2 y")
  case True
  then show ?thesis
    using assms by (auto simp: f64_pos_def Let_def intro!: mult_right_mono rne_mono divide_right_mono)
next
  case False
  then have "ilog2 x + 1 \<le> ilog2 y" using ilog2_mono [OF assms] by simp
  then have "(2 :: rat) powi (ilog2 x + 1) \<le> 2 powi ilog2 y" by (rule powi2_mono)
  with f64_pos_binade(2) [of x] f64_pos_binade(1) [of y] assms show ?thesis by linarith
qed

lemma f64_pos_gt_0: "0 < x \<Longrightarrow> 0 < f64_pos x"
  using f64_pos_binade(1) [of x] zero_less_power_int [of "2 :: rat" "ilog2 x"] by linarith

lemma f64_zero [simp]: "f64 0 = 0"
  by (simp add: f64_def)

theorem f64_mono: "x \<le> y \<Longrightarrow> f64 x \<le> f64 y"
  using f64_pos_mono [of x y] f64_pos_mono [of "- y" "- x"] f64_pos_gt_0 [of y] f64_pos_gt_0 [of "- x"]
  by (auto simp: f64_def)

text \<open>Up to 1 the error of a rounding is at most half of the last place, \<open>2 powi -53\<close>, so numbers
  further apart than a unit of the last place stay apart.\<close>

lemma f64_error:
  assumes "0 < x" "x \<le> 1"
  shows "\<bar>f64 x - x\<bar> \<le> 1 / 2 ^ 53"
proof -
  let ?e = "ilog2 x - 52"
  have "ilog2 x < 1"
  proof (rule ccontr)
    assume "\<not> ilog2 x < 1"
    then have "(2 :: rat) powi 1 \<le> 2 powi (ilog2 x)" by (intro powi2_mono) simp
    with ilog2_bounds(1) [OF assms(1)] assms(2) show False by simp
  qed
  then have e: "(2 :: rat) powi ?e \<le> 2 powi (- 52)" by (intro powi2_mono) simp
  have pos: "(0 :: rat) < 2 powi ?e" by simp
  have "f64 x - x = (of_int (rne (x / 2 powi ?e)) - x / 2 powi ?e) * 2 powi ?e"
    using assms(1) by (simp add: f64_def f64_pos_def Let_def left_diff_distrib)
  then have "\<bar>f64 x - x\<bar> = \<bar>of_int (rne (x / 2 powi ?e)) - x / 2 powi ?e\<bar> * 2 powi ?e"
    using pos by (simp add: abs_mult)
  also have "\<dots> \<le> 1 / 2 * 2 powi ?e"
    using pos by (intro mult_right_mono rne_error) simp
  also have "\<dots> \<le> 1 / 2 * 2 powi (- 52)" using e by simp
  finally show ?thesis by (simp add: power_int_minus)
qed

lemma f64_strict:
  assumes "0 < x" "y \<le> 1" "x + 1 / 2 ^ 52 < y"
  shows "f64 x < f64 y"
proof -
  define e :: rat where "e = 1 / 2 ^ 53"
  have e: "0 < e" "1 / 2 ^ 52 = 2 * e" by (simp_all add: e_def)
  have xy: "x \<le> 1" "0 < y" using assms e by linarith+
  have "\<bar>f64 x - x\<bar> \<le> e" "\<bar>f64 y - y\<bar> \<le> e"
    unfolding e_def by (rule f64_error [OF assms(1) xy(1)], rule f64_error [OF xy(2) assms(2)])
  then show ?thesis using assms(3) e(2) by linarith
qed

lemma f64_nonneg: "0 \<le> x \<Longrightarrow> 0 \<le> f64 x"
  using f64_mono [of 0 x] by simp

lemma f64_pos_iff: "0 < f64 x \<longleftrightarrow> 0 < x"
  using f64_pos_gt_0 [of x] f64_pos_gt_0 [of "- x"] by (auto simp: f64_def)

lemma f64_int_exact:
  assumes "\<bar>n\<bar> \<le> 2 ^ 53"
  shows "f64 (of_int n) = of_int n"
proof -
  have pos: "f64_pos (of_int n) = of_int n" if "0 < n" "n \<le> 2 ^ 53" for n
  proof -
    let ?i = "ilog2 (of_int n)"
    have i: "?i \<le> 53"
    proof (rule ccontr)
      assume "\<not> ?i \<le> 53"
      then have "(2 :: rat) powi 54 \<le> 2 powi ?i" by (intro powi2_mono) simp
      moreover have "(of_int n :: rat) \<le> of_int (2 ^ 53)" using that by (simp only: of_int_le_iff)
      ultimately show False using ilog2_bounds(1) [of "of_int n"] that by simp
    qed
    show ?thesis
    proof (cases "?i \<le> 52")
      case True
      then have q: "of_int n / (2 :: rat) powi (?i - 52) = of_int (n * 2 ^ nat (52 - ?i))"
        using power_int_minus [of "2 :: rat" "52 - ?i"] by (simp add: power_int_def divide_inverse)
      have "f64_pos (of_int n) = of_int n / 2 powi (?i - 52) * 2 powi (?i - 52)"
        unfolding f64_pos_def Let_def q by (simp only: rne_of_int)
      then show ?thesis by simp
    next
      case False
      with i have i53: "?i = 53" by simp
      then have "(2 :: rat) powi 53 \<le> of_int n" using ilog2_bounds(1) [of "of_int n"] that by simp
      then have "of_int (2 ^ 53) \<le> (of_int n :: rat)" by simp
      then have "2 ^ 53 \<le> n" by (simp only: of_int_le_iff)
      with that have "n = 2 * 2 ^ 52" by simp
      then have q: "of_int n / (2 :: rat) powi (?i - 52) = of_int (2 ^ 52)"
        unfolding i53 by simp
      have "f64_pos (of_int n) = of_int n / 2 powi (?i - 52) * 2 powi (?i - 52)"
        unfolding f64_pos_def Let_def q by (simp only: rne_of_int)
      then show ?thesis by simp
    qed
  qed
  from pos [of n] pos [of "- n"] assms show ?thesis by (auto simp: f64_def)
qed

lemma f64_one [simp]: "f64 1 = 1"
  using f64_int_exact [of 1] by simp

section \<open>The operations of the code\<close>

definition float_of_u64 :: "u64 \<Rightarrow> rat" where
  "float_of_u64 x = f64 (of_nat (unat x))"

text \<open>\<^verbatim>\<open>uint64(f)\<close> truncates; out of range, Go leaves the result to the implementation.\<close>

definition u64_of_float :: "rat \<Rightarrow> u64" where
  "u64_of_float x = word_of_int (if x < 0 then \<lceil>x\<rceil> else \<lfloor>x\<rfloor>)"

definition fmul :: "rat \<Rightarrow> rat \<Rightarrow> rat" where "fmul x y = f64 (x * y)"
definition fdiv :: "rat \<Rightarrow> rat \<Rightarrow> rat" where "fdiv x y = f64 (x / y)"
definition fadd :: "rat \<Rightarrow> rat \<Rightarrow> rat" where "fadd x y = f64 (x + y)"
definition fsub :: "rat \<Rightarrow> rat \<Rightarrow> rat" where "fsub x y = f64 (x - y)"

lemma float_of_u64_code [code]: "float_of_u64 x = f64 (of_int (uint x))"
  by (simp add: float_of_u64_def)

lemma float_of_u64_exact: "x \<le> 2 ^ 53 \<Longrightarrow> float_of_u64 x = of_nat (unat x)"
  using f64_int_exact [of "int (unat x)"]
  by (simp add: float_of_u64_def u64_le_iff del: of_nat_unat)

lemma float_of_u64_mono: "x \<le> y \<Longrightarrow> float_of_u64 x \<le> float_of_u64 y"
  by (simp add: float_of_u64_def f64_mono u64_le_iff del: of_nat_unat)

lemma float_of_u64_pos: "0 < float_of_u64 x \<longleftrightarrow> x \<noteq> 0"
  by (simp add: float_of_u64_def f64_pos_iff unat_gt_0 del: of_nat_unat)

lemma float_of_u64_nonneg: "0 \<le> float_of_u64 x"
  by (simp add: float_of_u64_def f64_nonneg del: of_nat_unat)

lemma float_of_u64_zero [simp]: "float_of_u64 0 = 0"
  by (simp add: float_of_u64_def)

lemma unat_u64_of_float:
  "0 \<le> x \<Longrightarrow> x < 2 ^ 64 \<Longrightarrow> unat (u64_of_float x) = nat \<lfloor>x\<rfloor>"
  by (simp add: u64_of_float_def unsigned_of_int take_bit_int_eq_self floor_less_iff)

lemma fdiv_unit_interval:
  assumes "0 \<le> x" "x \<le> y"
  shows "0 \<le> fdiv x y" "fdiv x y \<le> 1"
proof -
  have "x / y \<le> 1" using assms by (cases "y = 0") (simp_all add: divide_le_eq)
  then show "fdiv x y \<le> 1" using f64_mono [of "x / y" 1] by (simp add: fdiv_def)
  show "0 \<le> fdiv x y" using assms by (simp add: fdiv_def f64_nonneg)
qed

end
