(* ===== verification/GraphChannel.thy ===== *)
theory GraphChannel
  imports Amounts GoFloat
begin

text \<open>
  One direction of a channel (\<^verbatim>\<open>graph/channel.go\<close>): its policy, what the graph believes about its
  liquidity, its outbound fee, whether it can carry an amount, and the chance that it can
  (\<^verbatim>\<open>graph/channel.go\<close>, \<^verbatim>\<open>graph/beliefs.go\<close>), with what that chance costs in the route search
  (\<^verbatim>\<open>uncertaintyCost\<close> in \<^verbatim>\<open>graph/pathfinder.go\<close>, \<^verbatim>\<open>nodeCost\<close> in \<^verbatim>\<open>graph/nodes.go\<close>).

  The lemmas: the fee is the exact ceiling, saturated (\<open>unat_ComputeFee\<close>), and monotone; the
  chance lies between 0 and 1 and falls as the amount grows, rounding included.
\<close>

section \<open>The policy and the channel\<close>

text \<open>
  \<open>GlChannel\<close> holds the fields of glightning's \<^verbatim>\<open>Channel\<close> that the code reads; an \<^verbatim>\<open>Amount\<close> is
  its value in msat (\<^verbatim>\<open>MSat()\<close>).  Go embeds a pointer to it in \<^verbatim>\<open>graph.Channel\<close> and never
  changes it in place, so the channel extends the record.
\<close>

record GlChannel =
  Source :: node_id
  Destination :: node_id
  ShortChannelId :: scid
  IsPublic :: bool
  Satoshis :: u64
  AmountMsat :: u64
  MessageFlags :: u64
  ChannelFlags :: u64
  IsActive :: bool
  LastUpdate :: u64
  BaseFeeMillisatoshi :: u64
  FeePerMillionth :: u64
  Delay :: u64
  HtlcMinimumMilliSatoshis :: u64
  HtlcMaximumMilliSatoshis :: u64

record Channel = GlChannel +
  Liquidity :: u64
  Timestamp :: int
  Upper :: bool
  Dear :: bool
  maxHtlcMsat :: u64
  minHtlcMsat :: u64

definition NewChannel :: "GlChannel \<Rightarrow> u64 \<Rightarrow> int \<Rightarrow> Channel" where
  "NewChannel c liquidity timestamp =
     GlChannel.extend c
       (Channel.fields liquidity timestamp False False
          (HtlcMaximumMilliSatoshis c) (HtlcMinimumMilliSatoshis c))"

text \<open>The policy of a channel: \<^verbatim>\<open>*c.Channel\<close>.\<close>

definition policy_of :: "Channel \<Rightarrow> GlChannel" where
  "policy_of c = GlChannel.truncate c"

section \<open>Directions and ids\<close>

definition GetDirection :: "node_id \<Rightarrow> node_id \<Rightarrow> string" where
  "GetDirection from to = (if from < to then ''0'' else ''1'')"

definition channel_GetDirection :: "Channel \<Rightarrow> u32" where
  "channel_GetDirection c = (if Source c < Destination c then 0 else 1)"

text \<open>\<^verbatim>\<open>scid/direction\<close>, written out wherever the code names a channel
  (\<^verbatim>\<open>channelId\<close> in \<^verbatim>\<open>rebalance/failure.go\<close>, \<^verbatim>\<open>candidateId\<close> in \<^verbatim>\<open>rebalance/parallel/parallel.go\<close>).\<close>

definition dir_id :: "scid \<Rightarrow> node_id \<Rightarrow> node_id \<Rightarrow> channel_id" where
  "dir_id scid from to = scid @ ''/'' @ GetDirection from to"

definition channelId :: "Channel \<Rightarrow> channel_id" where
  "channelId c = dir_id (ShortChannelId c) (Source c) (Destination c)"

definition OppositeChannelId :: "channel_id \<Rightarrow> channel_id" where
  "OppositeChannelId chan =
     (let n = length chan in
      if n < 2 \<or> chan ! (n - 2) \<noteq> CHR ''/'' then chan
      else if chan ! (n - 1) = CHR ''0'' then take (n - 1) chan @ ''1''
      else take (n - 1) chan @ ''0'')"

lemma NewChannel_simps [simp]:
  "Source (NewChannel c l t) = Source c" "Destination (NewChannel c l t) = Destination c"
  "ShortChannelId (NewChannel c l t) = ShortChannelId c" "AmountMsat (NewChannel c l t) = AmountMsat c"
  "LastUpdate (NewChannel c l t) = LastUpdate c" "IsActive (NewChannel c l t) = IsActive c"
  "BaseFeeMillisatoshi (NewChannel c l t) = BaseFeeMillisatoshi c"
  "FeePerMillionth (NewChannel c l t) = FeePerMillionth c" "Delay (NewChannel c l t) = Delay c"
  "HtlcMinimumMilliSatoshis (NewChannel c l t) = HtlcMinimumMilliSatoshis c"
  "HtlcMaximumMilliSatoshis (NewChannel c l t) = HtlcMaximumMilliSatoshis c"
  "Liquidity (NewChannel c l t) = l" "Timestamp (NewChannel c l t) = t"
  "Upper (NewChannel c l t) = False" "Dear (NewChannel c l t) = False"
  "maxHtlcMsat (NewChannel c l t) = HtlcMaximumMilliSatoshis c"
  "minHtlcMsat (NewChannel c l t) = HtlcMinimumMilliSatoshis c"
  by (cases c, simp add: NewChannel_def GlChannel.defs Channel.defs)+

lemma policy_of_simps [simp]:
  "Source (policy_of c) = Source c" "Destination (policy_of c) = Destination c"
  "ShortChannelId (policy_of c) = ShortChannelId c" "AmountMsat (policy_of c) = AmountMsat c"
  by (cases c, simp add: policy_of_def GlChannel.defs)+

lemma GetDirection_cases: "GetDirection a b = ''0'' \<or> GetDirection a b = ''1''"
  by (simp add: GetDirection_def)

lemma GetDirection_opposite: "a \<noteq> b \<Longrightarrow> GetDirection a b \<noteq> GetDirection b a"
  by (auto simp: GetDirection_def)

lemma OppositeChannelId_dir_id:
  "a \<noteq> b \<Longrightarrow> OppositeChannelId (dir_id s a b) = dir_id s b a"
  using GetDirection_opposite [of a b]
  by (auto simp: OppositeChannelId_def dir_id_def GetDirection_def nth_append Let_def split: if_splits)

lemma dir_id_inject:
  "dir_id s a b = dir_id s' a' b' \<longleftrightarrow> s = s' \<and> GetDirection a b = GetDirection a' b'"
proof -
  have "length (GetDirection a b) = 1" for a b by (simp add: GetDirection_def)
  then show ?thesis by (simp add: dir_id_def append_eq_append_conv)
qed

lemma OppositeChannelId_involution:
  "a \<noteq> b \<Longrightarrow> OppositeChannelId (OppositeChannelId (dir_id s a b)) = dir_id s a b"
  by (simp add: OppositeChannelId_dir_id)

section \<open>The outbound fee\<close>

definition ComputeFee :: "('a GlChannel_scheme) \<Rightarrow> u64 \<Rightarrow> u64" where
  "ComputeFee c amount =
     (let (hi, lo) = Mul64 amount (FeePerMillionth c);
          (lo, carry) = Add64 lo 999999 0;
          hi = hi + carry in
      if hi \<ge> 1000000 then MaxUint64
      else addSaturating (BaseFeeMillisatoshi c) (fst (the (Div64 hi lo 1000000))))"

definition ComputeFeePPM :: "('a GlChannel_scheme) \<Rightarrow> u64 \<Rightarrow> u64" where
  "ComputeFeePPM c amount = feePPM (ComputeFee c amount) amount"

lemma unat_ComputeFee [unat_specs]:
  "unat (ComputeFee c amount) =
     min (unat (BaseFeeMillisatoshi c) + (unat amount * unat (FeePerMillionth c) + 999999) div 1000000)
         (2 ^ 64 - 1)"
proof -
  define p where "p = unat amount * unat (FeePerMillionth c)"
  define hi lo where "hi = fst (Mul64 amount (FeePerMillionth c))"
    and "lo = snd (Mul64 amount (FeePerMillionth c))"
  define lo' carry where "lo' = fst (Add64 lo 999999 0)" and "carry = snd (Add64 lo 999999 0)"
  have p: "unat hi * 18446744073709551616 + unat lo = p"
    using Mul64_joins [of amount "FeePerMillionth c"] by (simp add: hi_def lo_def p_def)
  have "p \<le> 18446744073709551615 * 18446744073709551615"
    unfolding p_def by (rule mult_le_mono) simp_all
  then have "p \<le> 340282366920938463426481119284349108225" by simp
  then have hi_max: "unat hi \<le> 18446744073709551614"
    using p by linarith
  have carry: "unat carry * 18446744073709551616 + unat lo' = unat lo + 999999"
    using Add64_joins [of 0 lo 999999] by (simp add: lo'_def carry_def)
  have "unat carry \<le> 1" by (simp add: carry_def Add64_def)
  then have hi': "unat (hi + carry) = unat hi + unat carry"
    using hi_max by (subst unat_u64_add_exact) simp_all
  have joined: "unat (hi + carry) * 2 ^ 64 + unat lo' = p + 999999"
    using p carry hi' by (simp add: algebra_simps)
  have unfolded: "ComputeFee c amount =
      (if hi + carry \<ge> 1000000 then MaxUint64
       else addSaturating (BaseFeeMillisatoshi c) (fst (the (Div64 (hi + carry) lo' 1000000))))"
    by (simp add: ComputeFee_def split_beta hi_def lo_def lo'_def carry_def Let_def)
  show ?thesis
  proof (cases "hi + carry \<ge> 1000000")
    case True
    then have "1000000 * 2 ^ 64 \<le> p + 999999"
      using joined by (simp add: u64_le_iff)
    then have "2 ^ 64 \<le> (p + 999999) div 1000000" by simp
    with True show ?thesis unfolding unfolded p_def [symmetric] by simp
  next
    case False
    then have "unat (fst (the (Div64 (hi + carry) lo' 1000000))) = (p + 999999) div 1000000"
      using joined by (subst Div64_quotient) simp_all
    with False show ?thesis unfolding unfolded p_def [symmetric] by (simp add: unat_specs)
  qed
qed

lemma ComputeFee_mono: "a \<le> b \<Longrightarrow> ComputeFee c a \<le> ComputeFee c b"
  unfolding u64_le_iff unat_ComputeFee
  by (intro min.mono add_left_mono div_le_mono add_right_mono mult_right_mono) simp_all

section \<open>Whether a channel can carry an amount\<close>

definition CanForward :: "Channel \<Rightarrow> u64 \<Rightarrow> bool" where
  "CanForward c amount =
     (let limit = (if Upper c \<and> Liquidity c > AmountMsat c div 2 then AmountMsat c div 2 else Liquidity c) in
      IsActive c \<and> limit \<ge> amount \<and> maxHtlcMsat c \<ge> amount \<and> minHtlcMsat c \<le> amount)"

text \<open>The belief of a payment, not the default of half the capacity (\<^verbatim>\<open>learned\<close>).\<close>

definition learned :: "Channel \<Rightarrow> bool" where
  "learned c = (Timestamp c \<noteq> 0 \<and> (Upper c \<or> Liquidity c \<noteq> AmountMsat c div 2))"

definition DearShare :: rat where "DearShare = f64 (3 / 10)"

definition SuccessChance :: "Channel \<Rightarrow> u64 \<Rightarrow> rat" where
  "SuccessChance c amount =
     (let capacity = AmountMsat c;
          liquidity = (if Liquidity c > capacity then capacity else Liquidity c) in
      if liquidity = 0 \<or> capacity = 0 then 0
      else if Upper c \<and> learned c then
        (if amount > liquidity then 0
         else fdiv (float_of_u64 (liquidity + 1 - amount)) (float_of_u64 (liquidity + 1)))
      else
        let liquidity = (if Dear c \<and> \<not> learned c
                         then u64_of_float (fmul (float_of_u64 capacity) DearShare) else liquidity);
            (low, high) = (if liquidity > capacity div 2 then (2 * liquidity - capacity, capacity)
                           else (0, 2 * liquidity)) in
        if amount \<le> low then 1
        else if amount \<ge> high then 0
        else fdiv (float_of_u64 (high - amount)) (float_of_u64 (high - low)))"

definition ResetLiquidity :: "int \<Rightarrow> Channel \<Rightarrow> Channel" where
  "ResetLiquidity now c = c\<lparr>Liquidity := AmountMsat c div 2, Upper := False, Timestamp := now\<rparr>"

section \<open>What the chance costs in a search\<close>

text \<open>\<open>mlog\<close> is \<^verbatim>\<open>math.Log\<close>.  \<^verbatim>\<open>math.MaxUint64/2\<close> is a constant, rounded to a float: $2^{63}$.\<close>

definition half_max_float :: rat where "half_max_float = f64 9223372036854775807"

definition uncertaintyCost :: "(rat \<Rightarrow> rat) \<Rightarrow> Channel \<Rightarrow> u64 \<Rightarrow> u64 \<Rightarrow> u64" where
  "uncertaintyCost mlog channel amount riskPPM =
     (if riskPPM = 0 then 0
      else let chance = SuccessChance channel amount in
        if chance \<ge> 1 then 0
        else if chance \<le> 0 then MaxUint64
        else let cost = fdiv (fmul (fmul (- mlog chance) (float_of_u64 riskPPM)) (float_of_u64 amount)) 1000000 in
          if cost \<ge> half_max_float then MaxUint64 else u64_of_float (of_int \<lceil>cost\<rceil>))"

definition nodeCost :: "rat \<Rightarrow> u64 \<Rightarrow> u64 \<Rightarrow> u64" where
  "nodeCost penalty amount riskPPM =
     (if penalty \<le> 0 then 0
      else let cost = fdiv (fmul (fmul penalty (float_of_u64 riskPPM)) (float_of_u64 amount)) 1000000 in
        if cost \<ge> half_max_float then MaxUint64 else u64_of_float (of_int \<lceil>cost\<rceil>))"

section \<open>The chance is a chance, and falls as the amount grows\<close>

lemma fdiv_amounts_unit:
  "x \<le> y \<Longrightarrow> 0 \<le> fdiv (float_of_u64 x) (float_of_u64 y) \<and> fdiv (float_of_u64 x) (float_of_u64 y) \<le> 1"
  by (simp add: fdiv_unit_interval float_of_u64_nonneg float_of_u64_mono)

lemma fdiv_amounts_mono:
  "x \<le> x' \<Longrightarrow> fdiv (float_of_u64 x) (float_of_u64 y) \<le> fdiv (float_of_u64 x') (float_of_u64 y)"
  unfolding fdiv_def
  by (intro f64_mono divide_right_mono float_of_u64_mono float_of_u64_nonneg)

text \<open>The last step of \<^verbatim>\<open>SuccessChance\<close>, for balances spread evenly between \<open>low\<close> and \<open>high\<close>.\<close>

definition spread_chance :: "u64 \<Rightarrow> u64 \<Rightarrow> u64 \<Rightarrow> rat" where
  "spread_chance low high amount =
     (if amount \<le> low then 1 else if amount \<ge> high then 0
      else fdiv (float_of_u64 (high - amount)) (float_of_u64 (high - low)))"

lemma u64_diff_mono: "(b :: u64) \<le> a \<Longrightarrow> b' \<le> b \<Longrightarrow> a - b \<le> a - b'"
  by (simp add: u64_le_iff unat_u64_sub_exact)

lemma spread_chance_unit: "0 \<le> spread_chance l h a \<and> spread_chance l h a \<le> 1"
proof -
  have "h - a \<le> h - l" if "\<not> a \<le> l" "\<not> h \<le> a"
    using that by (intro u64_diff_mono) simp_all
  then show ?thesis by (auto simp: spread_chance_def intro: fdiv_amounts_unit [THEN conjunct1]
        fdiv_amounts_unit [THEN conjunct2])
qed

lemma spread_chance_antimono: "a \<le> b \<Longrightarrow> spread_chance l h b \<le> spread_chance l h a"
proof -
  assume ab: "a \<le> b"
  show ?thesis
  proof (cases "a \<le> l \<or> h \<le> b")
    case True
    then show ?thesis
      using spread_chance_unit [of l h a] spread_chance_unit [of l h b] ab
      by (auto simp: spread_chance_def)
  next
    case False
    with ab have "h - b \<le> h - a" by (intro u64_diff_mono) auto
    with False ab show ?thesis by (auto simp: spread_chance_def intro: fdiv_amounts_mono)
  qed
qed


text \<open>The end points of the spread, as the code computes them.\<close>

definition spread_of :: "Channel \<Rightarrow> u64 \<times> u64" where
  "spread_of c =
     (let capacity = AmountMsat c;
          liquidity = (if Liquidity c > capacity then capacity else Liquidity c);
          liquidity = (if Dear c \<and> \<not> learned c
                       then u64_of_float (fmul (float_of_u64 capacity) DearShare) else liquidity) in
      if liquidity > capacity div 2 then (2 * liquidity - capacity, capacity) else (0, 2 * liquidity))"

lemma SuccessChance_unfold:
  "SuccessChance c amount =
     (let liquidity = (if Liquidity c > AmountMsat c then AmountMsat c else Liquidity c) in
      if liquidity = 0 \<or> AmountMsat c = 0 then 0
      else if Upper c \<and> learned c then
        (if amount > liquidity then 0
         else fdiv (float_of_u64 (liquidity + 1 - amount)) (float_of_u64 (liquidity + 1)))
      else spread_chance (fst (spread_of c)) (snd (spread_of c)) amount)"
  by (simp add: SuccessChance_def spread_of_def spread_chance_def Let_def split_beta)

lemma u64_Suc: "(l :: u64) \<noteq> MaxUint64 \<Longrightarrow> unat (l + 1) = unat l + 1"
  by (subst unat_u64_add_exact) (simp_all add: u64_neq_Max_iff)

lemma bound_chance:
  assumes "l \<noteq> MaxUint64" "b \<le> l" "a \<le> b"
  shows "l + 1 - b \<le> l + 1" "l + 1 - b \<le> l + 1 - a"
proof -
  have "b \<le> l + 1" "a \<le> l + 1"
    using assms by (simp_all add: u64_le_iff u64_Suc)
  with assms(3) show "l + 1 - b \<le> l + 1" "l + 1 - b \<le> l + 1 - a"
    by (simp_all add: u64_le_iff unat_u64_sub_exact)
qed

lemma SuccessChance_unit:
  assumes "AmountMsat c \<noteq> MaxUint64"
  shows "0 \<le> SuccessChance c amount" "SuccessChance c amount \<le> 1"
proof -
  define l where "l = (if Liquidity c > AmountMsat c then AmountMsat c else Liquidity c)"
  have "l \<le> AmountMsat c" by (simp add: l_def linorder_not_less [symmetric])
  then have l: "l \<noteq> MaxUint64" using assms by (simp add: u64_neq_Max_iff u64_le_iff)
  have "0 \<le> fdiv (float_of_u64 (l + 1 - amount)) (float_of_u64 (l + 1))
      \<and> fdiv (float_of_u64 (l + 1 - amount)) (float_of_u64 (l + 1)) \<le> 1" if "amount \<le> l"
    using bound_chance(1) [OF l that order_refl] by (rule fdiv_amounts_unit)
  then have "0 \<le> SuccessChance c amount \<and> SuccessChance c amount \<le> 1"
    using spread_chance_unit
    by (simp add: SuccessChance_unfold l_def [symmetric] Let_def linorder_not_less)
  then show "0 \<le> SuccessChance c amount" "SuccessChance c amount \<le> 1" by auto
qed

lemma SuccessChance_antimono:
  assumes "AmountMsat c \<noteq> MaxUint64" "a \<le> b"
  shows "SuccessChance c b \<le> SuccessChance c a"
proof -
  define l where "l = (if Liquidity c > AmountMsat c then AmountMsat c else Liquidity c)"
  have "l \<le> AmountMsat c" by (simp add: l_def linorder_not_less [symmetric])
  then have l: "l \<noteq> MaxUint64" using assms(1) by (simp add: u64_neq_Max_iff u64_le_iff)
  have "fdiv (float_of_u64 (l + 1 - b)) (float_of_u64 (l + 1))
      \<le> fdiv (float_of_u64 (l + 1 - a)) (float_of_u64 (l + 1))" if "b \<le> l"
    using bound_chance(2) [OF l that assms(2)] by (rule fdiv_amounts_mono)
  moreover have "0 \<le> fdiv (float_of_u64 (l + 1 - a)) (float_of_u64 (l + 1))" if "a \<le> l"
    using bound_chance(1) [OF l that order_refl] fdiv_amounts_unit by blast
  ultimately show ?thesis
    using spread_chance_antimono [OF assms(2)] assms(2)
    by (auto simp: SuccessChance_unfold l_def [symmetric] Let_def linorder_not_less)
qed

text \<open>A channel that may carry nothing, or whose bound the amount passes, has no chance.\<close>

lemma SuccessChance_unusable: "Liquidity c = 0 \<Longrightarrow> SuccessChance c amount = 0"
  by (simp add: SuccessChance_def)

lemma SuccessChance_bound:
  "Upper c \<Longrightarrow> learned c \<Longrightarrow> amount > Liquidity c \<Longrightarrow> SuccessChance c amount = 0"
  by (auto simp: SuccessChance_def Let_def)

end
