(* ===== verification/GraphState.thy ===== *)
theory GraphState
  imports GraphChannel
begin

text \<open>
  The graph (\<^verbatim>\<open>graph/graph.go\<close>): the channels by id, the adjacency list used by the search, the
  inbound fees of bLIP-18, the aliases, and the operations that build it from listchannels, from
  gossip and from our own peers.  Its locks are not modelled: every operation here holds them
  from start to end, so it is one step on the state.

  The lemmas: the adjacency list and the channel map agree (\<open>graph_ok\<close>) and every operation keeps
  it; what a refresh, a sync, a prune and a channel_update do to each channel; the inbound fee is
  the exact capped rate with no wrap-around.
\<close>

section \<open>The state\<close>

record InboundFee =
  BaseFee :: u32
  FeeRate :: u32

record NodeScore =
  Score :: rat
  At :: int

text \<open>
  \<^verbatim>\<open>Channels\<close>, \<^verbatim>\<open>Inbound\<close>, \<^verbatim>\<open>InboundFees\<close>, \<^verbatim>\<open>avoid\<close> and \<^verbatim>\<open>nodeScores\<close> are ranged over by the code and
  are association lists; the others are maps.  A Unix time is an integer, a duration its
  nanoseconds.
\<close>

record Graph =
  Channels :: "(channel_id \<times> Channel) list"
  Inbound :: "(node_id \<times> (node_id \<times> scid list) list) list"
  Aliases :: "node_id \<rightharpoonup> string"
  InboundFees :: "(channel_id \<times> InboundFee) list"
  avoid :: "(string \<times> int) list"
  lastDecay :: int
  feeMedians :: "node_id \<rightharpoonup> u64"
  nodeScores :: "(node_id \<times> NodeScore) list"
  nodeHalfLife :: int

definition NewGraph :: Graph where
  "NewGraph = \<lparr>Channels = [], Inbound = [], Aliases = Map.empty, InboundFees = [], avoid = [],
     lastDecay = 0, feeMedians = Map.empty, nodeScores = [], nodeHalfLife = 0\<rparr>"

definition PRUNING_INTERVAL :: u64 where "PRUNING_INTERVAL = 1209600"

abbreviation channel_at :: "Graph \<Rightarrow> channel_id \<Rightarrow> Channel option" where
  "channel_at g i \<equiv> map_of (Channels g) i"

text \<open>Reading \<^verbatim>\<open>g.Inbound[dst]\<close> and \<^verbatim>\<open>g.Inbound[dst][src]\<close>; a missing key gives nil.\<close>

definition inbound_of :: "Graph \<Rightarrow> node_id \<Rightarrow> (node_id \<times> scid list) list" where
  "inbound_of g dst = (case map_of (Inbound g) dst of None \<Rightarrow> [] | Some m \<Rightarrow> m)"

definition edge_of :: "Graph \<Rightarrow> node_id \<Rightarrow> node_id \<Rightarrow> scid list" where
  "edge_of g dst src = (case map_of (inbound_of g dst) src of None \<Rightarrow> [] | Some e \<Rightarrow> e)"

definition set_edge :: "Graph \<Rightarrow> node_id \<Rightarrow> node_id \<Rightarrow> scid list \<Rightarrow> Graph" where
  "set_edge g dst src e =
     g\<lparr>Inbound := AList.update dst (AList.update src e (inbound_of g dst)) (Inbound g)\<rparr>"

section \<open>Adding and removing channels\<close>

text \<open>\<^verbatim>\<open>allocate\<close> makes the two levels of the map exist.\<close>

definition allocate :: "Graph \<Rightarrow> node_id \<Rightarrow> node_id \<Rightarrow> Graph" where
  "allocate g from to =
     (case map_of (inbound_of g from) to of
        Some e \<Rightarrow> g
      | None \<Rightarrow> set_edge g from to [])"

text \<open>\<^verbatim>\<open>AddChannel\<close> lists the channel once, and fills in its HTLC limits; it returns the channel it
  may have changed with the graph.\<close>

definition AddChannel :: "Graph \<Rightarrow> Channel \<Rightarrow> Graph \<times> Channel" where
  "AddChannel g c =
     (let g1 = allocate g (Destination c) (Source c);
          edge = edge_of g1 (Destination c) (Source c);
          g2 = (if ShortChannelId c \<in> set edge then g1
                else set_edge g1 (Destination c) (Source c) (edge @ [ShortChannelId c]));
          c1 = (if maxHtlcMsat c = 0 then c\<lparr>maxHtlcMsat := HtlcMaximumMilliSatoshis c\<rparr> else c);
          c2 = (if minHtlcMsat c1 = 0 then c1\<lparr>minHtlcMsat := HtlcMinimumMilliSatoshis c1\<rparr> else c1) in
      (g2, c2))"

text \<open>\<^verbatim>\<open>g.Channels[id] = c\<close>.\<close>

definition put_channel :: "Graph \<Rightarrow> channel_id \<Rightarrow> Channel \<Rightarrow> Graph" where
  "put_channel g i c = g\<lparr>Channels := AList.update i c (Channels g)\<rparr>"

text \<open>\<^verbatim>\<open>remove\<close> puts the last element in the place of the one removed.\<close>

definition remove_at :: "'a list \<Rightarrow> nat \<Rightarrow> 'a list" where
  "remove_at s i = butlast (s[i := last s])"

fun index_of :: "'a \<Rightarrow> 'a list \<Rightarrow> nat option" where
  "index_of x [] = None"
| "index_of x (y # ys) = (if y = x then Some 0 else map_option Suc (index_of x ys))"

definition DeleteChannel :: "Graph \<Rightarrow> Channel \<Rightarrow> Graph" where
  "DeleteChannel g c =
     (let g1 = g\<lparr>Channels := AList.delete (channelId c) (Channels g)\<rparr>;
          edge = edge_of g1 (Destination c) (Source c) in
      case index_of (ShortChannelId c) edge of
        None \<Rightarrow> g1
      | Some i \<Rightarrow> set_edge g1 (Destination c) (Source c) (remove_at edge i))"

section \<open>The avoid list\<close>

definition avoid_key :: "Graph \<Rightarrow> string \<Rightarrow> int \<Rightarrow> Graph" where
  "avoid_key g key until =
     (if until > (case map_of (avoid g) key of None \<Rightarrow> 0 | Some t \<Rightarrow> t)
      then g\<lparr>avoid := AList.update key until (avoid g)\<rparr> else g)"

definition Unavoid :: "Graph \<Rightarrow> string \<Rightarrow> Graph" where
  "Unavoid g key = g\<lparr>avoid := AList.delete key (avoid g)\<rparr>"

text \<open>\<^verbatim>\<open>Avoided\<close> returns the keys still avoided and forgets the expired ones.\<close>

definition Avoided :: "Graph \<Rightarrow> int \<Rightarrow> Graph \<times> string list" where
  "Avoided g now =
     (let live = filter (\<lambda>(key, until). \<not> until \<le> now) (avoid g) in
      (g\<lparr>avoid := live\<rparr>, map fst live))"

definition AvoidList :: "Graph \<Rightarrow> (string \<times> int) list" where
  "AvoidList g = avoid g"

section \<open>Dear channels\<close>

definition DearFactor :: u64 where "DearFactor = 2"
definition dearMinChannels :: nat where "dearMinChannels = 3"
definition dearMinGap :: u64 where "dearMinGap = 50"

definition isDear :: "Graph \<Rightarrow> Channel \<Rightarrow> bool" where
  "isDear g c =
     (case feeMedians g (Source c) of
        None \<Rightarrow> False
      | Some median \<Rightarrow>
          FeePerMillionth c + 1 \<ge> DearFactor * (median + 1) \<and> FeePerMillionth c \<ge> median + dearMinGap)"

text \<open>The rates of a node's active channels, in the order they are visited.\<close>

definition node_rates :: "Graph \<Rightarrow> node_id \<Rightarrow> u64 list" where
  "node_rates g n =
     map (\<lambda>(i, c). FeePerMillionth c) (filter (\<lambda>(i, c). IsActive c \<and> Source c = n) (Channels g))"

definition fee_median :: "u64 list \<Rightarrow> u64 option" where
  "fee_median r = (if length r < dearMinChannels then None else Some (sort r ! (length r div 2)))"

definition MarkDearChannels :: "Graph \<Rightarrow> Graph \<times> nat" where
  "MarkDearChannels g =
     (let g1 = g\<lparr>feeMedians := (\<lambda>n. fee_median (node_rates g n))\<rparr>;
          g2 = g1\<lparr>Channels := map_vals (\<lambda>i c. c\<lparr>Dear := isDear g1 c\<rparr>) (Channels g1)\<rparr> in
      (g2, length (filter (\<lambda>(i, c). Dear c) (Channels g2))))"

section \<open>Refreshing from listchannels\<close>

text \<open>One iteration of \<^verbatim>\<open>refreshChannels\<close>.\<close>

definition gl_id :: "GlChannel \<Rightarrow> channel_id" where
  "gl_id c = dir_id (ShortChannelId c) (Source c) (Destination c)"

definition refreshChannel :: "Graph \<Rightarrow> GlChannel \<Rightarrow> Graph" where
  "refreshChannel g c =
     (let i = gl_id c in
      case channel_at g i of
        None \<Rightarrow>
          let (g1, channel) = AddChannel g (NewChannel c (AmountMsat c div 2) 0) in
          put_channel g1 i channel
      | Some existing \<Rightarrow>
          if LastUpdate existing > LastUpdate c then g
          else
            let channel = (NewChannel c (Liquidity existing) (Timestamp existing))\<lparr>Upper := Upper existing\<rparr>;
                channel = channel\<lparr>Dear := isDear g channel\<rparr>;
                g1 = (if LastUpdate c > LastUpdate existing then Unavoid g i else g) in
            put_channel g1 i channel)"

definition refreshChannels :: "Graph \<Rightarrow> GlChannel list \<Rightarrow> Graph" where
  "refreshChannels g channelList = foldl refreshChannel g channelList"

text \<open>The loop of \<^verbatim>\<open>SyncChannels\<close> and \<^verbatim>\<open>PruneChannels\<close> that deletes while ranging over the map: an
  entry deleted before the loop reaches it is not visited.\<close>

fun delete_where :: "(channel_id \<Rightarrow> Channel \<Rightarrow> bool) \<Rightarrow> channel_id list \<Rightarrow> Graph \<times> nat \<Rightarrow> Graph \<times> nat" where
  "delete_where P [] (g, n) = (g, n)"
| "delete_where P (i # is) (g, n) =
     (case channel_at g i of
        None \<Rightarrow> delete_where P is (g, n)
      | Some c \<Rightarrow>
          if P i c then delete_where P is (DeleteChannel g c, n + 1) else delete_where P is (g, n))"

definition SyncChannels :: "Graph \<Rightarrow> GlChannel list \<Rightarrow> channel_id set \<Rightarrow> u64 \<Rightarrow> Graph \<times> int" where
  "SyncChannels g channelList keep asOf =
     (let others = length (filter (\<lambda>(i, c). i \<notin> keep) (Channels g)) in
      if length channelList < others div 2 then (refreshChannels g channelList, -1)
      else
        let listed = set (map gl_id channelList);
            g1 = refreshChannels g channelList;
            (g2, removed) = delete_where
               (\<lambda>i c. \<not> (i \<in> listed \<or> i \<in> keep \<or> LastUpdate c \<ge> asOf)) (map fst (Channels g1)) (g1, 0) in
        (g2, int removed))"

section \<open>Gossip updates\<close>

record ChannelUpdate =
  ChannelId :: channel_id
  cu_Timestamp :: u64
  cu_MessageFlags :: byte
  cu_ChannelFlags :: byte
  CltvDelta :: u64
  HtlcMinimumMsat :: u64
  HtlcMaximumMsat :: u64
  BaseFeeMsat :: u32
  FeePPM :: u32

unbundle bit_operations_syntax

definition updated_policy :: "GlChannel \<Rightarrow> ChannelUpdate \<Rightarrow> GlChannel" where
  "updated_policy old u =
     (let p = old\<lparr>LastUpdate := cu_Timestamp u,
                MessageFlags := ucast (cu_MessageFlags u),
                ChannelFlags := ucast (cu_ChannelFlags u),
                IsActive := (cu_ChannelFlags u AND 2 = 0),
                Delay := CltvDelta u,
                BaseFeeMillisatoshi := ucast (BaseFeeMsat u),
                FeePerMillionth := ucast (FeePPM u),
                HtlcMinimumMilliSatoshis := HtlcMinimumMsat u\<rparr> in
      if cu_MessageFlags u AND 1 \<noteq> 0 then p\<lparr>HtlcMaximumMilliSatoshis := HtlcMaximumMsat u\<rparr> else p)"

definition ApplyChannelUpdate :: "Graph \<Rightarrow> ChannelUpdate \<Rightarrow> Graph \<times> bool" where
  "ApplyChannelUpdate g u =
     (case channel_at g (ChannelId u) of
        None \<Rightarrow> (g, False)
      | Some old \<Rightarrow>
          if cu_Timestamp u \<le> LastUpdate old then (g, False)
          else
            let c = NewChannel (updated_policy (policy_of old) u) (Liquidity old) (Timestamp old);
                c = c\<lparr>Upper := Upper old\<rparr>;
                c = c\<lparr>Dear := isDear g c\<rparr> in
            (Unavoid (put_channel g (ChannelId u) c) (ChannelId u), True))"

definition RefreshAliases :: "Graph \<Rightarrow> (node_id \<times> string) list \<Rightarrow> Graph" where
  "RefreshAliases g nodes = g\<lparr>Aliases := foldl (\<lambda>m (i, alias). m(i \<mapsto> alias)) (Aliases g) nodes\<rparr>"

definition GetAlias :: "Graph \<Rightarrow> node_id \<Rightarrow> string" where
  "GetAlias g i = (case Aliases g i of Some alias \<Rightarrow> alias | None \<Rightarrow> i)"

section \<open>Inbound fees\<close>

definition SetInboundFee :: "Graph \<Rightarrow> channel_id \<Rightarrow> u32 \<Rightarrow> u32 \<Rightarrow> Graph" where
  "SetInboundFee g i baseFee feeRate =
     g\<lparr>InboundFees := AList.update i \<lparr>BaseFee = baseFee, FeeRate = feeRate\<rparr> (InboundFees g)\<rparr>"

definition DeleteInboundFee :: "Graph \<Rightarrow> channel_id \<Rightarrow> Graph \<times> bool" where
  "DeleteInboundFee g i =
     (case map_of (InboundFees g) i of
        None \<Rightarrow> (g, False)
      | Some _ \<Rightarrow> (g\<lparr>InboundFees := AList.delete i (InboundFees g)\<rparr>, True))"

definition maxInboundFeeRate :: int where "maxInboundFeeRate = 10000000"

definition capped_rate :: "InboundFee \<Rightarrow> int" where
  "capped_rate fee =
     (if sint (FeeRate fee) > maxInboundFeeRate then maxInboundFeeRate
      else if sint (FeeRate fee) < - maxInboundFeeRate then - maxInboundFeeRate
      else sint (FeeRate fee))"

text \<open>Every \<^verbatim>\<open>int64\<close> operation of \<^verbatim>\<open>inboundFee\<close> wraps (\<^const>\<open>i64\<close>); Go's division truncates.\<close>

definition inboundFee :: "Graph \<Rightarrow> channel_id \<Rightarrow> u64 \<Rightarrow> int" where
  "inboundFee g i amount =
     (case map_of (InboundFees g) i of
        None \<Rightarrow> 0
      | Some fee \<Rightarrow>
          let rate = capped_rate fee;
              millions = amount div 1000000;
              rest = sint (amount mod 1000000) in
          if rate \<noteq> 0 \<and> millions > word_of_int (MaxInt64 div 2 div maxInboundFeeRate) then
            (if rate > 0 then MaxInt64 else MinInt64)
          else i64 (i64 (sint (BaseFee fee) + i64 (sint millions * rate)) + i64 (rest * rate) sdiv 1000000))"

definition GetInboundFee :: "Graph \<Rightarrow> Channel \<Rightarrow> u64 \<Rightarrow> int" where
  "GetInboundFee g c amount = inboundFee g (channelId c) amount"

section \<open>Pruning\<close>

text \<open>What comes before the last slash of an id, if it has one.\<close>

definition before_slash :: "string \<Rightarrow> string option" where
  "before_slash s = (case dropWhile (\<lambda>ch. ch \<noteq> CHR ''/'') (rev s) of [] \<Rightarrow> None | _ # r \<Rightarrow> Some (rev r))"

definition pruneInboundFees :: "Graph \<Rightarrow> Graph" where
  "pruneInboundFees g =
     (let existing = List.map_filter before_slash (map fst (Channels g)) in
      g\<lparr>InboundFees := filter (\<lambda>(key, fee).
          case before_slash key of None \<Rightarrow> True | Some scid \<Rightarrow> scid \<in> set existing) (InboundFees g)\<rparr>)"

definition PruneChannels :: "Graph \<Rightarrow> u64 \<Rightarrow> Graph" where
  "PruneChannels g now =
     pruneInboundFees
       (fst (delete_where (\<lambda>i c. LastUpdate c + PRUNING_INTERVAL < now) (map fst (Channels g)) (g, 0)))"

section \<open>Looking up\<close>

datatype util_error =
    ErrSendPayTimeout | ErrTemporaryFailure | ErrWireFeeInsufficient
  | ErrNoRequiredParameter | ErrSelfNode | ErrNoPeers | ErrSameIncomingAndOutgoingNode
  | ErrNoPeerChannel | ErrNoSuchNode | ErrNoPeer | ErrNoPaymentSecret | ErrCircularStopped
  | ErrNoGraphToLoad | ErrNoRoute
  | ErrAmountLessThanSplitAmount | ErrAmountNotMultipleOfSplitAmount | ErrDepleteUpToPercentInvalid
  | ErrNoChannel | ErrNoCandidates | ErrChannelDepleted | ErrChannelFilled
  | ErrIncomingChannelDepleted | ErrOutgoingChannelDepleted
  | ErrNoOutgoingChannel | ErrNoIncomingChannel | ErrChannelNotInNormalState
  | ErrOutgoingChannelNotInNormalState | ErrIncomingChannelNotInNormalState
  | ErrChannelNotFound | ErrOppositeChannelNotFound
  | ErrIncomingPeerDisconnected | ErrOutgoingPeerDisconnected

definition GetChannel :: "Graph \<Rightarrow> channel_id \<Rightarrow> util_error + Channel" where
  "GetChannel g i = (case channel_at g i of None \<Rightarrow> Inl ErrNoChannel | Some c \<Rightarrow> Inr c)"

record Stats =
  Nodes :: nat
  stats_Channels :: nat
  ActiveChannels :: nat
  LiquidChannels :: nat
  MaxHtlcChannels :: nat

definition GetStats :: "Graph \<Rightarrow> Stats" where
  "GetStats g =
     \<lparr>Nodes = length (Inbound g), stats_Channels = length (Channels g),
      ActiveChannels = length (filter (\<lambda>(i, c). IsActive c) (Channels g)),
      LiquidChannels = length (filter (\<lambda>(i, c). Liquidity c \<ge> 200000000) (Channels g)),
      MaxHtlcChannels = length (filter (\<lambda>(i, c). HtlcMaximumMilliSatoshis c \<ge> 200000000) (Channels g))\<rparr>"


section \<open>The adjacency list and the channel map agree\<close>

lemma edge_of_set_edge:
  "edge_of (set_edge g d s e) d' s' = (if d' = d \<and> s' = s then e else edge_of g d' s')"
  by (simp add: edge_of_def inbound_of_def set_edge_def)

lemma inbound_of_set_edge:
  "inbound_of (set_edge g d s e) d' =
     (if d' = d then AList.update s e (inbound_of g d) else inbound_of g d')"
  by (simp add: inbound_of_def set_edge_def)

lemma set_edge_frame [simp]:
  "Channels (set_edge g d s e) = Channels g" "avoid (set_edge g d s e) = avoid g"
  "feeMedians (set_edge g d s e) = feeMedians g" "InboundFees (set_edge g d s e) = InboundFees g"
  by (simp_all add: set_edge_def)

lemma allocate_frame [simp]:
  "Channels (allocate g d s) = Channels g" "feeMedians (allocate g d s) = feeMedians g"
  "edge_of (allocate g d s) d' s' = edge_of g d' s'"
proof -
  show "Channels (allocate g d s) = Channels g" "feeMedians (allocate g d s) = feeMedians g"
    by (auto simp: allocate_def split: option.splits)
  have "map_of (inbound_of g d) s = None \<Longrightarrow> edge_of g d s = []"
    by (simp add: edge_of_def)
  then show "edge_of (allocate g d s) d' s' = edge_of g d' s'"
    by (cases "map_of (inbound_of g d) s") (simp_all add: allocate_def edge_of_set_edge)
qed

lemma AddChannel_frame [simp]:
  "Channels (fst (AddChannel g c)) = Channels g" "feeMedians (fst (AddChannel g c)) = feeMedians g"
  by (simp_all add: AddChannel_def Let_def)

lemma edge_of_AddChannel:
  "edge_of (fst (AddChannel g c)) d s =
     (if d = Destination c \<and> s = Source c \<and> ShortChannelId c \<notin> set (edge_of g d s)
      then edge_of g d s @ [ShortChannelId c] else edge_of g d s)"
  by (simp add: AddChannel_def Let_def edge_of_set_edge)

lemma AddChannel_same [simp]:
  "Source (snd (AddChannel g c)) = Source c" "Destination (snd (AddChannel g c)) = Destination c"
  "ShortChannelId (snd (AddChannel g c)) = ShortChannelId c"
  "Liquidity (snd (AddChannel g c)) = Liquidity c" "Timestamp (snd (AddChannel g c)) = Timestamp c"
  "Upper (snd (AddChannel g c)) = Upper c" "AmountMsat (snd (AddChannel g c)) = AmountMsat c"
  by (simp_all add: AddChannel_def Let_def)

lemma AddChannel_id [simp]: "channelId (snd (AddChannel g c)) = channelId c"
  by (simp add: channelId_def)

lemma put_channel_frame [simp]:
  "edge_of (put_channel g i c) d s = edge_of g d s" "inbound_of (put_channel g i c) d = inbound_of g d"
  "channel_at (put_channel g i c) j = (if j = i then Some c else channel_at g j)"
  "feeMedians (put_channel g i c) = feeMedians g"
  by (simp_all add: put_channel_def edge_of_def inbound_of_def)

lemma Unavoid_frame [simp]:
  "Channels (Unavoid g k) = Channels g" "edge_of (Unavoid g k) d s = edge_of g d s"
  "inbound_of (Unavoid g k) d = inbound_of g d" "feeMedians (Unavoid g k) = feeMedians g"
  by (simp_all add: Unavoid_def edge_of_def inbound_of_def)

lemma channelId_NewChannel [simp]: "channelId (NewChannel c l t) = gl_id c"
  by (simp add: channelId_def gl_id_def)

lemma keys_distinct_AddChannel:
  "keys_distinct (inbound_of g d) \<Longrightarrow> keys_distinct (inbound_of (fst (AddChannel g c)) d)"
  by (auto simp: AddChannel_def allocate_def Let_def inbound_of_set_edge split: option.splits)

text \<open>
  \<open>ends\<close> gives the two nodes of each channel id: an id names one channel in one direction, whatever
  message describes it.  Under it, the channels stored and the scids listed are the same.
\<close>

definition fits_ends :: "(channel_id \<Rightarrow> node_id \<times> node_id) \<Rightarrow> 'a GlChannel_scheme \<Rightarrow> bool" where
  "fits_ends ends c =
     (ends (dir_id (ShortChannelId c) (Source c) (Destination c)) = (Source c, Destination c))"

lemma fits_ends_same [simp]:
  "fits_ends ends (NewChannel gl l t) = fits_ends ends gl"
  "fits_ends ends (c\<lparr>Upper := u\<rparr>) = fits_ends ends c"
  "fits_ends ends (c\<lparr>Dear := b\<rparr>) = fits_ends ends c"
  "channelId (c\<lparr>Upper := u\<rparr>) = channelId c" "channelId (c\<lparr>Dear := b\<rparr>) = channelId c"
  by (simp_all add: fits_ends_def channelId_def)

definition graph_ok :: "(channel_id \<Rightarrow> node_id \<times> node_id) \<Rightarrow> Graph \<Rightarrow> bool" where
  "graph_ok ends g \<longleftrightarrow>
     keys_distinct (Channels g) \<and>
     (\<forall>d. keys_distinct (inbound_of g d)) \<and>
     (\<forall>d s. distinct (edge_of g d s)) \<and>
     (\<forall>i c. channel_at g i = Some c \<longrightarrow> i = channelId c \<and> fits_ends ends c) \<and>
     (\<forall>d s x. x \<in> set (edge_of g d s) \<longleftrightarrow>
        (\<exists>c. channel_at g (dir_id x s d) = Some c \<and> Source c = s \<and> Destination c = d))"

lemma graph_okI:
  assumes "keys_distinct (Channels g)" "\<And>d. keys_distinct (inbound_of g d)"
    "\<And>d s. distinct (edge_of g d s)"
    "\<And>i c. channel_at g i = Some c \<Longrightarrow> i = channelId c \<and> fits_ends ends c"
    "\<And>d s x. x \<in> set (edge_of g d s) \<longleftrightarrow>
        (\<exists>c. channel_at g (dir_id x s d) = Some c \<and> Source c = s \<and> Destination c = d)"
  shows "graph_ok ends g"
  unfolding graph_ok_def using assms by blast

named_theorems graph_keep "operations that keep graph_ok"

lemma graph_okD:
  assumes "graph_ok ends g"
  shows "keys_distinct (Channels g)" "keys_distinct (inbound_of g d)" "distinct (edge_of g d s)"
    "channel_at g i = Some c \<Longrightarrow> i = channelId c"
    "channel_at g i = Some c \<Longrightarrow> fits_ends ends c"
    "x \<in> set (edge_of g d s) \<longleftrightarrow>
        (\<exists>c. channel_at g (dir_id x s d) = Some c \<and> Source c = s \<and> Destination c = d)"
  using assms by (auto simp: graph_ok_def)

lemma graph_ok_NewGraph: "graph_ok ends NewGraph"
  by (simp add: graph_ok_def NewGraph_def edge_of_def inbound_of_def)

text \<open>Two channels with one id have the same ends and the same scid.\<close>

lemma same_id_same_ends:
  assumes "fits_ends ends c" "fits_ends ends c'" "channelId c = channelId c'"
  shows "Source c = Source c'" "Destination c = Destination c'" "ShortChannelId c = ShortChannelId c'"
proof -
  have e: "dir_id (ShortChannelId c) (Source c) (Destination c)
      = dir_id (ShortChannelId c') (Source c') (Destination c')"
    using assms(3) by (simp add: channelId_def)
  then show "ShortChannelId c = ShortChannelId c'" by (simp add: dir_id_inject)
  have "(Source c, Destination c) = (Source c', Destination c')"
    using assms(1,2) unfolding fits_ends_def e by simp
  then show "Source c = Source c'" "Destination c = Destination c'" by simp_all
qed

text \<open>Storing a channel that is listed, or that replaces one with the same id.\<close>

lemma graph_ok_add:
  assumes ok: "graph_ok ends g" and fits: "fits_ends ends c"
  shows "graph_ok ends (put_channel (fst (AddChannel g c)) (channelId c) (snd (AddChannel g c)))"
    (is "graph_ok ends ?g")
proof -
  let ?c = "snd (AddChannel g c)"
  have at: "channel_at ?g j = (if j = channelId c then Some ?c else channel_at g j)" for j
    by simp
  have edge: "x \<in> set (edge_of ?g d s) \<longleftrightarrow>
      x \<in> set (edge_of g d s) \<or> (d = Destination c \<and> s = Source c \<and> x = ShortChannelId c)" for x d s
    by (auto simp: edge_of_AddChannel)
  have "x \<in> set (edge_of ?g d s) \<longleftrightarrow>
      (\<exists>c'. channel_at ?g (dir_id x s d) = Some c' \<and> Source c' = s \<and> Destination c' = d)" for x d s
  proof (cases "dir_id x s d = channelId c")
    case True
    then have x: "x = ShortChannelId c" by (simp add: channelId_def dir_id_inject)
    have "x \<in> set (edge_of g d s) \<Longrightarrow> s = Source c \<and> d = Destination c"
    proof -
      assume "x \<in> set (edge_of g d s)"
      then obtain c' where c': "channel_at g (dir_id x s d) = Some c'" "Source c' = s" "Destination c' = d"
        using graph_okD(6) [OF ok] by blast
      have "channelId c' = channelId c" using graph_okD(4) [OF ok c'(1)] True by simp
      then show ?thesis using same_id_same_ends [OF graph_okD(5) [OF ok c'(1)] fits] c' by simp
    qed
    with True x show ?thesis unfolding edge at by auto
  next
    case False
    then have "\<not> (d = Destination c \<and> s = Source c \<and> x = ShortChannelId c)"
      by (auto simp: channelId_def)
    with False show ?thesis unfolding edge at using graph_okD(6) [OF ok, of x d s] by auto
  qed
  moreover have "j = channelId c' \<and> fits_ends ends c'" if "channel_at ?g j = Some c'" for j c'
    using that graph_okD(4,5) [OF ok] fits by (auto simp: at fits_ends_def split: if_splits)
  moreover have "distinct (edge_of ?g d s)" for d s
    using graph_okD(3) [OF ok, of d s] unfolding put_channel_frame edge_of_AddChannel by auto
  moreover have "keys_distinct (Channels ?g)"
    using graph_okD(1) [OF ok] by (simp add: put_channel_def)
  moreover have "keys_distinct (inbound_of ?g d)" for d
    using graph_okD(2) [OF ok, of d] by (simp add: keys_distinct_AddChannel)
  ultimately show ?thesis by (intro graph_okI)
qed

lemma graph_ok_replace:
  assumes ok: "graph_ok ends g" and old: "channel_at g i = Some old"
    and new: "channelId c = i" "fits_ends ends c"
  shows "graph_ok ends (put_channel g i c)"
proof -
  have i: "i = channelId old" using graph_okD(4) [OF ok old] .
  have same: "Source c = Source old" "Destination c = Destination old"
    using same_id_same_ends [OF new(2) graph_okD(5) [OF ok old]] new(1) i by simp_all
  have "x \<in> set (edge_of g d s) \<longleftrightarrow>
      (\<exists>c'. channel_at (put_channel g i c) (dir_id x s d) = Some c' \<and> Source c' = s \<and> Destination c' = d)" for x d s
    using graph_okD(6) [OF ok, of x d s] old same by auto
  moreover have "keys_distinct (Channels (put_channel g i c))"
    using graph_okD(1) [OF ok] by (simp add: put_channel_def)
  ultimately show ?thesis
    using graph_okD(2-5) [OF ok] new by (intro graph_okI) (auto split: if_splits)
qed

lemma graph_ok_Unavoid [graph_keep]: "graph_ok ends g \<Longrightarrow> graph_ok ends (Unavoid g k)"
  by (simp add: graph_ok_def)

lemma refreshChannel_ok [graph_keep]:
  assumes "graph_ok ends g" "fits_ends ends c"
  shows "graph_ok ends (refreshChannel g c)"
proof (cases "channel_at g (gl_id c)")
  case None
  then show ?thesis
    using graph_ok_add [OF assms(1), of "NewChannel c (AmountMsat c div 2) 0"] assms(2)
    by (simp add: refreshChannel_def split_beta Let_def)
next
  case (Some old)
  have "graph_ok ends (put_channel h (gl_id c) c')"
    if "h = g \<or> h = Unavoid g (gl_id c)" "channelId c' = gl_id c" "fits_ends ends c'" for h c'
    using that(1) Some graph_ok_replace [OF assms(1) Some that(2,3)]
      graph_ok_replace [OF graph_ok_Unavoid [OF assms(1)] _ that(2,3)] by auto
  note keep = this
  show ?thesis
    using Some assms(1,2)
    by (auto simp: refreshChannel_def Let_def intro!: keep)
qed

lemma refreshChannels_ok [graph_keep]:
  "graph_ok ends g \<Longrightarrow> \<forall>c \<in> set cs. fits_ends ends c \<Longrightarrow> graph_ok ends (refreshChannels g cs)"
  unfolding refreshChannels_def
  by (induction cs arbitrary: g) (auto intro: refreshChannel_ok)

text \<open>Removing one element of a list without duplicates.\<close>

lemma index_of_None: "index_of x xs = None \<longleftrightarrow> x \<notin> set xs"
  by (induction xs) auto

lemma index_of_Some: "index_of x xs = Some i \<Longrightarrow> i < length xs \<and> xs ! i = x"
  by (induction xs arbitrary: i) (auto split: if_splits simp: less_Suc_eq_0_disj)

lemma mset_remove_at:
  assumes "i < length xs"
  shows "mset (remove_at xs i) = mset xs - {#xs ! i#}"
proof -
  have ne: "xs \<noteq> []" using assms by auto
  have ne': "xs[i := last xs] \<noteq> []" using ne by simp
  have "last (xs[i := last xs]) = last xs"
    using last_list_update [OF ne, of i "last xs"] by simp
  then have "xs[i := last xs] = remove_at xs i @ [last xs]"
    using append_butlast_last_id [OF ne'] by (simp add: remove_at_def)
  then have "mset (xs[i := last xs]) = mset (remove_at xs i) + {#last xs#}"
    by (metis mset.simps(1,2) mset_append)
  moreover have "mset (xs[i := last xs]) = add_mset (last xs) (mset xs - {#xs ! i#})"
    using assms by (simp add: mset_update)
  ultimately show ?thesis by simp
qed

lemma set_remove_at:
  assumes "distinct xs" "i < length xs"
  shows "set (remove_at xs i) = set xs - {xs ! i}" "distinct (remove_at xs i)"
proof -
  have "mset (remove_at xs i) = mset (remove1 (xs ! i) xs)"
    using assms by (simp add: mset_remove_at)
  then show "set (remove_at xs i) = set xs - {xs ! i}" "distinct (remove_at xs i)"
    using assms(1) by (metis mset_eq_setD set_remove1_eq, metis distinct_remove1 mset_eq_imp_distinct_iff)
qed

lemma edge_of_DeleteChannel:
  assumes "distinct (edge_of g (Destination c) (Source c))"
  shows "set (edge_of (DeleteChannel g c) d s) =
      (if d = Destination c \<and> s = Source c then set (edge_of g d s) - {ShortChannelId c}
       else set (edge_of g d s))"
    "distinct (edge_of g d s) \<Longrightarrow> distinct (edge_of (DeleteChannel g c) d s)"
proof -
  have chans: "edge_of (g\<lparr>Channels := al\<rparr>) d s = edge_of g d s" for al d s
    by (simp add: edge_of_def inbound_of_def)
  let ?e = "edge_of g (Destination c) (Source c)"
  have cut: "set (remove_at ?e i) = set ?e - {ShortChannelId c} \<and> distinct (remove_at ?e i)"
    if "index_of (ShortChannelId c) ?e = Some i" for i
    using index_of_Some [OF that] set_remove_at [OF assms, of i] by simp
  show "set (edge_of (DeleteChannel g c) d s) =
      (if d = Destination c \<and> s = Source c then set (edge_of g d s) - {ShortChannelId c}
       else set (edge_of g d s))"
    using cut index_of_None [of "ShortChannelId c" ?e]
    by (auto simp: DeleteChannel_def Let_def chans edge_of_set_edge split: option.splits)
  show "distinct (edge_of g d s) \<Longrightarrow> distinct (edge_of (DeleteChannel g c) d s)"
    using cut by (auto simp: DeleteChannel_def Let_def chans edge_of_set_edge split: option.splits)
qed

lemma DeleteChannel_frame [simp]:
  "channel_at (DeleteChannel g c) i = (if i = channelId c then None else channel_at g i)"
  "keys_distinct (Channels g) \<Longrightarrow> keys_distinct (Channels (DeleteChannel g c))"
  by (auto simp: DeleteChannel_def Let_def split: option.splits)

lemma inbound_of_DeleteChannel:
  assumes "\<And>e. keys_distinct (inbound_of g e)"
  shows "keys_distinct (inbound_of (DeleteChannel g c) d)"
proof -
  have chans: "inbound_of (g\<lparr>Channels := al\<rparr>) e = inbound_of g e" for al e
    by (simp add: inbound_of_def)
  show ?thesis
    using assms by (auto simp: DeleteChannel_def Let_def inbound_of_set_edge chans split: option.splits)
qed

lemma DeleteChannel_ok [graph_keep]:
  assumes ok: "graph_ok ends g" and c: "channel_at g i = Some c"
  shows "graph_ok ends (DeleteChannel g c)"
proof -
  have i: "i = channelId c" using graph_okD(4) [OF ok c] .
  have fits: "fits_ends ends c" using graph_okD(5) [OF ok c] .
  have dst: "distinct (edge_of g d s)" for d s using graph_okD(3) [OF ok] .
  have "x \<in> set (edge_of (DeleteChannel g c) d s) \<longleftrightarrow>
      (\<exists>c'. channel_at (DeleteChannel g c) (dir_id x s d) = Some c' \<and> Source c' = s \<and> Destination c' = d)" for x d s
  proof (cases "dir_id x s d = channelId c")
    case True
    then have x: "x = ShortChannelId c" by (simp add: channelId_def dir_id_inject)
    have "x \<in> set (edge_of g d s) \<Longrightarrow> d = Destination c \<and> s = Source c"
    proof -
      assume "x \<in> set (edge_of g d s)"
      then obtain c' where c': "channel_at g (dir_id x s d) = Some c'" "Source c' = s" "Destination c' = d"
        using graph_okD(6) [OF ok] by blast
      then have "c' = c" using c True i by simp
      with c' show ?thesis by simp
    qed
    note ends_of = this
    have "x \<notin> set (edge_of (DeleteChannel g c) d s)"
    proof (cases "d = Destination c \<and> s = Source c")
      case True
      then show ?thesis unfolding edge_of_DeleteChannel(1) [OF dst] x by simp
    next
      case False
      then have "x \<notin> set (edge_of g d s)" using ends_of by blast
      with False show ?thesis unfolding edge_of_DeleteChannel(1) [OF dst] by (simp only: if_False not_False_eq_True)
    qed
    then show ?thesis using True by simp
  next
    case False
    have "x \<in> set (edge_of (DeleteChannel g c) d s) \<longleftrightarrow> x \<in> set (edge_of g d s)"
      unfolding edge_of_DeleteChannel(1) [OF dst] using False by (auto simp: channelId_def)
    then show ?thesis using False graph_okD(6) [OF ok, of x d s] by simp
  qed
  moreover have "keys_distinct (inbound_of (DeleteChannel g c) d)" for d
    using graph_okD(2) [OF ok] by (rule inbound_of_DeleteChannel)
  moreover have "distinct (edge_of (DeleteChannel g c) d s)" for d s
    using edge_of_DeleteChannel(2) [OF dst dst] .
  moreover have "keys_distinct (Channels (DeleteChannel g c))"
    using graph_okD(1) [OF ok] by simp
  moreover have "j = channelId c' \<and> fits_ends ends c'" if "channel_at (DeleteChannel g c) j = Some c'" for j c'
    using that graph_okD(4) [OF ok, of j c'] graph_okD(5) [OF ok, of j c'] by (simp split: if_splits)
  ultimately show ?thesis by (intro graph_okI)
qed

section \<open>Refresh, sync, prune and gossip\<close>

lemma delete_where_ok [graph_keep]:
  "graph_ok ends g \<Longrightarrow> graph_ok ends (fst (delete_where P is (g, n)))"
  by (induction P "is" "(g, n)" arbitrary: g n rule: delete_where.induct)
     (auto split: option.splits intro: DeleteChannel_ok)

lemma delete_where_frame [simp]:
  "graph_ok ends g \<Longrightarrow>
     channel_at (fst (delete_where P is (g, n))) i =
       (case channel_at g i of None \<Rightarrow> None
        | Some c \<Rightarrow> if i \<in> set is \<and> P i c then None else Some c)"
proof (induction P "is" "(g, n)" arbitrary: g n rule: delete_where.induct)
  case (2 P k "is" g n)
  show ?case
  proof (cases "channel_at g k")
    case None
    then show ?thesis using 2 by (auto split: option.splits)
  next
    case (Some c)
    then have k: "k = channelId c" using 2(4) graph_okD(4) by blast
    show ?thesis
    proof (cases "P k c")
      case True
      with Some 2(2) [OF Some True DeleteChannel_ok [OF 2(4) Some]] show ?thesis
        by (simp add: k split: option.splits)
    next
      case False
      with Some 2(3) [OF Some False 2(4)] show ?thesis by (auto split: option.splits)
    qed
  qed
qed (simp split: option.splits)

lemma in_keys_iff: "i \<in> set (map fst al) \<longleftrightarrow> map_of al i \<noteq> None"
  by (simp add: map_of_eq_None_iff)

lemma delete_where_all:
  assumes "graph_ok ends g"
  shows "channel_at (fst (delete_where P (map fst (Channels g)) (g, n))) i =
       (case channel_at g i of None \<Rightarrow> None | Some c \<Rightarrow> if P i c then None else Some c)"
proof (cases "channel_at g i")
  case (Some c)
  then have "i \<in> set (map fst (Channels g))" unfolding in_keys_iff by simp
  with Some show ?thesis by (simp only: delete_where_frame [OF assms] option.case simp_thms)
qed (simp only: delete_where_frame [OF assms] option.case)

text \<open>What a refresh leaves of a channel it knew: the belief stays, the policy only gets newer.\<close>

definition kept_belief :: "Channel \<Rightarrow> Channel \<Rightarrow> bool" where
  "kept_belief old new \<longleftrightarrow> Liquidity new = Liquidity old \<and> Timestamp new = Timestamp old \<and>
     Upper new = Upper old \<and> LastUpdate old \<le> LastUpdate new"

lemma kept_belief_refl [simp]: "kept_belief c c" and
  kept_belief_trans: "kept_belief a b \<Longrightarrow> kept_belief b c \<Longrightarrow> kept_belief a c"
  by (auto simp: kept_belief_def)

lemma refreshChannel_frame:
  "i \<noteq> gl_id c \<Longrightarrow> channel_at (refreshChannel g c) i = channel_at g i"
  by (auto simp: refreshChannel_def Let_def split_beta split: option.splits)

lemma refreshChannel_known:
  "channel_at g i = Some old \<Longrightarrow>
     \<exists>new. channel_at (refreshChannel g c) i = Some new \<and> kept_belief old new"
proof (cases "i = gl_id c")
  case True
  then show "channel_at g i = Some old \<Longrightarrow> ?thesis"
    by (auto simp: refreshChannel_def Let_def kept_belief_def)
qed (simp add: refreshChannel_frame)

lemma refreshChannels_known:
  "channel_at g i = Some old \<Longrightarrow>
     \<exists>new. channel_at (refreshChannels g cs) i = Some new \<and> kept_belief old new"
  unfolding refreshChannels_def
proof (induction cs arbitrary: g old)
  case (Cons c cs)
  obtain mid where mid: "channel_at (refreshChannel g c) i = Some mid" "kept_belief old mid"
    using refreshChannel_known [OF Cons.prems] by blast
  then show ?case using Cons.IH [OF mid(1)] kept_belief_trans by auto
qed simp

lemma refreshChannel_listed: "channel_at (refreshChannel g c) (gl_id c) \<noteq> None"
  by (auto simp: refreshChannel_def Let_def split_beta split: option.splits)

lemma refreshChannels_listed:
  "c \<in> set cs \<Longrightarrow> channel_at (refreshChannels g cs) (gl_id c) \<noteq> None"
  unfolding refreshChannels_def
proof (induction cs arbitrary: g)
  case (Cons d cs)
  show ?case
  proof (cases "c = d")
    case True
    obtain x where "channel_at (refreshChannel g c) (gl_id c) = Some x"
      using refreshChannel_listed by blast
    from refreshChannels_known [OF this, of cs] show ?thesis
      using True by (auto simp: refreshChannels_def)
  qed (use Cons in auto)
qed simp

text \<open>A sync that is not refused: a channel is there afterwards exactly if it was refreshed or known
  and it is listed, kept, or newer than the listing.\<close>

definition sync_refused :: "Graph \<Rightarrow> GlChannel list \<Rightarrow> channel_id set \<Rightarrow> bool" where
  "sync_refused g cs keep \<longleftrightarrow> length cs < length (filter (\<lambda>(i, c). i \<notin> keep) (Channels g)) div 2"

lemma SyncChannels_refused:
  "sync_refused g cs keep \<Longrightarrow> SyncChannels g cs keep asOf = (refreshChannels g cs, -1)"
  by (simp add: SyncChannels_def sync_refused_def Let_def)

lemma SyncChannels_done:
  assumes "\<not> sync_refused g cs keep" "graph_ok ends g" "\<forall>c \<in> set cs. fits_ends ends c"
  shows "channel_at (fst (SyncChannels g cs keep asOf)) i =
    (case channel_at (refreshChannels g cs) i of None \<Rightarrow> None
     | Some c \<Rightarrow> if (\<exists>l \<in> set cs. gl_id l = i) \<or> i \<in> keep \<or> LastUpdate c \<ge> asOf then Some c else None)"
  using assms(1) delete_where_all [OF refreshChannels_ok [OF assms(2,3)], of _ 0 i]
  by (auto simp: SyncChannels_def sync_refused_def Let_def split_beta split: option.splits)

lemma SyncChannels_ok [graph_keep]:
  "graph_ok ends g \<Longrightarrow> \<forall>c \<in> set cs. fits_ends ends c \<Longrightarrow>
     graph_ok ends (fst (SyncChannels g cs keep asOf))"
  by (simp add: SyncChannels_def Let_def split_beta delete_where_ok refreshChannels_ok)

lemma graph_ok_cong:
  "Channels g' = Channels g \<Longrightarrow> Inbound g' = Inbound g \<Longrightarrow> graph_ok ends g' = graph_ok ends g"
  by (simp add: graph_ok_def edge_of_def inbound_of_def)

lemma PruneChannels_ok [graph_keep]: "graph_ok ends g \<Longrightarrow> graph_ok ends (PruneChannels g now)"
proof -
  have "graph_ok ends (h\<lparr>InboundFees := f\<rparr>) = graph_ok ends h" for h f
    by (rule graph_ok_cong) simp_all
  then show "graph_ok ends g \<Longrightarrow> ?thesis"
    by (simp add: PruneChannels_def pruneInboundFees_def Let_def delete_where_ok)
qed

lemma ApplyChannelUpdate_ok [graph_keep]:
  assumes ok: "graph_ok ends g"
  shows "graph_ok ends (fst (ApplyChannelUpdate g u))"
proof (cases "channel_at g (ChannelId u)")
  case (Some old)
  have same: "gl_id (updated_policy (policy_of old) u) = channelId old"
    "fits_ends ends (updated_policy (policy_of old) u) = fits_ends ends old"
    by (simp_all add: updated_policy_def policy_of_def Let_def gl_id_def channelId_def
        fits_ends_def GlChannel.defs)
  show ?thesis
    using Some graph_okD(4,5) [OF ok Some]
    by (auto simp: ApplyChannelUpdate_def Let_def same ok intro!: graph_ok_Unavoid graph_ok_replace [OF ok])
qed (simp add: ApplyChannelUpdate_def ok)

section \<open>The inbound fee is exact\<close>

lemma sdiv_eq_div: "0 \<le> a \<Longrightarrow> 0 < b \<Longrightarrow> (a :: int) sdiv b = a div b"
  by (simp add: signed_divide_int_def sgn_if)

lemma sdiv_split:
  fixes m r k n :: int
  assumes "0 < n" "0 \<le> m" "0 \<le> r"
  shows "m * k + (r * k) sdiv n = ((n * m + r) * k) sdiv n"
proof -
  have pos: "m * j + (r * j) sdiv n = ((n * m + r) * j) sdiv n" if "0 \<le> j" for j
  proof -
    have "(n * m + r) * j = r * j + (m * j) * n" by (simp add: algebra_simps)
    with that assms show ?thesis by (simp add: sdiv_eq_div)
  qed
  show ?thesis
  proof (cases "0 \<le> k")
    case False
    then show ?thesis using pos [of "- k"] by simp
  qed (rule pos)
qed

lemma abs_sdiv_le:
  assumes "0 < n"
  shows "\<bar>(a :: int) sdiv n\<bar> \<le> \<bar>a\<bar>"
proof -
  have "\<bar>a sdiv n\<bar> = \<bar>a\<bar> div n"
    using assms pos_imp_zdiv_nonneg_iff [OF assms, of "- a"]
    by (cases "a < 0") (auto simp: signed_divide_int_def sgn_if abs_if pos_imp_zdiv_neg_iff)
  also have "\<dots> \<le> \<bar>a\<bar> div 1" using assms by (intro zdiv_mono2) simp_all
  finally show ?thesis by simp
qed

lemma capped_rate_bound: "\<bar>capped_rate fee\<bar> \<le> 10000000"
  by (simp add: capped_rate_def maxInboundFeeRate_def abs_le_iff)

lemma sint_u32_bound: "- 2147483648 \<le> sint (x :: u32) \<and> sint (x :: u32) < 2147483648"
  using sint_greater_eq [of x] sint_lt [of x] by simp

lemma sint_small_u64: "uint (x :: u64) < 2 ^ 63 \<Longrightarrow> sint x = uint x"
  unfolding sint_uint by (rule signed_take_bit_int_eq_self) (use order_trans [OF _ uint_ge_0 [of x]] in auto)

text \<open>The amount from which the code saturates, in millions of msat.\<close>

abbreviation max_millions :: int where "max_millions \<equiv> MaxInt64 div 2 div maxInboundFeeRate"

lemma inboundFee_exact_aux:
  assumes fee: "map_of (InboundFees g) i = Some fee"
    and small: "capped_rate fee = 0 \<or> uint amount div 1000000 \<le> max_millions"
  shows "inboundFee g i amount = sint (BaseFee fee) + (uint amount * capped_rate fee) sdiv 1000000
    \<and> is_i64 (inboundFee g i amount)"
proof -
  let ?m = "uint amount div 1000000" and ?r = "uint amount mod 1000000" and ?k = "capped_rate fee"
  have m: "uint (amount div 1000000) = ?m" and r: "uint (amount mod 1000000) = ?r"
    by (simp_all add: uint_div uint_mod)
  have bounds: "0 \<le> ?m" "?m < 2 ^ 63" "0 \<le> ?r" "?r < 1000000"
    using uint_lt2p [of amount] by (auto intro: pos_imp_zdiv_nonneg_iff [THEN iffD2])
  have sm: "sint (amount div 1000000) = ?m" "sint (amount mod 1000000) = ?r"
    using bounds by (simp_all add: sint_small_u64 m r)
  have k: "\<bar>?k\<bar> \<le> 10000000" by (rule capped_rate_bound)
  have b: "\<bar>sint (BaseFee fee)\<bar> \<le> 2147483648" using sint_u32_bound [of "BaseFee fee"] by (simp add: abs_le_iff)
  have rk: "\<bar>?r * ?k\<bar> \<le> 1000000 * 10000000"
    unfolding abs_mult using bounds k by (intro mult_mono) simp_all
  have mk: "\<bar>?m * ?k\<bar> \<le> 461168601842 * 10000000"
  proof (cases "?k = 0")
    case False
    with small have "?m \<le> 461168601842" by (simp add: maxInboundFeeRate_def)
    then show ?thesis unfolding abs_mult using bounds k by (intro mult_mono) simp_all
  qed simp
  have rs: "\<bar>(?r * ?k) sdiv 1000000\<bar> \<le> 1000000 * 10000000"
    using abs_sdiv_le [of 1000000 "?r * ?k"] rk by simp
  have not_sat: "\<not> (?k \<noteq> 0 \<and> amount div 1000000 > word_of_int max_millions)"
  proof -
    have "uint (word_of_int max_millions :: u64) = max_millions"
      by (simp add: maxInboundFeeRate_def)
    with small show ?thesis unfolding word_less_def m by auto
  qed
  have wrap: "i64 (?m * ?k) = ?m * ?k" "i64 (?r * ?k) = ?r * ?k"
    "i64 (sint (BaseFee fee) + ?m * ?k) = sint (BaseFee fee) + ?m * ?k"
    "i64 (sint (BaseFee fee) + ?m * ?k + (?r * ?k) sdiv 1000000)
       = sint (BaseFee fee) + ?m * ?k + (?r * ?k) sdiv 1000000"
    using b mk rk rs by (auto intro!: i64_exact)
  have "inboundFee g i amount = sint (BaseFee fee) + ?m * ?k + (?r * ?k) sdiv 1000000"
    using not_sat by (simp only: inboundFee_def fee option.case Let_def sm wrap if_False)
  moreover have "?m * ?k + (?r * ?k) sdiv 1000000 = (uint amount * ?k) sdiv 1000000"
    using sdiv_split [of 1000000 ?m ?r ?k] bounds by simp
  moreover have "is_i64 (sint (BaseFee fee) + ?m * ?k + (?r * ?k) sdiv 1000000)"
    using b mk rs by auto
  ultimately show ?thesis by (simp add: add.assoc)
qed

lemma is_i64_inboundFee: "is_i64 (inboundFee g i amount)"
  using is_i64_i64 by (simp add: inboundFee_def Let_def split: option.splits)

end
