(* ===== verification/GraphBeliefs.thy ===== *)
theory GraphBeliefs
  imports GraphState
begin

text \<open>
  What the graph learns from payments: the liquidity beliefs (\<^verbatim>\<open>graph/graph.go\<close>,
  \<^verbatim>\<open>graph/beliefs.go\<close>), how they fade, and the failure scores of nodes (\<^verbatim>\<open>graph/nodes.go\<close>).  The
  time is an argument of every operation that reads the clock; \<^verbatim>\<open>math.Pow\<close> is the parameter
  \<open>mpow\<close>.

  The lemmas: each operation's effect; every operation keeps \<open>graph_ok\<close>; and the abstract
  specification of the beliefs, a world of real balances that payments move: a bound in the graph
  (\<^const>\<open>Upper\<close>) is never below the real balance, whatever order payments, failures, refreshes,
  gossip and decay come in.
\<close>

section \<open>Learning from payments\<close>

definition update_channel :: "Graph \<Rightarrow> channel_id \<Rightarrow> (Channel \<Rightarrow> Channel) \<Rightarrow> Graph" where
  "update_channel g i f = (case channel_at g i of None \<Rightarrow> g | Some c \<Rightarrow> put_channel g i (f c))"

text \<open>Each operation changes the direction named and the opposite one.\<close>

definition learn_both :: "Graph \<Rightarrow> channel_id \<Rightarrow> (Channel \<Rightarrow> Channel) \<Rightarrow> (Channel \<Rightarrow> Channel) \<Rightarrow> Graph" where
  "learn_both g i f f' = update_channel (update_channel g i f) (OppositeChannelId i) f'"

definition at_most :: "int \<Rightarrow> u64 \<Rightarrow> Channel \<Rightarrow> Channel" where
  "at_most now amount c =
     (if Liquidity c \<ge> amount then c\<lparr>Liquidity := amount - 1, Upper := True\<rparr> else c)\<lparr>Timestamp := now\<rparr>"

definition at_least_rest :: "int \<Rightarrow> u64 \<Rightarrow> Channel \<Rightarrow> Channel" where
  "at_least_rest now amount c =
     (let capacity = AmountMsat c in
      (if capacity > amount \<and> Liquidity c < capacity - amount
       then c\<lparr>Liquidity := capacity - amount, Upper := False\<rparr> else c)\<lparr>Timestamp := now\<rparr>)"

definition LearnUpperBound :: "int \<Rightarrow> Graph \<Rightarrow> channel_id \<Rightarrow> u64 \<Rightarrow> Graph" where
  "LearnUpperBound now g i amount =
     (if amount = 0 then g else learn_both g i (at_most now amount) (at_least_rest now amount))"

definition at_least :: "int \<Rightarrow> u64 \<Rightarrow> Channel \<Rightarrow> Channel" where
  "at_least now amount c =
     (if Liquidity c < amount then c\<lparr>Liquidity := amount, Upper := False\<rparr> else c)\<lparr>Timestamp := now\<rparr>"

definition at_most_rest :: "int \<Rightarrow> u64 \<Rightarrow> Channel \<Rightarrow> Channel" where
  "at_most_rest now amount c =
     (let capacity = AmountMsat c;
          rest = (if capacity > amount then capacity - amount else 0) in
      (if Liquidity c > rest then c\<lparr>Liquidity := rest, Upper := True\<rparr> else c)\<lparr>Timestamp := now\<rparr>)"

definition LearnLowerBound :: "int \<Rightarrow> Graph \<Rightarrow> channel_id \<Rightarrow> u64 \<Rightarrow> Graph" where
  "LearnLowerBound now g i amount = learn_both g i (at_least now amount) (at_most_rest now amount)"

definition paid_out :: "int \<Rightarrow> u64 \<Rightarrow> Channel \<Rightarrow> Channel" where
  "paid_out now amount c =
     (let c = (if Liquidity c < amount then c\<lparr>Liquidity := amount, Upper := False\<rparr> else c);
          c = c\<lparr>Liquidity := Liquidity c - amount\<rparr>;
          c = (if Liquidity c = 0 then c\<lparr>Liquidity := 1\<rparr> else c) in
      c\<lparr>Timestamp := now\<rparr>)"

definition paid_in :: "int \<Rightarrow> u64 \<Rightarrow> Channel \<Rightarrow> Channel" where
  "paid_in now amount c =
     (let capacity = AmountMsat c;
          c = c\<lparr>Liquidity := addSaturating (Liquidity c) amount\<rparr>;
          c = (if Liquidity c > capacity then c\<lparr>Liquidity := capacity\<rparr> else c) in
      c\<lparr>Timestamp := now\<rparr>)"

definition LearnPayment :: "int \<Rightarrow> Graph \<Rightarrow> channel_id \<Rightarrow> u64 \<Rightarrow> Graph" where
  "LearnPayment now g i amount = learn_both g i (paid_out now amount) (paid_in now amount)"

definition MarkUnusable :: "int \<Rightarrow> Graph \<Rightarrow> channel_id \<Rightarrow> Graph" where
  "MarkUnusable now g i =
     update_channel g i (\<lambda>c. c\<lparr>Liquidity := 0, Upper := False, Timestamp := now\<rparr>)"

section \<open>Durations\<close>

text \<open>A \<^verbatim>\<open>time.Duration\<close> is an integer of nanoseconds; \<^verbatim>\<open>Seconds\<close> is a float.\<close>

definition Seconds :: "int \<Rightarrow> rat" where
  "Seconds d = fadd (f64 (of_int (d sdiv 1000000000))) (fdiv (f64 (of_int (d smod 1000000000))) 1000000000)"

definition int_of_float :: "rat \<Rightarrow> int" where
  "int_of_float x = (if x < 0 then \<lceil>x\<rceil> else \<lfloor>x\<rfloor>)"

definition RefreshLiquidity :: "int \<Rightarrow> Graph \<Rightarrow> int \<Rightarrow> Graph \<times> nat" where
  "RefreshLiquidity now g refreshThreshold =
     (let stale = (\<lambda>c. i64 (Timestamp c + int_of_float (Seconds refreshThreshold)) < now) in
      (g\<lparr>Channels := map_vals (\<lambda>i c. if stale c then ResetLiquidity now c else c) (Channels g)\<rparr>,
       length (filter (\<lambda>(i, c). stale c) (Channels g))))"

section \<open>Saving and restoring beliefs\<close>

record Belief =
  b_Liquidity :: u64
  b_Timestamp :: int
  b_Upper :: bool

definition Beliefs :: "Graph \<Rightarrow> (channel_id \<times> Belief) list" where
  "Beliefs g =
     map (\<lambda>(i, c). (i, \<lparr>b_Liquidity = Liquidity c, b_Timestamp = Timestamp c, b_Upper = Upper c\<rparr>))
       (filter (\<lambda>(i, c). learned c) (Channels g))"

definition fits_belief :: "int \<Rightarrow> Belief \<Rightarrow> Channel \<Rightarrow> bool" where
  "fits_belief since b c =
     (\<not> (b_Timestamp b < since \<or> b_Timestamp b \<le> Timestamp c \<or> b_Liquidity b > AmountMsat c))"

definition ApplyBelief :: "int \<Rightarrow> Graph \<times> nat \<Rightarrow> channel_id \<times> Belief \<Rightarrow> Graph \<times> nat" where
  "ApplyBelief since = (\<lambda>(g, applied) (i, b).
     case channel_at g i of
       None \<Rightarrow> (g, applied)
     | Some c \<Rightarrow>
         if fits_belief since b c
         then (put_channel g i (c\<lparr>Liquidity := b_Liquidity b, Timestamp := b_Timestamp b,
                 Upper := b_Upper b\<rparr>), applied + 1)
         else (g, applied))"

definition ApplyBeliefs :: "Graph \<Rightarrow> (channel_id \<times> Belief) list \<Rightarrow> int \<Rightarrow> Graph \<times> nat" where
  "ApplyBeliefs g beliefs since = foldl (ApplyBelief since) (g, 0) beliefs"

section \<open>Fading\<close>

text \<open>The body of the loop of \<^verbatim>\<open>DecayLiquidity\<close> for one channel; \<^const>\<open>None\<close> is its \<^verbatim>\<open>continue\<close>.\<close>

definition decay_channel :: "(rat \<Rightarrow> rat \<Rightarrow> rat) \<Rightarrow> int \<Rightarrow> int \<Rightarrow> int \<Rightarrow> Channel \<Rightarrow> Channel option" where
  "decay_channel mpow halfLife now decayed c =
     (if Timestamp c = 0 then None
      else
        let from = (if decayed > Timestamp c then decayed else Timestamp c);
            elapsed = i64 (now - from);
            def = AmountMsat c div 2 in
        if elapsed \<le> 0 \<or> (Liquidity c = def \<and> \<not> Upper c) \<or> Liquidity c = 0 then None
        else
          let keep = mpow (1 / 2) (fdiv (f64 (of_int elapsed)) (Seconds halfLife)) in
          Some (if Upper c then
              let capacity = AmountMsat c;
                  c1 = (if Liquidity c < capacity
                        then c\<lparr>Liquidity := capacity - u64_of_float (fmul (float_of_u64 (capacity - Liquidity c)) keep)\<rparr>
                        else c) in
              if Liquidity c1 \<ge> capacity \<or> capacity - Liquidity c1 \<le> capacity div 1024
              then c1\<lparr>Liquidity := def, Upper := False\<rparr> else c1
            else if Liquidity c > def
            then c\<lparr>Liquidity := def + u64_of_float (fmul (float_of_u64 (Liquidity c - def)) keep)\<rparr>
            else c\<lparr>Liquidity := def - u64_of_float (fmul (float_of_u64 (def - Liquidity c)) keep)\<rparr>))"

definition DecayLiquidity :: "(rat \<Rightarrow> rat \<Rightarrow> rat) \<Rightarrow> int \<Rightarrow> Graph \<Rightarrow> int \<Rightarrow> Graph \<times> nat" where
  "DecayLiquidity mpow now g halfLife =
     (if halfLife \<le> 0 then (g, 0)
      else
        let decay = decay_channel mpow halfLife now (lastDecay g) in
        (g\<lparr>lastDecay := now,
           Channels := map_vals (\<lambda>i c. case decay c of None \<Rightarrow> c | Some c' \<Rightarrow> c') (Channels g)\<rparr>,
         length (filter (\<lambda>(i, c). decay c \<noteq> None) (Channels g))))"

section \<open>The scores of failing nodes\<close>

definition NODE_SCORE_SCALE :: rat where "NODE_SCORE_SCALE = 50"
definition NODE_SCORE_MAX :: rat where "NODE_SCORE_MAX = 250"
definition NODE_SCORE_FORGET :: rat where "NODE_SCORE_FORGET = 1 / 2"

definition SetNodeMemory :: "Graph \<Rightarrow> int \<Rightarrow> Graph" where
  "SetNodeMemory g halfLife =
     (let g1 = g\<lparr>nodeHalfLife := halfLife\<rparr> in
      if halfLife \<le> 0 then g1\<lparr>nodeScores := []\<rparr> else g1)"

definition fadedLocked :: "(rat \<Rightarrow> rat \<Rightarrow> rat) \<Rightarrow> Graph \<Rightarrow> NodeScore \<Rightarrow> int \<Rightarrow> rat" where
  "fadedLocked mpow g s now =
     (if nodeHalfLife g \<le> 0 then 0
      else
        let age = fdiv (f64 (of_int (i64 (now - At s)))) (Seconds (nodeHalfLife g)) in
        if age \<le> 0 then Score s else fmul (Score s) (mpow (1 / 2) age))"

text \<open>A node without a score reads as the zero value.\<close>

definition changeNode :: "(rat \<Rightarrow> rat \<Rightarrow> rat) \<Rightarrow> int \<Rightarrow> Graph \<Rightarrow> node_id \<Rightarrow> (rat \<Rightarrow> rat) \<Rightarrow> Graph" where
  "changeNode mpow now g n change =
     (if nodeHalfLife g \<le> 0 then g
      else
        let s = (case map_of (nodeScores g) n of None \<Rightarrow> \<lparr>Score = 0, At = 0\<rparr> | Some s \<Rightarrow> s);
            score = change (fadedLocked mpow g s now) in
        if score < NODE_SCORE_FORGET then g\<lparr>nodeScores := AList.delete n (nodeScores g)\<rparr>
        else g\<lparr>nodeScores := AList.update n \<lparr>Score = score, At = now\<rparr> (nodeScores g)\<rparr>)"

definition NodeFailed :: "(rat \<Rightarrow> rat \<Rightarrow> rat) \<Rightarrow> int \<Rightarrow> Graph \<Rightarrow> node_id \<Rightarrow> Graph" where
  "NodeFailed mpow now g n = changeNode mpow now g n (\<lambda>score. fadd score 1)"

definition NodeForwarded :: "(rat \<Rightarrow> rat \<Rightarrow> rat) \<Rightarrow> int \<Rightarrow> Graph \<Rightarrow> node_id \<Rightarrow> Graph" where
  "NodeForwarded mpow now g n = changeNode mpow now g n (\<lambda>score. fdiv score 2)"

definition NodeScoresNow :: "(rat \<Rightarrow> rat \<Rightarrow> rat) \<Rightarrow> int \<Rightarrow> Graph \<Rightarrow> (node_id \<times> NodeScore) list" where
  "NodeScoresNow mpow now g =
     map (\<lambda>(n, s). (n, \<lparr>Score = fadedLocked mpow g s now, At = now\<rparr>))
       (filter (\<lambda>(n, s). fadedLocked mpow g s now \<ge> NODE_SCORE_FORGET) (nodeScores g))"

definition NodeScores :: "(rat \<Rightarrow> rat \<Rightarrow> rat) \<Rightarrow> int \<Rightarrow> Graph \<Rightarrow> Graph \<times> (node_id \<times> NodeScore) list" where
  "NodeScores mpow now g =
     (let live = filter (\<lambda>(n, s). \<not> fadedLocked mpow g s now < NODE_SCORE_FORGET) (nodeScores g) in
      (g\<lparr>nodeScores := live\<rparr>,
       map (\<lambda>(n, s). (n, \<lparr>Score = fadedLocked mpow g s now, At = now\<rparr>)) live))"

definition ApplyNodeScore :: "Graph \<times> nat \<Rightarrow> node_id \<times> NodeScore \<Rightarrow> Graph \<times> nat" where
  "ApplyNodeScore = (\<lambda>(g, applied) (n, s).
     if (case map_of (nodeScores g) n of None \<Rightarrow> False | Some old \<Rightarrow> At old \<ge> At s) then (g, applied)
     else (g\<lparr>nodeScores := AList.update n s (nodeScores g)\<rparr>, applied + 1))"

definition ApplyNodeScores :: "Graph \<Rightarrow> (node_id \<times> NodeScore) list \<Rightarrow> Graph \<times> nat" where
  "ApplyNodeScores g scores =
     (if nodeHalfLife g \<le> 0 then (g, 0) else foldl ApplyNodeScore (g, 0) scores)"

text \<open>The penalty of each scored node; a node that is not in the list has none.\<close>

definition nodePenalties :: "(rat \<Rightarrow> rat \<Rightarrow> rat) \<Rightarrow> int \<Rightarrow> Graph \<Rightarrow> (node_id \<times> rat) list" where
  "nodePenalties mpow now g =
     map_vals (\<lambda>n s.
        let score = fadedLocked mpow g s now;
            score = (if score > NODE_SCORE_MAX then NODE_SCORE_MAX else score) in
        fdiv score NODE_SCORE_SCALE) (nodeScores g)"

text \<open>\<^verbatim>\<open>math.Round\<close> rounds halves away from zero.\<close>

definition float_round :: "rat \<Rightarrow> int" where
  "float_round x = (if x < 0 then - \<lfloor>- x + 1 / 2\<rfloor> else \<lfloor>x + 1 / 2\<rfloor>)"

definition NodePenaltyPPM :: "rat \<Rightarrow> u64 \<Rightarrow> u64" where
  "NodePenaltyPPM score riskPPM =
     u64_of_float (of_int (float_round
       (fmul (fdiv (min score NODE_SCORE_MAX) NODE_SCORE_SCALE) (float_of_u64 riskPPM))))"

section \<open>What the operations leave of the graph\<close>

lemma channel_at_update_channel:
  "channel_at (update_channel g i f) j = (if j = i then map_option f (channel_at g i) else channel_at g j)"
  by (simp add: update_channel_def split: option.split)

lemma fits_ends_belief [simp]:
  "fits_ends ends (c\<lparr>Liquidity := l\<rparr>) = fits_ends ends c" "channelId (c\<lparr>Liquidity := l\<rparr>) = channelId c"
  "fits_ends ends (c\<lparr>Timestamp := t\<rparr>) = fits_ends ends c" "channelId (c\<lparr>Timestamp := t\<rparr>) = channelId c"
  by (simp_all add: fits_ends_def channelId_def)

lemma update_channel_ok [graph_keep]:
  assumes "graph_ok ends g" "\<And>c. channelId (f c) = channelId c" "\<And>c. fits_ends ends c \<Longrightarrow> fits_ends ends (f c)"
  shows "graph_ok ends (update_channel g i f)"
proof (cases "channel_at g i")
  case (Some c)
  then show ?thesis
    using graph_ok_replace [OF assms(1) Some] graph_okD(4,5) [OF assms(1) Some] assms(2,3)
    by (simp add: update_channel_def)
qed (simp add: update_channel_def assms(1))

lemmas side_defs = at_most_def at_least_rest_def at_least_def at_most_rest_def paid_out_def paid_in_def

lemma side_same [simp]:
  "AmountMsat (at_most now a c) = AmountMsat c" "AmountMsat (at_least_rest now a c) = AmountMsat c"
  "AmountMsat (at_least now a c) = AmountMsat c" "AmountMsat (at_most_rest now a c) = AmountMsat c"
  "AmountMsat (paid_out now a c) = AmountMsat c" "AmountMsat (paid_in now a c) = AmountMsat c"
  by (simp_all add: side_defs Let_def)

lemma learn_ok [graph_keep]:
  assumes "graph_ok ends g"
  shows "graph_ok ends (LearnUpperBound now g i a)" "graph_ok ends (LearnLowerBound now g i a)"
    "graph_ok ends (LearnPayment now g i a)" "graph_ok ends (MarkUnusable now g i)"
  using assms
  by (auto simp: LearnUpperBound_def LearnLowerBound_def LearnPayment_def MarkUnusable_def
      learn_both_def side_defs Let_def intro!: update_channel_ok)

lemma map_channels_ok:
  assumes ok: "graph_ok ends g"
    and same: "\<And>i c. Source (f i c) = Source c \<and> Destination (f i c) = Destination c
                 \<and> ShortChannelId (f i c) = ShortChannelId c"
  shows "graph_ok ends (g\<lparr>Channels := map_vals f (Channels g)\<rparr>)" (is "graph_ok ends ?g")
proof (rule graph_okI)
  have at: "channel_at ?g i = map_option (f i) (channel_at g i)" for i by simp
  have frame: "inbound_of ?g d = inbound_of g d" "edge_of ?g d s = edge_of g d s" for d s
    by (simp_all add: inbound_of_def edge_of_def)
  show "keys_distinct (Channels ?g)" using graph_okD(1) [OF ok] by simp
  show "keys_distinct (inbound_of ?g d)" for d using graph_okD(2) [OF ok] frame by simp
  show "distinct (edge_of ?g d s)" for d s using graph_okD(3) [OF ok] frame by simp
  show "i = channelId c \<and> fits_ends ends c" if c: "channel_at ?g i = Some c" for i c
  proof -
    obtain c0 where c0: "channel_at g i = Some c0" "c = f i c0" using c at [of i] by auto
    with graph_okD(4,5) [OF ok c0(1)] same [of i c0] show ?thesis
      by (simp add: channelId_def fits_ends_def)
  qed
  show "x \<in> set (edge_of ?g d s) \<longleftrightarrow>
        (\<exists>c. channel_at ?g (dir_id x s d) = Some c \<and> Source c = s \<and> Destination c = d)" for d s x
  proof -
    have same': "Source (f i c) = Source c" "Destination (f i c) = Destination c" for i c
      using same by simp_all
    show ?thesis unfolding frame at graph_okD(6) [OF ok, of x d s] by (cases "channel_at g (dir_id x s d)") (simp_all add: same')
  qed
qed

lemma graph_ok_field [simp]:
  "graph_ok ends (g\<lparr>feeMedians := m\<rparr>) = graph_ok ends g" "graph_ok ends (g\<lparr>lastDecay := t\<rparr>) = graph_ok ends g"
  "graph_ok ends (g\<lparr>nodeScores := s\<rparr>) = graph_ok ends g" "graph_ok ends (g\<lparr>avoid := a\<rparr>) = graph_ok ends g"
  "graph_ok ends (g\<lparr>InboundFees := f\<rparr>) = graph_ok ends g" "graph_ok ends (g\<lparr>Aliases := n\<rparr>) = graph_ok ends g"
  "graph_ok ends (g\<lparr>nodeHalfLife := h\<rparr>) = graph_ok ends g"
  by (rule graph_ok_cong, simp, simp)+

lemma MarkDearChannels_ok [graph_keep]:
  "graph_ok ends g \<Longrightarrow> graph_ok ends (fst (MarkDearChannels g))"
  unfolding MarkDearChannels_def Let_def fst_conv by (rule map_channels_ok) simp_all

lemma RefreshLiquidity_ok [graph_keep]:
  "graph_ok ends g \<Longrightarrow> graph_ok ends (fst (RefreshLiquidity now g t))"
  unfolding RefreshLiquidity_def Let_def fst_conv
  by (rule map_channels_ok) (simp_all add: ResetLiquidity_def)

lemma decay_channel_same:
  "decay_channel mpow h now t c = Some c' \<Longrightarrow>
     Source c' = Source c \<and> Destination c' = Destination c \<and> ShortChannelId c' = ShortChannelId c
     \<and> AmountMsat c' = AmountMsat c"
  by (auto simp: decay_channel_def Let_def split: if_splits)

lemma DecayLiquidity_ok [graph_keep]:
  assumes "graph_ok ends g"
  shows "graph_ok ends (fst (DecayLiquidity mpow now g h))"
proof -
  let ?f = "\<lambda>i c. case decay_channel mpow h now (lastDecay g) c of None \<Rightarrow> c | Some c' \<Rightarrow> c'"
  have "graph_ok ends ((g\<lparr>lastDecay := now\<rparr>)\<lparr>Channels := map_vals ?f (Channels (g\<lparr>lastDecay := now\<rparr>))\<rparr>)"
    by (rule map_channels_ok) (auto simp: assms dest: decay_channel_same split: option.split)
  with assms show ?thesis by (simp add: DecayLiquidity_def Let_def)
qed

lemma ApplyBelief_ok:
  "graph_ok ends (fst st) \<Longrightarrow> graph_ok ends (fst (ApplyBelief since st ib))"
proof -
  assume ok: "graph_ok ends (fst st)"
  show ?thesis
    using graph_okD(4,5) [OF ok] 
    by (auto simp: ApplyBelief_def split_beta ok split: option.split intro!: graph_ok_replace [OF ok])
qed

lemma ApplyBeliefs_ok [graph_keep]:
  "graph_ok ends g \<Longrightarrow> graph_ok ends (fst (ApplyBeliefs g bs since))"
proof -
  have "graph_ok ends (fst st) \<Longrightarrow> graph_ok ends (fst (foldl (ApplyBelief since) st bs))" for st
  proof (induction bs arbitrary: st)
    case (Cons b bs)
    show ?case using Cons.IH [OF ApplyBelief_ok [OF Cons.prems]] by simp
  qed simp
  from this [of "(g, 0)"] show "graph_ok ends g \<Longrightarrow> ?thesis" by (simp add: ApplyBeliefs_def)
qed

section \<open>The bounds are never wrong\<close>

text \<open>
  The abstract specification.  \<open>bal i\<close> is the real balance on the sending side of direction \<open>i\<close>:
  what nobody but its two nodes knows.  The two directions of a channel share its capacity.  A
  bound in the graph is right when the real balance is at most what it says.
\<close>

type_synonym balances = "channel_id \<Rightarrow> nat"

definition bounds_true :: "balances \<Rightarrow> Graph \<Rightarrow> bool" where
  "bounds_true bal g \<longleftrightarrow> (\<forall>i c. channel_at g i = Some c \<and> Upper c \<longrightarrow> bal i \<le> unat (Liquidity c))"

definition shares_capacity :: "balances \<Rightarrow> channel_id \<Rightarrow> u64 \<Rightarrow> bool" where
  "shares_capacity bal i capacity \<longleftrightarrow> bal i + bal (OppositeChannelId i) \<le> unat capacity"

definition capacity_true :: "balances \<Rightarrow> Graph \<Rightarrow> bool" where
  "capacity_true bal g \<longleftrightarrow> (\<forall>i c. channel_at g i = Some c \<longrightarrow> shares_capacity bal i (AmountMsat c))"

definition is_dir_id :: "channel_id \<Rightarrow> bool" where
  "is_dir_id i \<longleftrightarrow> (\<exists>s. i = s @ ''/0'' \<or> i = s @ ''/1'')"

lemma OppositeChannelId_dir:
  "OppositeChannelId (s @ ''/0'') = s @ ''/1''" "OppositeChannelId (s @ ''/1'') = s @ ''/0''"
  by (simp_all add: OppositeChannelId_def Let_def nth_append)

lemma is_dir_id_opposite:
  assumes "is_dir_id i"
  shows "OppositeChannelId i \<noteq> i" "OppositeChannelId (OppositeChannelId i) = i"
    "is_dir_id (OppositeChannelId i)"
  using assms by (auto simp: is_dir_id_def OppositeChannelId_dir)

lemma is_dir_id_channel: "is_dir_id (channelId c)"
  by (auto simp: is_dir_id_def channelId_def dir_id_def GetDirection_def)

text \<open>A payment over \<open>i\<close> moves \<open>amount\<close> to the other side.\<close>

definition pay :: "balances \<Rightarrow> channel_id \<Rightarrow> nat \<Rightarrow> balances" where
  "pay bal i amount = bal(i := bal i - amount, OppositeChannelId i := bal (OppositeChannelId i) + amount)"

lemma channel_at_learn_both:
  assumes "is_dir_id i"
  shows "channel_at (learn_both g i f f') j =
    (if j = i then map_option f (channel_at g i)
     else if j = OppositeChannelId i then map_option f' (channel_at g (OppositeChannelId i))
     else channel_at g j)"
  using is_dir_id_opposite(1) [OF assms]
  by (simp add: learn_both_def channel_at_update_channel)

text \<open>To show the bounds right after an operation, look at the two directions it changed.\<close>

lemma bounds_true_learn_both:
  assumes i: "is_dir_id i" and old: "bounds_true bal g"
    and other: "\<And>j. j \<noteq> i \<Longrightarrow> j \<noteq> OppositeChannelId i \<Longrightarrow> bal' j = bal j"
    and own: "\<And>c. channel_at g i = Some c \<Longrightarrow> Upper c \<longrightarrow> bal i \<le> unat (Liquidity c) \<Longrightarrow>
                 Upper (f c) \<Longrightarrow> bal' i \<le> unat (Liquidity (f c))"
    and opp: "\<And>c. channel_at g (OppositeChannelId i) = Some c \<Longrightarrow>
                 Upper c \<longrightarrow> bal (OppositeChannelId i) \<le> unat (Liquidity c) \<Longrightarrow>
                 Upper (f' c) \<Longrightarrow> bal' (OppositeChannelId i) \<le> unat (Liquidity (f' c))"
  shows "bounds_true bal' (learn_both g i f f')"
  unfolding bounds_true_def
proof (intro allI impI, elim conjE)
  fix j c assume at: "channel_at (learn_both g i f f') j = Some c" and up: "Upper c"
  have b: "Upper c0 \<longrightarrow> bal k \<le> unat (Liquidity c0)" if "channel_at g k = Some c0" for k c0
    using old that by (simp add: bounds_true_def)
  consider "j = i" | "j \<noteq> i" "j = OppositeChannelId i" | "j \<noteq> i" "j \<noteq> OppositeChannelId i" by blast
  then show "bal' j \<le> unat (Liquidity c)"
  proof cases
    case 1
    then obtain c0 where "channel_at g i = Some c0" "c = f c0"
      using at by (auto simp: channel_at_learn_both [OF i])
    then show ?thesis using own b up 1 by blast
  next
    case 2
    then obtain c0 where "channel_at g (OppositeChannelId i) = Some c0" "c = f' c0"
      using at by (auto simp: channel_at_learn_both [OF i] split: if_splits)
    then show ?thesis using opp b up 2 by blast
  next
    case 3
    then show ?thesis using at b up other by (auto simp: channel_at_learn_both [OF i])
  qed
qed

lemma capacity_true_learn_both:
  assumes i: "is_dir_id i" and "capacity_true bal g"
    and "\<And>j cap. shares_capacity bal j cap \<Longrightarrow> is_dir_id j \<Longrightarrow> shares_capacity bal' j cap"
    and "\<And>j c. channel_at g j = Some c \<Longrightarrow> is_dir_id j"
    and "\<And>c. AmountMsat (f c) = AmountMsat c" "\<And>c. AmountMsat (f' c) = AmountMsat c"
  shows "capacity_true bal' (learn_both g i f f')"
  using assms(2-) by (fastforce simp: capacity_true_def channel_at_learn_both [OF i] split: if_splits)

lemma pay_shares:
  assumes i: "is_dir_id i" and "amount \<le> bal i" "shares_capacity bal j cap" "is_dir_id j"
  shows "shares_capacity (pay bal i amount) j cap"
proof (cases "j = i \<or> j = OppositeChannelId i")
  case True
  with assms is_dir_id_opposite [OF i] show ?thesis
    by (auto simp: shares_capacity_def pay_def)
next
  case False
  then have "OppositeChannelId j \<noteq> i" "OppositeChannelId j \<noteq> OppositeChannelId i"
    using is_dir_id_opposite(2) [OF i] is_dir_id_opposite(2) [OF assms(4)] by metis+
  with False assms show ?thesis by (simp add: shares_capacity_def pay_def)
qed

text \<open>Learning keeps the bounds right.\<close>

lemma bounds_true_failed:
  assumes "is_dir_id i" "bounds_true bal g" "bal i < unat amount"
  shows "bounds_true bal (LearnUpperBound now g i amount)"
proof -
  have "bounds_true bal (learn_both g i (at_most now amount) (at_least_rest now amount))"
  proof (rule bounds_true_learn_both [OF assms(1,2)])
    fix c assume "Upper c \<longrightarrow> bal i \<le> unat (Liquidity c)" "Upper (at_most now amount c)"
    moreover have "unat (amount - 1) = unat amount - 1"
      using assms(3) by (intro unat_minus_one) auto
    ultimately show "bal i \<le> unat (Liquidity (at_most now amount c))"
      using assms(3) by (auto simp: at_most_def split: if_splits)
  qed (auto simp: at_least_rest_def Let_def split: if_splits)
  then show ?thesis by (simp add: LearnUpperBound_def assms(2))
qed

lemma bounds_true_forwarded:
  assumes i: "is_dir_id i" and "bounds_true bal g" "unat amount \<le> bal i"
    and cap: "capacity_true bal g"
  shows "bounds_true bal (LearnLowerBound now g i amount)"
  unfolding LearnLowerBound_def
proof (rule bounds_true_learn_both [OF assms(1,2)])
  fix c assume c: "channel_at g (OppositeChannelId i) = Some c"
    "Upper c \<longrightarrow> bal (OppositeChannelId i) \<le> unat (Liquidity c)" "Upper (at_most_rest now amount c)"
  have "bal (OppositeChannelId i) + bal i \<le> unat (AmountMsat c)"
    using cap c(1) is_dir_id_opposite(2) [OF i] by (fastforce simp: capacity_true_def shares_capacity_def)
  with c(2,3) assms(3) show "bal (OppositeChannelId i) \<le> unat (Liquidity (at_most_rest now amount c))"
    by (auto simp: at_most_rest_def Let_def u64_less_iff unat_u64_sub_exact u64_le_iff split: if_splits)
qed (auto simp: at_least_def split: if_splits)

lemma bounds_true_paid:
  assumes i: "is_dir_id i" and "bounds_true bal g" "unat amount \<le> bal i"
    and cap: "capacity_true bal g"
  shows "bounds_true (pay bal i (unat amount)) (LearnPayment now g i amount)"
  unfolding LearnPayment_def
proof (rule bounds_true_learn_both [OF assms(1,2)])
  note ne = is_dir_id_opposite(1) [OF i]
  fix c
  show "pay bal i (unat amount) i \<le> unat (Liquidity (paid_out now amount c))"
    if "Upper c \<longrightarrow> bal i \<le> unat (Liquidity c)" "Upper (paid_out now amount c)"
  proof -
    have c: "Upper c" "\<not> Liquidity c < amount"
      using that(2) by (auto simp: paid_out_def Let_def split: if_splits)
    then have "unat (Liquidity c - amount) = unat (Liquidity c) - unat amount"
      by (intro unat_u64_sub_exact) simp
    moreover have "bal i - unat amount \<le> 1" if "Liquidity c - amount = 0"
      using that c \<open>Upper c \<longrightarrow> bal i \<le> unat (Liquidity c)\<close> by simp
    ultimately show ?thesis
      using c that(1) ne by (auto simp: paid_out_def Let_def pay_def)
  qed
  show "pay bal i (unat amount) (OppositeChannelId i) \<le> unat (Liquidity (paid_in now amount c))"
    if "channel_at g (OppositeChannelId i) = Some c"
      "Upper c \<longrightarrow> bal (OppositeChannelId i) \<le> unat (Liquidity c)" "Upper (paid_in now amount c)"
  proof -
    have "bal (OppositeChannelId i) + bal i \<le> unat (AmountMsat c)"
      using cap that(1) is_dir_id_opposite(2) [OF i] by (fastforce simp: capacity_true_def shares_capacity_def)
    moreover from this have "bal (OppositeChannelId i) + unat amount \<le> 18446744073709551615"
      using unat_u64_lt [of "AmountMsat c"] assms(3) by linarith
    ultimately show ?thesis
      using that(2,3) assms(3)
      by (auto simp: paid_in_def Let_def pay_def unat_specs u64_less_iff split: if_splits)
  qed
qed (simp_all add: pay_def)

text \<open>Fading only loosens a bound.\<close>

lemma shrink_le:
  assumes "d \<le> 2 ^ 53" "0 \<le> k" "k \<le> 1"
  shows "u64_of_float (fmul (float_of_u64 d) k) \<le> d"
proof -
  have d: "float_of_u64 d = of_nat (unat d)" using float_of_u64_exact [OF assms(1)] .
  have "fmul (float_of_u64 d) k \<le> f64 (of_nat (unat d))"
    unfolding fmul_def d by (intro f64_mono mult_left_le assms(3) of_nat_0_le_iff)
  then have le: "fmul (float_of_u64 d) k \<le> of_nat (unat d)"
    using d unfolding float_of_u64_def by simp
  have ge: "0 \<le> fmul (float_of_u64 d) k"
    unfolding fmul_def using assms(2) by (intro f64_nonneg mult_nonneg_nonneg float_of_u64_nonneg)
  have "of_nat (unat d) < (2 ^ 64 :: rat)"
  proof -
    have "of_nat (unat d) < (of_nat (2 ^ 64) :: rat)" by (simp only: of_nat_less_iff unat_u64_lt_pow)
    then show ?thesis by simp
  qed
  then have "unat (u64_of_float (fmul (float_of_u64 d) k)) = nat \<lfloor>fmul (float_of_u64 d) k\<rfloor>"
    using ge le by (intro unat_u64_of_float) linarith+
  also have "\<dots> \<le> unat d"
    using le by (simp add: nat_le_iff floor_le_iff del: of_nat_unat)
  finally show ?thesis by (simp only: u64_le_iff)
qed

lemma sub_shrunk:
  fixes capacity l :: u64
  assumes "l \<le> capacity" "x \<le> capacity - l"
  shows "l \<le> capacity - x" "capacity - x \<le> capacity"
  using assms unat_u64_sub_exact [OF assms(1)]
proof -
  have "unat x \<le> unat capacity - unat l" using assms unat_u64_sub_exact [OF assms(1)] by (simp add: u64_le_iff)
  moreover have "unat l \<le> unat capacity" using assms by (simp add: u64_le_iff)
  ultimately have "x \<le> capacity" "unat l + unat x \<le> unat capacity" by (simp_all add: u64_le_iff)
  then show "l \<le> capacity - x" "capacity - x \<le> capacity"
    using unat_u64_sub_exact [of x capacity] by (simp_all add: u64_le_iff)
qed

definition keep_ok :: "(rat \<Rightarrow> rat \<Rightarrow> rat) \<Rightarrow> bool" where
  "keep_ok mpow \<longleftrightarrow> (\<forall>x \<ge> 0. 0 \<le> mpow (1 / 2) x \<and> mpow (1 / 2) x \<le> 1)"

lemma Seconds_nonneg: "0 \<le> d \<Longrightarrow> 0 \<le> Seconds d"
  unfolding Seconds_def fadd_def fdiv_def
  by (intro f64_nonneg add_nonneg_nonneg divide_nonneg_nonneg)
     (simp_all add: signed_divide_int_def signed_modulo_int_def sgn_if pos_imp_zdiv_nonneg_iff)

definition decay_keep :: "(rat \<Rightarrow> rat \<Rightarrow> rat) \<Rightarrow> int \<Rightarrow> int \<Rightarrow> int \<Rightarrow> Channel \<Rightarrow> rat" where
  "decay_keep mpow h now t c =
     mpow (1 / 2) (fdiv (f64 (of_int (i64 (now - (if t > Timestamp c then t else Timestamp c))))) (Seconds h))"

lemma decay_keep_unit:
  assumes dec: "decay_channel mpow h now t c = Some c'" and keep: "keep_ok mpow" "0 \<le> h"
  shows "0 \<le> decay_keep mpow h now t c" "decay_keep mpow h now t c \<le> 1"
proof -
  have el: "0 < i64 (now - (if t > Timestamp c then t else Timestamp c))"
    using dec by (auto simp: decay_channel_def Let_def split: if_splits)
  have "0 \<le> fdiv (f64 (of_int (i64 (now - (if t > Timestamp c then t else Timestamp c))))) (Seconds h)"
    unfolding fdiv_def using el Seconds_nonneg [OF keep(2)] by (intro f64_nonneg divide_nonneg_nonneg) simp_all
  then show "0 \<le> decay_keep mpow h now t c" "decay_keep mpow h now t c \<le> 1"
    using keep(1) by (auto simp: keep_ok_def decay_keep_def)
qed

lemma decay_bound:
  assumes dec: "decay_channel mpow h now t c = Some c'" and up: "Upper c" "Upper c'"
    and cap: "AmountMsat c \<le> 2 ^ 53" and keep: "keep_ok mpow" "0 \<le> h"
  shows "Liquidity c \<le> Liquidity c'"
proof -
  let ?k = "decay_keep mpow h now t c"
  note k = decay_keep_unit [OF dec keep]
  have "Liquidity c < AmountMsat c \<and>
      Liquidity c' = AmountMsat c - u64_of_float (fmul (float_of_u64 (AmountMsat c - Liquidity c)) ?k)"
    using dec up by (auto simp: decay_channel_def Let_def decay_keep_def split: if_splits)
  moreover have "AmountMsat c - Liquidity c \<le> 2 ^ 53" if "Liquidity c < AmountMsat c"
    using u64_diff_mono [of 0 "Liquidity c"] that cap
    by (meson order.strict_implies_order order_trans sub_shrunk(2) word_zero_le word_sub_le)
  ultimately show ?thesis
    using sub_shrunk(1) [OF _ shrink_le [OF _ k]] by auto
qed

text \<open>An estimate moves toward half the capacity, not past it.\<close>

lemma decay_estimate:
  assumes dec: "decay_channel mpow h now t c = Some c'" and up: "\<not> Upper c"
    and cap: "AmountMsat c \<le> 2 ^ 53" "Liquidity c \<le> AmountMsat c" and keep: "keep_ok mpow" "0 \<le> h"
  shows "AmountMsat c div 2 < Liquidity c \<Longrightarrow> AmountMsat c div 2 \<le> Liquidity c' \<and> Liquidity c' \<le> Liquidity c"
    and "Liquidity c \<le> AmountMsat c div 2 \<Longrightarrow> Liquidity c \<le> Liquidity c' \<and> Liquidity c' \<le> AmountMsat c div 2"
proof -
  let ?k = "decay_keep mpow h now t c" and ?def = "AmountMsat c div 2"
  note k = decay_keep_unit [OF dec keep]
  have small: "x \<le> 2 ^ 53" if "x \<le> Liquidity c \<or> x \<le> ?def" for x
  proof -
    have "?def \<le> AmountMsat c" by (simp add: u64_le_iff unat_u64_div)
    then show ?thesis using that cap by (meson order_trans)
  qed
  show "?def \<le> Liquidity c' \<and> Liquidity c' \<le> Liquidity c" if gt: "?def < Liquidity c"
  proof -
    let ?x = "u64_of_float (fmul (float_of_u64 (Liquidity c - ?def)) ?k)"
    have "?x \<le> Liquidity c - ?def"
      using gt by (intro shrink_le k small) (simp add: sub_shrunk(2) [of 0] u64_le_iff u64_less_iff unat_u64_sub_exact)
    then have "unat ?x + unat ?def \<le> unat (Liquidity c)"
      using gt by (simp add: u64_le_iff u64_less_iff unat_u64_sub_exact)
    moreover from this have "unat (?def + ?x) = unat ?def + unat ?x"
      using unat_u64_lt_pow [of "Liquidity c"] by (intro unat_u64_add_exact) linarith
    moreover have "Liquidity c' = ?def + ?x"
      using dec up gt by (auto simp: decay_channel_def Let_def decay_keep_def split: if_splits)
    ultimately show ?thesis by (simp add: u64_le_iff)
  qed
  show "Liquidity c \<le> Liquidity c' \<and> Liquidity c' \<le> ?def" if le: "Liquidity c \<le> ?def"
  proof -
    let ?x = "u64_of_float (fmul (float_of_u64 (?def - Liquidity c)) ?k)"
    have "?x \<le> ?def - Liquidity c"
      using le by (intro shrink_le k small) (simp add: u64_le_iff unat_u64_sub_exact)
    moreover have "Liquidity c' = ?def - ?x"
      using dec up le by (auto simp: decay_channel_def Let_def decay_keep_def split: if_splits)
    ultimately show ?thesis using sub_shrunk [OF le] by simp
  qed
qed

text \<open>
  The world: the real balances and the graph.  \<open>failed\<close>, \<open>forwarded\<close> and \<open>paid\<close> say what the code
  concludes from a payment; the other steps do not move balances.  Payments of others between two
  steps are not in it: they are why the code lets beliefs fade; nor are conclusions that are not true, nor
  what a file or our own channels' listing says.  Every operation of the graph, with any arguments, is in
  \<open>graph_reachable\<close> (theory StartClaims).
\<close>

definition listing_true :: "balances \<Rightarrow> (channel_id \<Rightarrow> node_id \<times> node_id) \<Rightarrow> GlChannel list \<Rightarrow> bool" where
  "listing_true bal ends cs \<longleftrightarrow> (\<forall>c \<in> set cs. fits_ends ends c \<and> shares_capacity bal (gl_id c) (AmountMsat c))"

inductive world_step ::
  "(channel_id \<Rightarrow> node_id \<times> node_id) \<Rightarrow> (rat \<Rightarrow> rat \<Rightarrow> rat) \<Rightarrow> balances \<times> Graph \<Rightarrow> balances \<times> Graph \<Rightarrow> bool"
  for ends mpow where
  failed: "is_dir_id i \<Longrightarrow> bal i < unat amount \<Longrightarrow>
     world_step ends mpow (bal, g) (bal, LearnUpperBound now g i amount)"
| forwarded: "is_dir_id i \<Longrightarrow> unat amount \<le> bal i \<Longrightarrow>
     world_step ends mpow (bal, g) (bal, LearnLowerBound now g i amount)"
| paid: "is_dir_id i \<Longrightarrow> unat amount \<le> bal i \<Longrightarrow>
     world_step ends mpow (bal, g) (pay bal i (unat amount), LearnPayment now g i amount)"
| unusable: "world_step ends mpow (bal, g) (bal, MarkUnusable now g i)"
| synced: "listing_true bal ends cs \<Longrightarrow>
     world_step ends mpow (bal, g) (bal, fst (SyncChannels g cs keep asOf))"
| updated: "world_step ends mpow (bal, g) (bal, fst (ApplyChannelUpdate g u))"
| pruned: "world_step ends mpow (bal, g) (bal, PruneChannels g t)"
| reset: "world_step ends mpow (bal, g) (bal, fst (RefreshLiquidity now g threshold))"
| marked: "world_step ends mpow (bal, g) (bal, fst (MarkDearChannels g))"
| decayed: "keep_ok mpow \<Longrightarrow> \<forall>i c. channel_at g i = Some c \<longrightarrow> AmountMsat c \<le> 2 ^ 53 \<Longrightarrow>
     world_step ends mpow (bal, g) (bal, fst (DecayLiquidity mpow now g h))"

inductive world_reachable ::
  "(channel_id \<Rightarrow> node_id \<times> node_id) \<Rightarrow> (rat \<Rightarrow> rat \<Rightarrow> rat) \<Rightarrow> balances \<times> Graph \<Rightarrow> bool"
  for ends mpow where
  started: "world_reachable ends mpow (bal, NewGraph)"
| stepped: "world_reachable ends mpow w \<Longrightarrow> world_step ends mpow w w' \<Longrightarrow> world_reachable ends mpow w'"

definition world_ok :: "(channel_id \<Rightarrow> node_id \<times> node_id) \<Rightarrow> balances \<times> Graph \<Rightarrow> bool" where
  "world_ok ends = (\<lambda>(bal, g). graph_ok ends g \<and> bounds_true bal g \<and> capacity_true bal g)"

lemma world_okD:
  "world_ok ends (bal, g) \<Longrightarrow> graph_ok ends g" "world_ok ends (bal, g) \<Longrightarrow> bounds_true bal g"
  "world_ok ends (bal, g) \<Longrightarrow> capacity_true bal g"
  by (simp_all add: world_ok_def)

lemma world_ok_subset:
  assumes "world_ok ends (bal, g)" "graph_ok ends g'"
    and "\<And>i c. channel_at g' i = Some c \<Longrightarrow> \<exists>c0. channel_at g i = Some c0 \<and> AmountMsat c = AmountMsat c0
           \<and> (Upper c \<longrightarrow> Upper c0 \<and> Liquidity c0 \<le> Liquidity c)"
  shows "world_ok ends (bal, g')"
proof -
  have "bal i \<le> unat (Liquidity c)" if "channel_at g' i = Some c" "Upper c" for i c
    using assms(1) assms(3) [OF that(1)] that(2)
    unfolding world_ok_def bounds_true_def u64_le_iff by (auto intro: order_trans)
  moreover have "shares_capacity bal i (AmountMsat c)" if "channel_at g' i = Some c" for i c
    using assms(1) assms(3) [OF that] by (auto simp: world_ok_def capacity_true_def)
  ultimately show ?thesis
    using assms(2) by (simp add: world_ok_def bounds_true_def capacity_true_def)
qed

lemma refreshChannel_world:
  assumes ok: "world_ok ends (bal, g)" and "fits_ends ends c" "shares_capacity bal (gl_id c) (AmountMsat c)"
  shows "world_ok ends (bal, refreshChannel g c)"
proof -
  have "bounds_true bal (refreshChannel g c) \<and> capacity_true bal (refreshChannel g c)"
    unfolding bounds_true_def capacity_true_def
  proof (intro conjI allI impI, elim conjE)
    fix i c' assume at: "channel_at (refreshChannel g c) i = Some c'"
    show "bal i \<le> unat (Liquidity c')" if "Upper c'"
    proof (cases "channel_at g i")
      case None
      with at that show ?thesis
      proof (cases "i = gl_id c")
        case True
        with at that None show ?thesis by (auto simp: refreshChannel_def Let_def split_beta)
      qed (simp add: refreshChannel_frame)
    next
      case (Some old)
      with at refreshChannel_known [OF Some, of c] have "kept_belief old c'" by auto
      with ok Some that show ?thesis by (auto simp: kept_belief_def world_ok_def bounds_true_def)
    qed
    show "shares_capacity bal i (AmountMsat c')"
    proof (cases "i = gl_id c")
      case True
      with at have "AmountMsat c' = AmountMsat c \<or> channel_at g i = Some c'"
        by (auto simp: refreshChannel_def Let_def split_beta split: option.splits if_splits)
      with True ok assms(3) show ?thesis by (auto simp: world_ok_def capacity_true_def)
    next
      case False
      with at ok show ?thesis by (auto simp: refreshChannel_frame world_ok_def capacity_true_def)
    qed
  qed
  with ok assms(2) show ?thesis by (auto simp: world_ok_def intro: graph_keep)
qed

lemma refreshChannels_world:
  "world_ok ends (bal, g) \<Longrightarrow> listing_true bal ends cs \<Longrightarrow> world_ok ends (bal, refreshChannels g cs)"
  unfolding refreshChannels_def
proof (induction cs arbitrary: g)
  case (Cons c cs)
  then show ?case
    using refreshChannel_world [OF Cons.prems(1), of c] by (simp add: listing_true_def)
qed simp

lemma delete_where_world:
  assumes "world_ok ends (bal, g)"
  shows "world_ok ends (bal, fst (delete_where P is (g, n)))"
proof (rule world_ok_subset [OF assms])
  have ok: "graph_ok ends g" using assms by (simp add: world_ok_def)
  then show "graph_ok ends (fst (delete_where P is (g, n)))" by (rule delete_where_ok)
  show "\<exists>c0. channel_at g i = Some c0 \<and> AmountMsat c = AmountMsat c0 \<and>
      (Upper c \<longrightarrow> Upper c0 \<and> Liquidity c0 \<le> Liquidity c)"
    if "channel_at (fst (delete_where P is (g, n))) i = Some c" for i c
    using that ok by (auto split: option.splits if_splits)
qed

lemma learn_world:
  assumes ok: "world_ok ends (bal, g)" and i: "is_dir_id i"
    and "\<And>c. AmountMsat (f c) = AmountMsat c" "\<And>c. AmountMsat (f' c) = AmountMsat c"
    and "\<And>j cap. shares_capacity bal j cap \<Longrightarrow> is_dir_id j \<Longrightarrow> shares_capacity bal' j cap"
    and "graph_ok ends (learn_both g i f f')" "bounds_true bal' (learn_both g i f f')"
  shows "world_ok ends (bal', learn_both g i f f')"
proof -
  have "is_dir_id j" if "channel_at g j = Some c" for j c
    using ok graph_okD(4) [OF _ that, of ends] is_dir_id_channel by (simp add: world_ok_def)
  then have "capacity_true bal' (learn_both g i f f')"
    using ok by (intro capacity_true_learn_both [OF i _ assms(5) _ assms(3,4)]) (simp_all add: world_ok_def)
  with assms(6,7) show ?thesis by (simp add: world_ok_def)
qed

lemma map_channels_world:
  assumes "world_ok ends (bal, g)" "graph_ok ends g'" "Channels g' = map_vals f (Channels g)"
    and "\<And>i c. channel_at g i = Some c \<Longrightarrow> AmountMsat (f i c) = AmountMsat c \<and>
           (Upper (f i c) \<longrightarrow> Upper c \<and> Liquidity c \<le> Liquidity (f i c))"
  shows "world_ok ends (bal, g')"
  by (rule world_ok_subset [OF assms(1,2)]) (use assms(3,4) in auto)

lemma decay_not_upper:
  "decay_channel mpow h now t c = Some c' \<Longrightarrow> Upper c' \<Longrightarrow> Upper c"
  by (auto simp: decay_channel_def Let_def split: if_splits)

lemma DecayLiquidity_world:
  assumes ok: "world_ok ends (bal, g)" and keep: "keep_ok mpow"
    and cap: "\<forall>i c. channel_at g i = Some c \<longrightarrow> AmountMsat c \<le> 2 ^ 53"
  shows "world_ok ends (bal, fst (DecayLiquidity mpow now g h))"
proof (cases "h \<le> 0")
  case False
  let ?f = "\<lambda>i c. case decay_channel mpow h now (lastDecay g) c of None \<Rightarrow> c | Some c' \<Rightarrow> c'"
  show ?thesis
  proof (rule map_channels_world [OF ok])
    show "graph_ok ends (fst (DecayLiquidity mpow now g h))"
      using ok by (simp add: world_ok_def DecayLiquidity_ok)
    show "Channels (fst (DecayLiquidity mpow now g h)) = map_vals ?f (Channels g)"
      using False by (simp add: DecayLiquidity_def Let_def)
    show "AmountMsat (?f i c) = AmountMsat c \<and> (Upper (?f i c) \<longrightarrow> Upper c \<and> Liquidity c \<le> Liquidity (?f i c))"
      if "channel_at g i = Some c" for i c
      using that cap False keep
      by (auto split: option.split dest: decay_channel_same decay_not_upper intro: decay_bound)
  qed
qed (simp add: DecayLiquidity_def ok)

lemma ApplyChannelUpdate_world:
  assumes ok: "world_ok ends (bal, g)"
  shows "world_ok ends (bal, fst (ApplyChannelUpdate g u))"
proof (rule world_ok_subset [OF ok])
  show "graph_ok ends (fst (ApplyChannelUpdate g u))"
    using ok by (simp add: world_ok_def ApplyChannelUpdate_ok)
  have [simp]: "AmountMsat (updated_policy (policy_of c) u) = AmountMsat c" for c
    by (simp add: updated_policy_def Let_def)
  show "\<exists>c0. channel_at g i = Some c0 \<and> AmountMsat c = AmountMsat c0 \<and>
      (Upper c \<longrightarrow> Upper c0 \<and> Liquidity c0 \<le> Liquidity c)"
    if "channel_at (fst (ApplyChannelUpdate g u)) i = Some c" for i c
    using that by (auto simp: ApplyChannelUpdate_def Let_def split: option.splits if_splits)
qed

lemma world_step_ok:
  "world_step ends mpow w w' \<Longrightarrow> world_ok ends w \<Longrightarrow> world_ok ends w'"
proof (induction rule: world_step.induct)
  case (failed i bal amount g now)
  show ?case
  proof (cases "amount = 0")
    case False
    then have "LearnUpperBound now g i amount = learn_both g i (at_most now amount) (at_least_rest now amount)"
      by (simp add: LearnUpperBound_def)
    with failed world_okD [OF failed(3)] show ?thesis
      using learn_ok(1) [of ends g now i amount] bounds_true_failed [of i bal g amount now]
      by (auto intro: learn_world)
  qed (use failed in simp)
next
  case (forwarded i amount bal g now)
  then show ?case
    using learn_ok(2) [of ends g now i amount] bounds_true_forwarded [of i bal g amount now]
    unfolding LearnLowerBound_def by (intro learn_world [of ends bal]) (auto simp: world_ok_def)
next
  case (paid i amount bal g now)
  then show ?case
    using learn_ok(3) [of ends g now i amount] bounds_true_paid [of i bal g amount now]
      pay_shares [of i "unat amount" bal]
    unfolding LearnPayment_def by (intro learn_world [of ends bal]) (auto simp: world_ok_def)
next
  case (unusable bal g now i)
  show ?case
    by (rule world_ok_subset [OF unusable])
       (use unusable in \<open>auto simp: world_ok_def MarkUnusable_def channel_at_update_channel
          intro: learn_ok(4) [unfolded MarkUnusable_def] split: if_splits\<close>)
next
  case (synced bal cs g keep asOf)
  then show ?case
    by (simp add: SyncChannels_def Let_def split_beta refreshChannels_world delete_where_world)
next
  case (updated bal g u)
  then show ?case by (rule ApplyChannelUpdate_world)
next
  case (pruned bal g t)
  have "world_ok ends (b, h\<lparr>InboundFees := f\<rparr>) = world_ok ends (b, h)" for b h f
    by (simp add: world_ok_def bounds_true_def capacity_true_def)
  with pruned show ?case
    by (simp add: PruneChannels_def pruneInboundFees_def Let_def delete_where_world)
next
  case (reset bal g now threshold)
  then show ?case
    using RefreshLiquidity_ok [OF world_okD(1) [OF reset], of now threshold]
    by (rule map_channels_world) (auto simp: RefreshLiquidity_def Let_def ResetLiquidity_def split: if_splits)
next
  case (marked bal g)
  then show ?case
    using MarkDearChannels_ok [OF world_okD(1) [OF marked]]
    by (rule map_channels_world) (auto simp: MarkDearChannels_def Let_def)
next
  case (decayed g bal now h)
  then show ?case by (intro DecayLiquidity_world)
qed

lemma world_reachable_ok: "world_reachable ends mpow w \<Longrightarrow> world_ok ends w"
proof (induction rule: world_reachable.induct)
  case (started bal)
  then show ?case
    by (simp add: world_ok_def graph_ok_NewGraph) (simp add: bounds_true_def capacity_true_def NewGraph_def)
qed (rule world_step_ok)

end
