(* ===== verification/Routes.thy ===== *)
theory Routes
  imports GraphBeliefs
begin

text \<open>
  Routes (\<^verbatim>\<open>graph/route.go\<close>, the end of \<^verbatim>\<open>graph/pathfinder.go\<close>, \<^verbatim>\<open>graph/estimate.go\<close>,
  \<^verbatim>\<open>graph/prettyRoute.go\<close>): how a list of channels is priced, checked and shown.  A route's
  pointer to the graph is the argument \<open>g\<close> of what reads the graph.  \<^verbatim>\<open>newRouteFromChannels\<close> is only
  called with at least one channel (an empty one would be an index out of range).

  The lemmas: amounts and delays fall along a route, the fees shown for its hops add up to its
  fee, a discount never makes a route dearer, and a route sent again is within every limit.
\<close>

definition INITIAL_DELAY :: u64 where "INITIAL_DELAY = 144"
definition MAX_ROUTE_DELAY :: u64 where "MAX_ROUTE_DELAY = 2000"

record RouteHop =
  hop_Channel :: Channel
  MilliSatoshi :: u64
  hop_Delay :: u64

record Route =
  route_Destination :: node_id
  route_Source :: node_id
  Amount :: u64
  Hops :: "RouteHop list"

definition NewRoute :: "node_id \<Rightarrow> node_id \<Rightarrow> u64 \<Rightarrow> RouteHop list \<Rightarrow> Route" where
  "NewRoute src dst amount hops =
     \<lparr>route_Destination = dst, route_Source = src, Amount = amount, Hops = hops\<rparr>"

definition Fee :: "Route \<Rightarrow> u64" where
  "Fee r = (case Hops r of [] \<Rightarrow> 0
            | h # _ \<Rightarrow> if MilliSatoshi h < Amount r then 0 else MilliSatoshi h - Amount r)"

definition route_FeePPM :: "Route \<Rightarrow> u64" where
  "route_FeePPM r = feePPM (Fee r) (Amount r)"

text \<open>The loops over the hops run from the last one to the first; \<open>forward_amount\<close> is
  \<^verbatim>\<open>amountToForward\<close> before the hop at the head of the list.\<close>

fun forward_amount :: "u64 \<Rightarrow> RouteHop list \<Rightarrow> u64" where
  "forward_amount amount [] = amount"
| "forward_amount amount (h # hs) =
     (let a = forward_amount amount hs in addSaturating a (ComputeFee (hop_Channel h) a))"

definition GetFeeWithoutInboundFee :: "Route \<Rightarrow> u64" where
  "GetFeeWithoutInboundFee r =
     (if length (Hops r) < 2 then 0 else forward_amount (Amount r) (tl (Hops r)) - Amount r)"

text \<open>What the node between channel \<open>c\<close> and the next hop charges.\<close>

definition hop_fee :: "Graph \<Rightarrow> Channel \<Rightarrow> RouteHop \<Rightarrow> u64" where
  "hop_fee g c hop =
     (let amountToForward = MilliSatoshi hop;
          outboundFee = ComputeFee (hop_Channel hop) amountToForward;
          inbound = GetInboundFee g c (addSaturating amountToForward outboundFee) in
      nodeFee outboundFee inbound)"

fun recomputeFeeAndDelay :: "Graph \<Rightarrow> RouteHop list \<Rightarrow> RouteHop list" where
  "recomputeFeeAndDelay g [] = []"
| "recomputeFeeAndDelay g [h] = [h]"
| "recomputeFeeAndDelay g (h # h' # hs) =
     (let rest = recomputeFeeAndDelay g (h' # hs); hop = hd rest in
      h\<lparr>MilliSatoshi := addSaturating (MilliSatoshi hop) (hop_fee g (hop_Channel h) hop),
        hop_Delay := hop_Delay hop + Delay (hop_Channel hop)\<rparr> # rest)"

definition newRouteFromChannels ::
    "node_id \<Rightarrow> node_id \<Rightarrow> u64 \<Rightarrow> Channel list \<Rightarrow> Graph \<Rightarrow> Route" where
  "newRouteFromChannels src dst amount channels g =
     (let hops = map (\<lambda>c. \<lparr>hop_Channel = c, MilliSatoshi = 0, hop_Delay = 0\<rparr>) channels;
          last = length hops - 1;
          hops = hops[last := (hops ! last)\<lparr>MilliSatoshi := amount, hop_Delay := INITIAL_DELAY\<rparr>] in
      NewRoute src dst amount (recomputeFeeAndDelay g hops))"

definition ChannelIds :: "Route \<Rightarrow> channel_id list" where
  "ChannelIds r = map (\<lambda>hop. dir_id (ShortChannelId (hop_Channel hop)) (Source (hop_Channel hop))
                                     (Destination (hop_Channel hop))) (Hops r)"

record LightningHop =
  lh_Id :: node_id
  lh_ShortChannelId :: scid
  lh_AmountMsat :: u64
  lh_Delay :: u32
  lh_Direction :: u32

definition ToLightningRoute :: "Route \<Rightarrow> LightningHop list" where
  "ToLightningRoute r = map (\<lambda>hop.
     \<lparr>lh_Id = Destination (hop_Channel hop), lh_ShortChannelId = ShortChannelId (hop_Channel hop),
      lh_AmountMsat = MilliSatoshi hop, lh_Delay = ucast (hop_Delay hop),
      lh_Direction = channel_GetDirection (hop_Channel hop)\<rparr>) (Hops r)"

definition GetHop :: "Channel \<Rightarrow> u64 \<Rightarrow> u32 \<Rightarrow> LightningHop" where
  "GetHop c amount delay =
     \<lparr>lh_Id = Destination c, lh_ShortChannelId = ShortChannelId c, lh_AmountMsat = amount,
      lh_Delay = delay, lh_Direction = channel_GetDirection c\<rparr>"

section \<open>Sending over the channels of an earlier route\<close>

fun joined :: "Channel list \<Rightarrow> bool" where
  "joined (c # c' # cs) = (Destination c = Source c' \<and> joined (c' # cs))"
| "joined cs = True"

definition GetRouteOverChannels :: "Graph \<Rightarrow> channel_id list \<Rightarrow> u64 \<Rightarrow> util_error + Route" where
  "GetRouteOverChannels g ids amount =
     (if ids = [] then Inl ErrNoRoute
      else
        let found = map (channel_at g) ids in
        if None \<in> set found \<or> \<not> list_all IsActive (map the found) \<or> \<not> joined (map the found)
        then Inl ErrNoRoute
        else
          let channels = map the found;
              route = newRouteFromChannels (Destination (hd channels)) (Source (last channels)) amount channels g in
          if list_ex (\<lambda>hop. MilliSatoshi hop = MaxUint64 \<or> MilliSatoshi hop < minHtlcMsat (hop_Channel hop)
                        \<or> MilliSatoshi hop > maxHtlcMsat (hop_Channel hop)) (Hops route)
          then Inl ErrNoRoute
          else if hop_Delay (hd (Hops route)) > MAX_ROUTE_DELAY then Inl ErrNoRoute
          else Inr route)"

text \<open>The hops between our own two channels: \<^verbatim>\<open>for i := 1; i < len(route.Hops)-1; i++\<close>.\<close>

definition middle :: "'a list \<Rightarrow> 'a list" where
  "middle xs = butlast (tl xs)"

definition CanCarry :: "Graph \<Rightarrow> Route \<Rightarrow> string set \<Rightarrow> bool" where
  "CanCarry g route exclude =
     list_all (\<lambda>hop.
       let i = channelId (hop_Channel hop) in
       \<not> (i \<in> exclude \<or> Source (hop_Channel hop) \<in> exclude) \<and>
       (case channel_at g i of None \<Rightarrow> False | Some c \<Rightarrow> CanForward c (MilliSatoshi hop)))
     (middle (Hops route))"

definition Estimate :: "Route \<Rightarrow> rat \<times> nat" where
  "Estimate route =
     (foldl (\<lambda>chance hop. fmul chance (SuccessChance (hop_Channel hop) (MilliSatoshi hop))) 1 (middle (Hops route)),
      length (filter (\<lambda>hop. \<not> learned (hop_Channel hop)) (middle (Hops route))))"

section \<open>Showing a route\<close>

record PrettyRouteHop =
  ph_Id :: node_id
  ph_Alias :: string
  ph_ShortChannelId :: scid
  ph_MilliSatoshi :: u64
  ph_Delay :: u64
  ph_Fee :: u64
  ph_FeePPM :: u64
  ph_OutboundFee :: u64
  ph_InboundFee :: int

record PrettyRoute =
  pr_PaymentHash :: string
  pr_SourceId :: node_id
  pr_DestinationId :: node_id
  pr_SourceAlias :: string
  pr_DestinationAlias :: string
  pr_Amount :: u64
  pr_Fee :: u64
  pr_FeePPM :: u64
  pr_Hops :: "PrettyRouteHop list"
  InboundSavingsMSat :: int
  InboundSavingsPPM :: int

definition pretty_first :: "Graph \<Rightarrow> RouteHop \<Rightarrow> PrettyRouteHop" where
  "pretty_first g hop =
     (let from = Source (hop_Channel hop) in
      \<lparr>ph_Id = from, ph_Alias = GetAlias g from, ph_ShortChannelId = ShortChannelId (hop_Channel hop),
       ph_MilliSatoshi = MilliSatoshi hop, ph_Delay = hop_Delay hop, ph_Fee = 0, ph_FeePPM = 0,
       ph_OutboundFee = 0, ph_InboundFee = 0\<rparr>)"

definition pretty_hop :: "Graph \<Rightarrow> RouteHop \<Rightarrow> RouteHop \<Rightarrow> PrettyRouteHop" where
  "pretty_hop g before hop =
     (let fee = MilliSatoshi before - MilliSatoshi hop;
          from = Source (hop_Channel hop);
          amountToForward = MilliSatoshi hop;
          outboundFee = ComputeFee (hop_Channel hop) amountToForward in
      \<lparr>ph_Id = from, ph_Alias = GetAlias g from, ph_ShortChannelId = ShortChannelId (hop_Channel hop),
       ph_MilliSatoshi = MilliSatoshi hop, ph_Delay = hop_Delay hop, ph_Fee = fee,
       ph_FeePPM = feePPM fee (MilliSatoshi hop), ph_OutboundFee = outboundFee,
       ph_InboundFee = GetInboundFee g (hop_Channel before) (addSaturating amountToForward outboundFee)\<rparr>)"

text \<open>A route without hops is shown as the zero value.\<close>

definition NewPrettyRoute :: "Graph \<Rightarrow> Route \<Rightarrow> string \<Rightarrow> PrettyRoute" where
  "NewPrettyRoute g route paymentHash =
     (if Hops route = [] then
        \<lparr>pr_PaymentHash = [], pr_SourceId = [], pr_DestinationId = [], pr_SourceAlias = [],
         pr_DestinationAlias = [], pr_Amount = 0, pr_Fee = 0, pr_FeePPM = 0, pr_Hops = [],
         InboundSavingsMSat = 0, InboundSavingsPPM = 0\<rparr>
      else
        let hops = pretty_first g (hd (Hops route)) # map2 (pretty_hop g) (butlast (Hops route)) (tl (Hops route));
            feeWithout = GetFeeWithoutInboundFee route;
            feeWithoutPPM = feePPM feeWithout (Amount route);
            actualFee = Fee route;
            actualFeePPM = route_FeePPM route in
        \<lparr>pr_PaymentHash = paymentHash, pr_SourceId = route_Source route, pr_DestinationId = route_Destination route,
         pr_SourceAlias = GetAlias g (route_Source route), pr_DestinationAlias = GetAlias g (route_Destination route),
         pr_Amount = Amount route div 1000, pr_Fee = actualFee, pr_FeePPM = actualFeePPM, pr_Hops = hops,
         InboundSavingsMSat = i64 (sint feeWithout - sint actualFee),
         InboundSavingsPPM = i64 (sint feeWithoutPPM - sint actualFeePPM)\<rparr>)"

section \<open>Pricing, from the receiver back\<close>

text \<open>The hops of a new route, channel by channel.\<close>

fun price :: "Graph \<Rightarrow> u64 \<Rightarrow> Channel list \<Rightarrow> RouteHop list" where
  "price g amount [] = []"
| "price g amount [c] = [\<lparr>hop_Channel = c, MilliSatoshi = amount, hop_Delay = INITIAL_DELAY\<rparr>]"
| "price g amount (c # c' # cs) =
     (let rest = price g amount (c' # cs); hop = hd rest in
      \<lparr>hop_Channel = c, MilliSatoshi = addSaturating (MilliSatoshi hop) (hop_fee g c hop),
       hop_Delay = hop_Delay hop + Delay (hop_Channel hop)\<rparr> # rest)"

lemma price_empty [simp]: "price g amount cs = [] \<longleftrightarrow> cs = []"
  by (induction g amount cs rule: price.induct) (simp_all add: Let_def)

lemma map_channel_price [simp]: "map hop_Channel (price g amount cs) = cs"
  by (induction g amount cs rule: price.induct) (simp_all add: Let_def)

lemma length_price [simp]: "length (price g amount cs) = length cs"
  by (rule map_eq_imp_length_eq [of hop_Channel _ "\<lambda>c. c"]) simp

lemma channel_hd_price: "cs \<noteq> [] \<Longrightarrow> hop_Channel (hd (price g amount cs)) = hd cs"
  by (cases "(g, amount, cs)" rule: price.cases) (auto simp: Let_def)

abbreviation blank :: "Channel \<Rightarrow> RouteHop" where
  "blank c \<equiv> \<lparr>hop_Channel = c, MilliSatoshi = 0, hop_Delay = 0\<rparr>"

lemma recompute_price:
  "cs \<noteq> [] \<Longrightarrow>
   recomputeFeeAndDelay g (map blank (butlast cs)
     @ [(blank (last cs))\<lparr>MilliSatoshi := amount, hop_Delay := INITIAL_DELAY\<rparr>]) = price g amount cs"
proof (induction g amount cs rule: price.induct)
  case (3 g amount c c' cs)
  let ?rest = "map blank (butlast (c' # cs))
     @ [(blank (last (c' # cs)))\<lparr>MilliSatoshi := amount, hop_Delay := INITIAL_DELAY\<rparr>]"
  obtain h hs where rest: "?rest = h # hs" by (cases ?rest) auto
  have "recomputeFeeAndDelay g (h # hs) = price g amount (c' # cs)" using 3 rest by simp
  moreover have "map blank (butlast (c # c' # cs))
     @ [(blank (last (c # c' # cs)))\<lparr>MilliSatoshi := amount, hop_Delay := INITIAL_DELAY\<rparr>] = blank c # h # hs"
    using rest by simp
  ultimately show ?case by (simp add: Let_def)
qed simp_all

lemma Hops_newRoute:
  assumes "cs \<noteq> []"
  shows "Hops (newRouteFromChannels src dst amount cs g) = price g amount cs"
proof -
  obtain ds d where cs: "cs = ds @ [d]" using assms by (cases cs rule: rev_cases) auto
  show ?thesis
    using recompute_price [OF assms, of g amount]
    by (simp add: newRouteFromChannels_def NewRoute_def cs Let_def list_update_append nth_append)
qed

lemma newRoute_simps [simp]:
  "Amount (newRouteFromChannels src dst amount cs g) = amount"
  "route_Source (newRouteFromChannels src dst amount cs g) = src"
  "route_Destination (newRouteFromChannels src dst amount cs g) = dst"
  by (simp_all add: newRouteFromChannels_def NewRoute_def Let_def)

lemma map_channel_newRoute: "cs \<noteq> [] \<Longrightarrow> map hop_Channel (Hops (newRouteFromChannels s d a cs g)) = cs"
  by (simp add: Hops_newRoute)

text \<open>The hops that a route keeps: each is priced from the next one.\<close>

fun priced :: "Graph \<Rightarrow> RouteHop list \<Rightarrow> bool" where
  "priced g (h # h' # hs) =
     (MilliSatoshi h = addSaturating (MilliSatoshi h') (hop_fee g (hop_Channel h) h') \<and>
      hop_Delay h = hop_Delay h' + Delay (hop_Channel h') \<and> priced g (h' # hs))"
| "priced g hs = True"

lemma price_Cons: "price g amount (c # c' # cs) =
    (let hop = hd (price g amount (c' # cs)) in
     \<lparr>hop_Channel = c, MilliSatoshi = addSaturating (MilliSatoshi hop) (hop_fee g c hop),
       hop_Delay = hop_Delay hop + Delay (hop_Channel hop)\<rparr> # price g amount (c' # cs))"
  by (simp add: Let_def)

lemma priced_price: "priced g (price g amount cs)"
proof (induction g amount cs rule: price.induct)
  case (3 g amount c c' cs)
  obtain h hs where "price g amount (c' # cs) = h # hs"
    by (cases "price g amount (c' # cs)") auto
  with 3 show ?case by (simp add: price_Cons Let_def del: price.simps)
qed simp_all

lemma price_last: "cs \<noteq> [] \<Longrightarrow> MilliSatoshi (last (price g amount cs)) = amount"
  by (induction g amount cs rule: price.induct) (simp_all add: Let_def)

text \<open>Amounts fall along a priced route.\<close>

lemma priced_falls: "priced g hs \<Longrightarrow> sorted_wrt (\<lambda>h h'. MilliSatoshi h \<ge> MilliSatoshi h') hs"
proof (induction g hs rule: priced.induct)
  case (1 g h h' hs)
  then have "MilliSatoshi h' \<le> MilliSatoshi h" by (simp add: addSaturating_ge)
  with 1 show ?case by (fastforce intro: order_trans)
qed simp_all

definition fee_sum :: "u64 list \<Rightarrow> nat" where "fee_sum fs = sum_list (map unat fs)"

lemma hop_fees_telescope:
  "sorted_wrt (\<lambda>h h'. MilliSatoshi h \<ge> MilliSatoshi h') hs \<Longrightarrow> hs \<noteq> [] \<Longrightarrow>
   fee_sum (map2 (\<lambda>b h. MilliSatoshi b - MilliSatoshi h) (butlast hs) (tl hs)) + unat (MilliSatoshi (last hs))
     = unat (MilliSatoshi (hd hs))"
proof (induction hs)
  case (Cons h hs)
  show ?case
  proof (cases hs)
    case (Cons h' hs')
    have "MilliSatoshi h' \<le> MilliSatoshi h" using Cons.prems(1) Cons by simp
    then have "unat (MilliSatoshi h - MilliSatoshi h') + unat (MilliSatoshi h') = unat (MilliSatoshi h)"
      by (simp add: unat_u64_sub_exact u64_le_iff)
    with Cons.IH Cons.prems Cons show ?thesis by (simp add: fee_sum_def)
  qed (simp add: fee_sum_def)
qed simp

lemma Fee_newRoute:
  assumes "cs \<noteq> []"
  shows "unat (Fee (newRouteFromChannels src dst amount cs g)) + unat amount
    = unat (MilliSatoshi (hd (price g amount cs)))"
proof -
  obtain h hs where hs: "price g amount cs = h # hs" using assms by (cases "price g amount cs") auto
  have "MilliSatoshi (last (h # hs)) \<le> MilliSatoshi h"
    using priced_falls [OF priced_price, of g amount cs] unfolding hs by auto
  then have "amount \<le> MilliSatoshi h" using price_last [OF assms, of g amount] unfolding hs by simp
  then show ?thesis
    by (simp add: Fee_def Hops_newRoute [OF assms] hs unat_u64_sub_exact u64_le_iff u64_less_iff)
qed

lemma map_Fee_pretty:
  "map ph_Fee (map2 (pretty_hop g) bs ts) = map2 (\<lambda>b h. MilliSatoshi b - MilliSatoshi h) bs ts"
  by (induction bs ts rule: list_induct2') (simp_all add: pretty_hop_def Let_def)

lemma pretty_fee_sum:
  assumes "cs \<noteq> []"
  shows "fee_sum (map ph_Fee (pr_Hops (NewPrettyRoute g' (newRouteFromChannels src dst amount cs g) h)))
    = unat (Fee (newRouteFromChannels src dst amount cs g))"
proof -
  let ?hs = "price g amount cs"
  have "fee_sum (map2 (\<lambda>b h. MilliSatoshi b - MilliSatoshi h) (butlast ?hs) (tl ?hs)) + unat amount
      = unat (MilliSatoshi (hd ?hs))"
    using hop_fees_telescope [OF priced_falls [OF priced_price, of g amount cs]] price_last [OF assms] assms
    by simp
  with Fee_newRoute [OF assms, of src dst amount g] show ?thesis
    using assms by (simp add: NewPrettyRoute_def Hops_newRoute Let_def pretty_first_def map_Fee_pretty fee_sum_def
        del: map_map)
qed

text \<open>With only discounts, the route costs at most what it would without inbound fees.\<close>

lemma nodeFee_discount: "i \<le> 0 \<Longrightarrow> nodeFee out i \<le> out"
  by (auto simp: nodeFee_def Let_def u64_le_iff unat_u64_sub_exact linorder_not_le)

definition only_discounts :: "Graph \<Rightarrow> Channel list \<Rightarrow> bool" where
  "only_discounts g cs \<longleftrightarrow> (\<forall>c \<in> set (butlast cs). \<forall>a. GetInboundFee g c a \<le> 0)"

lemma discounts_lower:
  "cs \<noteq> [] \<Longrightarrow> only_discounts g cs \<Longrightarrow>
   MilliSatoshi (hd (price g amount cs)) \<le> forward_amount amount (tl (price g amount cs))"
proof (induction g amount cs rule: price.induct)
  case (3 g amount c c' cs)
  obtain h hs where rest: "price g amount (c' # cs) = h # hs"
    by (cases "price g amount (c' # cs)") auto
  have h: "hop_Channel h = c'" using channel_hd_price [of "c' # cs" g amount] rest by simp
  have IH: "MilliSatoshi h \<le> forward_amount amount hs"
    using 3 rest by (simp add: only_discounts_def)
  have "hop_fee g c h \<le> ComputeFee c' (MilliSatoshi h)"
    using 3(3) by (auto simp: hop_fee_def Let_def h only_discounts_def intro: nodeFee_discount)
  also have "\<dots> \<le> ComputeFee c' (forward_amount amount hs)" using IH by (rule ComputeFee_mono)
  finally have "addSaturating (MilliSatoshi h) (hop_fee g c h) \<le> forward_amount amount (h # hs)"
    using IH by (simp add: Let_def h addSaturating_mono)
  then show ?case using rest by (simp add: price_Cons Let_def del: price.simps forward_amount.simps)
qed simp_all

lemma Fee_le_without:
  assumes "cs \<noteq> []" "only_discounts g cs"
  shows "Fee (newRouteFromChannels src dst amount cs g) \<le> GetFeeWithoutInboundFee (newRouteFromChannels src dst amount cs g)"
proof -
  let ?r = "newRouteFromChannels src dst amount cs g"
  note hops = Hops_newRoute [OF assms(1), of src dst amount g]
  have fee: "unat (Fee ?r) = unat (MilliSatoshi (hd (price g amount cs))) - unat amount"
    using Fee_newRoute [OF assms(1), of src dst amount g] by simp
  show ?thesis
  proof (cases "length cs < 2")
    case True
    with assms(1) obtain c where "cs = [c]" by (cases cs) (auto simp: Suc_lessI)
    then show ?thesis using fee by (simp add: u64_le_iff)
  next
    case False
    have ge: "amount \<le> forward_amount amount hs" for hs
      by (induction hs) (auto simp: Let_def intro: order_trans [OF _ addSaturating_ge(1)])
    with discounts_lower [OF assms, of amount] False fee show ?thesis
      by (simp add: GetFeeWithoutInboundFee_def hops u64_le_iff unat_u64_sub_exact)
  qed
qed

text \<open>A route over given channels.\<close>

lemma ChannelIds_newRoute: "cs \<noteq> [] \<Longrightarrow> ChannelIds (newRouteFromChannels s d a cs g) = map channelId cs"
proof -
  have "ChannelIds r = map channelId (map hop_Channel (Hops r))" for r
    by (simp add: ChannelIds_def channelId_def)
  then show "cs \<noteq> [] \<Longrightarrow> ?thesis" by (simp only: map_channel_newRoute simp_thms)
qed

lemma GetRouteOverChannels_Inr:
  assumes "GetRouteOverChannels g ids amount = Inr r"
  obtains cs where "cs \<noteq> []" "map (channel_at g) ids = map Some cs" "joined cs" "\<forall>c \<in> set cs. IsActive c"
    "r = newRouteFromChannels (Destination (hd cs)) (Source (last cs)) amount cs g"
    "\<forall>hop \<in> set (Hops r). MilliSatoshi hop \<noteq> MaxUint64 \<and> minHtlcMsat (hop_Channel hop) \<le> MilliSatoshi hop
       \<and> MilliSatoshi hop \<le> maxHtlcMsat (hop_Channel hop)"
    "hop_Delay (hd (Hops r)) \<le> MAX_ROUTE_DELAY"
proof -
  define cs where "cs = map the (map (channel_at g) ids)"
  have ok: "ids \<noteq> []" "None \<notin> set (map (channel_at g) ids)" "list_all IsActive cs" "joined cs"
    using assms by (auto simp: GetRouteOverChannels_def Let_def cs_def split: if_splits)
  have "map (channel_at g) ids = map Some cs"
    using ok(2) by (auto simp: cs_def image_iff)
  moreover have "cs \<noteq> []" using ok(1) by (simp add: cs_def)
  moreover have "r = newRouteFromChannels (Destination (hd cs)) (Source (last cs)) amount cs g"
    "\<forall>hop \<in> set (Hops r). MilliSatoshi hop \<noteq> MaxUint64 \<and> minHtlcMsat (hop_Channel hop) \<le> MilliSatoshi hop
       \<and> MilliSatoshi hop \<le> maxHtlcMsat (hop_Channel hop)"
    "hop_Delay (hd (Hops r)) \<le> MAX_ROUTE_DELAY"
    using assms ok unfolding GetRouteOverChannels_def Let_def cs_def [symmetric]
    by (auto simp: list_ex_iff not_less split: if_splits)
  ultimately show ?thesis using that ok by (simp add: list_all_iff)
qed

end
