(* ===== verification/GoHeap.thy ===== *)
theory GoHeap
  imports Prelude
begin

text \<open>
  \<^verbatim>\<open>container/heap\<close> of Go's standard library, as \<^verbatim>\<open>graph/pq.go\<close> uses it: a binary heap in a slice,
  ordered by a \<^verbatim>\<open>Less\<close>.  Locale \<open>weak_order\<close> is what \<^verbatim>\<open>Less\<close> has to promise; under it \<open>heap_push\<close>
  and \<open>heap_pop\<close> keep the heap and its elements, and \<open>heap_pop\<close> returns a least one.  Locale
  \<open>min_queue\<close> is the interface the route search relies on.
\<close>

section \<open>The operations\<close>

definition swap :: "'a list \<Rightarrow> nat \<Rightarrow> nat \<Rightarrow> 'a list" where
  "swap xs i j = xs[i := xs ! j, j := xs ! i]"

abbreviation parent :: "nat \<Rightarrow> nat" where "parent j \<equiv> (j - Suc 0) div 2"

lemma parent_less: "0 < k \<Longrightarrow> parent k < k"
  by auto

function (sequential) heap_up :: "('a \<Rightarrow> 'a \<Rightarrow> bool) \<Rightarrow> 'a list \<Rightarrow> nat \<Rightarrow> 'a list" where
  "heap_up lt xs j =
     (if parent j = j \<or> \<not> lt (xs ! j) (xs ! parent j) then xs
      else heap_up lt (swap xs (parent j) j) (parent j))"
  by pat_completeness auto
termination by (relation "measure (\<lambda>(lt, xs, j). j)") auto

definition least_child :: "('a \<Rightarrow> 'a \<Rightarrow> bool) \<Rightarrow> 'a list \<Rightarrow> nat \<Rightarrow> nat \<Rightarrow> nat" where
  "least_child lt xs i n =
     (let j1 = 2 * i + 1; j2 = j1 + 1 in if j2 < n \<and> lt (xs ! j2) (xs ! j1) then j2 else j1)"

function (sequential) heap_down :: "('a \<Rightarrow> 'a \<Rightarrow> bool) \<Rightarrow> 'a list \<Rightarrow> nat \<Rightarrow> nat \<Rightarrow> 'a list" where
  "heap_down lt xs i n =
     (if 2 * i + 1 \<ge> n then xs
      else let j = least_child lt xs i n in
        if \<not> lt (xs ! j) (xs ! i) then xs else heap_down lt (swap xs i j) j n)"
  by pat_completeness auto
termination
  by (relation "measure (\<lambda>(lt, xs, i, n). n - i)") (auto simp: least_child_def Let_def)

declare heap_up.simps [simp del] heap_down.simps [simp del]

definition heap_push :: "('a \<Rightarrow> 'a \<Rightarrow> bool) \<Rightarrow> 'a list \<Rightarrow> 'a \<Rightarrow> 'a list" where
  "heap_push lt xs x = heap_up lt (xs @ [x]) (length xs)"

text \<open>\<open>heap_pop\<close> is only called on a heap that is not empty.\<close>

definition heap_pop :: "('a \<Rightarrow> 'a \<Rightarrow> bool) \<Rightarrow> 'a list \<Rightarrow> 'a \<times> 'a list" where
  "heap_pop lt xs =
     (let n = length xs - 1;
          ys = heap_down lt (swap xs 0 n) 0 n in
      (last ys, butlast ys))"

section \<open>The elements stay\<close>

lemma length_swap [simp]: "length (swap xs i j) = length xs"
  by (simp add: swap_def)

lemma mset_swap: "i < length xs \<Longrightarrow> j < length xs \<Longrightarrow> mset (swap xs i j) = mset xs"
  unfolding swap_def by (rule mset_swap)

lemma nth_swap:
  "i < length xs \<Longrightarrow> j < length xs \<Longrightarrow>
     swap xs i j ! k = (if k = j then xs ! i else if k = i then xs ! j else xs ! k)"
  by (auto simp: swap_def nth_list_update)

lemma mset_heap_up: "j < length xs \<Longrightarrow> mset (heap_up lt xs j) = mset xs"
proof (induction lt xs j rule: heap_up.induct)
  case (1 lt xs j)
  have "parent j < length xs" using 1(2) by linarith
  with 1 show ?case by (simp add: heap_up.simps [of lt xs j] mset_swap)
qed

lemma least_child_bounds:
  "2 * i + 1 < n \<Longrightarrow> i < least_child lt xs i n \<and> least_child lt xs i n < n \<and>
     (least_child lt xs i n = 2 * i + 1 \<or> least_child lt xs i n = 2 * i + 2)"
  by (auto simp: least_child_def Let_def)

lemma heap_down_stop:
  "\<not> 2 * i + 1 < n \<Longrightarrow> heap_down lt xs i n = xs"
  "2 * i + 1 < n \<Longrightarrow> \<not> lt (xs ! least_child lt xs i n) (xs ! i) \<Longrightarrow> heap_down lt xs i n = xs"
  by (simp_all add: heap_down.simps [of lt xs i n] Let_def)

lemma heap_down_go:
  "2 * i + 1 < n \<Longrightarrow> lt (xs ! least_child lt xs i n) (xs ! i) \<Longrightarrow>
     heap_down lt xs i n = heap_down lt (swap xs i (least_child lt xs i n)) (least_child lt xs i n) n"
  by (simp add: heap_down.simps [of lt xs i n] Let_def)

text \<open>\<open>heap_down\<close> keeps the elements, and does not touch those from \<open>n\<close> on.\<close>

lemma heap_down_frame:
  "n \<le> length xs \<Longrightarrow> mset (heap_down lt xs i n) = mset xs \<and> (\<forall>k \<ge> n. heap_down lt xs i n ! k = xs ! k)"
proof (induction lt xs i n rule: heap_down.induct)
  case (1 lt xs i n)
  show ?case
  proof (cases "2 * i + 1 < n \<and> lt (xs ! least_child lt xs i n) (xs ! i)")
    case True
    note b = least_child_bounds [of i n lt xs] 
    have "mset (swap xs i (least_child lt xs i n)) = mset xs"
      using True b 1(2) by (intro mset_swap) auto
    moreover have "swap xs i (least_child lt xs i n) ! k = xs ! k" if "k \<ge> n" for k
      using True b 1(2) that by (subst nth_swap) auto
    ultimately show ?thesis using True 1 heap_down_go [of i n lt xs] by auto
  next
    case False
    then have "heap_down lt xs i n = xs" using heap_down_stop [of i n lt xs] by blast
    then show ?thesis by simp
  qed
qed

lemma length_heap_down: "n \<le> length xs \<Longrightarrow> length (heap_down lt xs i n) = length xs"
  using heap_down_frame [of n xs lt i] mset_eq_length by blast

lemma heap_push_mset: "mset (heap_push lt xs x) = add_mset x (mset xs)"
  by (simp add: heap_push_def mset_heap_up)

lemma heap_pop_top:
  assumes "xs \<noteq> []"
  shows "fst (heap_pop lt xs) = hd xs"
proof -
  let ?n = "length xs - 1"
  have n: "?n < length xs" "0 < length xs" using assms by auto
  let ?ys = "heap_down lt (swap xs 0 ?n) 0 ?n"
  have len: "length ?ys = length xs" by (simp add: length_heap_down)
  then have "last ?ys = ?ys ! ?n" using assms by (metis last_conv_nth length_0_conv)
  also have "\<dots> = swap xs 0 ?n ! ?n" by (simp add: heap_down_frame)
  finally show ?thesis
    using n assms by (simp add: heap_pop_def Let_def nth_swap hd_conv_nth)
qed

lemma mset_last_butlast: "zs \<noteq> [] \<Longrightarrow> mset zs = add_mset (last zs) (mset (butlast zs))"
  by (cases zs rule: rev_cases) auto

lemma heap_pop_mset:
  assumes "xs \<noteq> []" "heap_pop lt xs = (x, ys)"
  shows "mset xs = add_mset x (mset ys)"
proof -
  let ?n = "length xs - 1"
  let ?zs = "heap_down lt (swap xs 0 ?n) 0 ?n"
  have z: "mset ?zs = mset xs"
    using assms(1) by (subst heap_down_frame [THEN conjunct1]) (auto simp: mset_swap)
  then have "?zs \<noteq> []" using assms(1) by auto
  then have "mset ?zs = add_mset (last ?zs) (mset (butlast ?zs))" by (rule mset_last_butlast)
  with z assms(2) show ?thesis by (auto simp: heap_pop_def Let_def)
qed

lemma heap_pop_length: "xs \<noteq> [] \<Longrightarrow> length (snd (heap_pop lt xs)) = length xs - 1"
  by (simp add: heap_pop_def Let_def length_heap_down)

section \<open>The order\<close>

text \<open>What \<^verbatim>\<open>heap.Interface\<close> asks of \<^verbatim>\<open>Less\<close>: a strict order in which being equally placed is
  transitive.\<close>

locale weak_order =
  fixes lt :: "'a \<Rightarrow> 'a \<Rightarrow> bool"
  assumes irrefl: "\<not> lt a a"
    and trans_lt: "lt a b \<Longrightarrow> lt b c \<Longrightarrow> lt a c"
    and trans_nlt: "\<not> lt b a \<Longrightarrow> \<not> lt c b \<Longrightarrow> \<not> lt c a"
begin

definition is_heap :: "'a list \<Rightarrow> nat \<Rightarrow> bool" where
  "is_heap xs n \<longleftrightarrow> (\<forall>k. 0 < k \<and> k < n \<longrightarrow> \<not> lt (xs ! k) (xs ! parent k))"

text \<open>A heap but for the link from \<open>j\<close> to its parent, and one but for those from \<open>i\<close>'s children.\<close>

definition heap_above :: "'a list \<Rightarrow> nat \<Rightarrow> nat \<Rightarrow> bool" where
  "heap_above xs n j \<longleftrightarrow>
     (\<forall>k. 0 < k \<and> k < n \<and> k \<noteq> j \<longrightarrow> \<not> lt (xs ! k) (xs ! parent k)) \<and>
     (\<forall>k. 0 < k \<and> k < n \<and> parent k = j \<and> 0 < j \<longrightarrow> \<not> lt (xs ! k) (xs ! parent j))"

definition heap_below :: "'a list \<Rightarrow> nat \<Rightarrow> nat \<Rightarrow> bool" where
  "heap_below xs n i \<longleftrightarrow>
     (\<forall>k. 0 < k \<and> k < n \<and> parent k \<noteq> i \<longrightarrow> \<not> lt (xs ! k) (xs ! parent k)) \<and>
     (\<forall>k. 0 < k \<and> k < n \<and> parent k = i \<and> 0 < i \<longrightarrow> \<not> lt (xs ! k) (xs ! parent i))"

lemma asym: "lt a b \<Longrightarrow> \<not> lt b a"
  using irrefl trans_lt by blast

lemma heap_above_step:
  assumes ok: "heap_above xs n j" and j: "0 < j" "j < n" "n \<le> length xs" and lt: "lt (xs ! j) (xs ! parent j)"
  shows "heap_above (swap xs (parent j) j) n (parent j)"
proof -
  let ?p = "parent j" and ?ys = "swap xs (parent j) j"
  have p: "?p < length xs" "j < length xs" "?p < j" using j by auto
  have at: "?ys ! k = (if k = j then xs ! ?p else if k = ?p then xs ! j else xs ! k)" for k
    using p by (simp add: nth_swap)
  note up = ok [unfolded heap_above_def, THEN conjunct1, rule_format]
  note kids = ok [unfolded heap_above_def, THEN conjunct2, rule_format]
  have "\<not> lt (?ys ! k) (?ys ! parent k)" if k: "0 < k" "k < n" "k \<noteq> ?p" for k
  proof -
    consider "k = j" | "k \<noteq> j" "parent k = j" | "k \<noteq> j" "parent k = ?p" | "k \<noteq> j" "parent k \<noteq> j" "parent k \<noteq> ?p"
      by blast
    then show ?thesis
    proof cases
      case 1 then show ?thesis using asym [OF lt] p by (simp add: at)
    next
      case 2 then show ?thesis using kids [of k] k j p by (simp add: at)
    next
      case 3
      then have "\<not> lt (xs ! k) (xs ! ?p)" using up [of k] k by simp
      then have "\<not> lt (xs ! k) (xs ! j)" using lt trans_lt by blast
      with 3 k p show ?thesis by (simp add: at)
    next
      case 4 then show ?thesis using up [of k] k by (simp add: at)
    qed
  qed
  moreover have "\<not> lt (?ys ! k) (?ys ! parent ?p)" if k: "0 < k" "k < n" "parent k = ?p" "0 < ?p" for k
  proof -
    have pp: "parent ?p < ?p" using k(4) by (rule parent_less)
    have top: "\<not> lt (xs ! ?p) (xs ! parent ?p)" using up [of ?p] k p j by simp
    show ?thesis
    proof (cases "k = j")
      case True then show ?thesis using top pp p by (simp add: at)
    next
      case False
      then have "\<not> lt (xs ! k) (xs ! ?p)" using up [of k] k by simp
      then have "\<not> lt (xs ! k) (xs ! parent ?p)" using top trans_nlt by blast
      moreover have "k \<noteq> ?p" using k by auto
      ultimately show ?thesis using False pp p by (simp add: at)
    qed
  qed
  ultimately show ?thesis unfolding heap_above_def by blast
qed

lemma heap_up_heap:
  "heap_above xs n j \<Longrightarrow> j < n \<Longrightarrow> n \<le> length xs \<Longrightarrow> is_heap (heap_up lt xs j) n"
proof (induction j arbitrary: xs rule: less_induct)
  case (less j)
  show ?case
  proof (cases "parent j = j \<or> \<not> lt (xs ! j) (xs ! parent j)")
    case True
    then have "0 < j \<Longrightarrow> \<not> lt (xs ! j) (xs ! parent j)" by auto
    with less(2) have "is_heap xs n" unfolding is_heap_def heap_above_def by metis
    with True show ?thesis by (simp add: heap_up.simps [of lt xs j])
  next
    case False
    then have j: "0 < j" by (cases j) auto
    then have "is_heap (heap_up lt (swap xs (parent j) j) (parent j)) n"
      using False less by (intro less.IH heap_above_step) auto
    with False show ?thesis by (simp add: heap_up.simps [of lt xs j])
  qed
qed

lemma least_child_least:
  assumes "k < n" "parent k = i" "0 < k"
  shows "\<not> lt (xs ! k) (xs ! least_child lt xs i n)"
proof -
  from assms have "k = 2 * i + 1 \<or> k = 2 * i + 2" by auto
  then show ?thesis
  proof
    assume "k = 2 * i + 1"
    then show ?thesis using irrefl asym by (simp add: least_child_def Let_def)
  next
    assume "k = 2 * i + 2"
    then show ?thesis using irrefl assms(1) by (simp add: least_child_def Let_def)
  qed
qed

lemma heap_below_step:
  assumes ok: "heap_below xs n i" and i: "2 * i + 1 < n" "n \<le> length xs"
    and j: "j = least_child lt xs i n" and lt: "lt (xs ! j) (xs ! i)"
  shows "heap_below (swap xs i j) n j"
proof -
  let ?ys = "swap xs i j"
  have b: "i < j" "j < n" "parent j = i" "0 < j"
    using least_child_bounds [OF i(1), of lt xs] by (auto simp: j)
  have at: "?ys ! k = (if k = j then xs ! i else if k = i then xs ! j else xs ! k)" for k
    using b i by (simp add: nth_swap)
  note up = ok [unfolded heap_below_def, THEN conjunct1, rule_format]
  note kids = ok [unfolded heap_below_def, THEN conjunct2, rule_format]
  have "\<not> lt (?ys ! k) (?ys ! parent k)" if k: "0 < k" "k < n" "parent k \<noteq> j" for k
  proof -
    consider "k = j" | "k \<noteq> j" "parent k = i" | "k = i" | "k \<noteq> j" "k \<noteq> i" "parent k \<noteq> i" by blast
    then show ?thesis
    proof cases
      case 1 then show ?thesis using asym [OF lt] b by (simp add: at)
    next
      case 2
      then have "k \<noteq> i" using k by auto
      moreover have "\<not> lt (xs ! k) (xs ! j)" unfolding j using least_child_least k 2 by blast
      ultimately show ?thesis using 2 b by (simp add: at)
    next
      case 3
      then have "parent k < i" using k by auto
      moreover have "\<not> lt (xs ! j) (xs ! parent i)" using kids [of j] b 3 k by simp
      ultimately show ?thesis using 3 b by (simp add: at)
    next
      case 4 then show ?thesis using up [of k] k by (simp add: at)
    qed
  qed
  moreover have "\<not> lt (?ys ! k) (?ys ! parent j)" if k: "0 < k" "k < n" "parent k = j" for k
  proof -
    have "\<not> lt (xs ! k) (xs ! j)" using up [of k] k b by simp
    moreover have "k \<noteq> j" "k \<noteq> i" using k b by auto
    ultimately show ?thesis using b by (simp add: at)
  qed
  ultimately show ?thesis unfolding heap_below_def by blast
qed

lemma heap_down_heap:
  "heap_below xs n i \<Longrightarrow> n \<le> length xs \<Longrightarrow> is_heap (heap_down lt xs i n) n"
proof (induction "n - i" arbitrary: xs i rule: less_induct)
  case less
  show ?case
  proof (cases "2 * i + 1 < n \<and> lt (xs ! least_child lt xs i n) (xs ! i)")
    case True
    then have "is_heap (heap_down lt (swap xs i (least_child lt xs i n)) (least_child lt xs i n) n) n"
      using less(2,3) least_child_bounds [of i n lt xs]
      by (intro less(1) heap_below_step) (auto intro: diff_less_mono2)
    with True show ?thesis using heap_down_go [of i n lt xs] by simp
  next
    case False
    have "\<not> lt (xs ! k) (xs ! parent k)" if k: "0 < k" "k < n" for k
    proof (cases "parent k = i")
      case True
      then have "2 * i + 1 < n" using k by auto
      with False have "\<not> lt (xs ! least_child lt xs i n) (xs ! i)" by blast
      with least_child_least [OF k(2) True k(1)] show ?thesis
        unfolding True using trans_nlt by blast
    qed (use less(2) k in \<open>auto simp: heap_below_def\<close>)
    moreover have "heap_down lt xs i n = xs" using False heap_down_stop [of i n lt xs] by blast
    ultimately show ?thesis by (simp add: is_heap_def)
  qed
qed

lemma is_heap_least:
  "is_heap xs n \<Longrightarrow> k < n \<Longrightarrow> \<not> lt (xs ! k) (xs ! 0)"
proof (induction k rule: less_induct)
  case (less k)
  show ?case
  proof (cases "k = 0")
    case False
    then have "parent k < k" by auto
    with less have "\<not> lt (xs ! parent k) (xs ! 0)" by auto
    moreover have "\<not> lt (xs ! k) (xs ! parent k)" using less False by (auto simp: is_heap_def)
    ultimately show ?thesis using trans_nlt by blast
  qed (simp add: irrefl)
qed

lemma heap_push_heap:
  assumes "is_heap xs (length xs)"
  shows "is_heap (heap_push lt xs x) (length (heap_push lt xs x))"
proof -
  have "parent k \<noteq> k" if "0 < k" for k using parent_less [OF that] by simp
  then have "heap_above (xs @ [x]) (Suc (length xs)) (length xs)"
    using assms by (auto simp: heap_above_def is_heap_def nth_append less_Suc_eq)
  then have "is_heap (heap_up lt (xs @ [x]) (length xs)) (Suc (length xs))"
    by (intro heap_up_heap) simp_all
  moreover have "length (heap_push lt xs x) = Suc (length xs)"
    using arg_cong [OF heap_push_mset [of lt xs x], of size] by simp
  ultimately show ?thesis by (simp add: heap_push_def)
qed

lemma heap_pop_heap:
  assumes "is_heap xs (length xs)" "xs \<noteq> []"
  shows "is_heap (snd (heap_pop lt xs)) (length (snd (heap_pop lt xs)))"
proof -
  let ?n = "length xs - 1"
  have "heap_below (swap xs 0 ?n) ?n 0"
    using assms by (auto simp: heap_below_def is_heap_def nth_swap)
  then have "is_heap (heap_down lt (swap xs 0 ?n) 0 ?n) ?n" by (rule heap_down_heap) simp
  then show ?thesis
    using assms(2) by (auto simp: heap_pop_def Let_def is_heap_def nth_butlast length_heap_down)
qed

lemma heap_pop_least:
  assumes "is_heap xs (length xs)" "xs \<noteq> []" "y \<in> set xs"
  shows "\<not> lt y (fst (heap_pop lt xs))"
proof -
  obtain k where "k < length xs" "y = xs ! k" using assms(3) by (auto simp: in_set_conv_nth)
  then show ?thesis
    using is_heap_least [OF assms(1)] assms(2) by (simp add: heap_pop_top hd_conv_nth)
qed

end

section \<open>The interface of the route search\<close>

locale min_queue =
  fixes empty :: "'q" and push :: "'q \<Rightarrow> 'a \<Rightarrow> 'q" and pop :: "'q \<Rightarrow> 'a \<times> 'q"
    and elems :: "'q \<Rightarrow> 'a multiset" and valid :: "'q \<Rightarrow> bool" and before :: "'a \<Rightarrow> 'a \<Rightarrow> bool"
  assumes valid_empty: "valid empty" and elems_empty: "elems empty = {#}"
    and valid_push: "valid q \<Longrightarrow> valid (push q x)"
    and elems_push: "elems (push q x) = add_mset x (elems q)"
    and valid_pop: "valid q \<Longrightarrow> elems q \<noteq> {#} \<Longrightarrow> valid (snd (pop q))"
    and elems_pop: "elems q \<noteq> {#} \<Longrightarrow> elems q = add_mset (fst (pop q)) (elems (snd (pop q)))"
    and pop_least: "valid q \<Longrightarrow> elems q \<noteq> {#} \<Longrightarrow> y \<in># elems q \<Longrightarrow> \<not> before y (fst (pop q))"
begin

lemma push_all_elems: "elems (foldl push q xs) = mset xs + elems q"
  by (induction xs arbitrary: q) (simp_all add: elems_push)

lemma push_all_valid: "valid q \<Longrightarrow> valid (foldl push q xs)"
  by (induction xs arbitrary: q) (simp_all add: valid_push)

lemma pop_member: "elems q \<noteq> {#} \<Longrightarrow> fst (pop q) \<in># elems q"
  using elems_pop by (metis union_single_eq_member)

lemma pop_rest: "elems q \<noteq> {#} \<Longrightarrow> x \<in># elems (snd (pop q)) \<Longrightarrow> x \<in># elems q"
  using elems_pop by (metis insert_iff set_mset_add_mset_insert)

end

end
