(* ===== verification/RouteSearch.thy ===== *)
theory RouteSearch
  imports Routes GoHeap
begin

text \<open>
  The route search (\<^verbatim>\<open>graph/pathfinder.go\<close>, \<^verbatim>\<open>graph/pq.go\<close>): labels, the queue, one turn of the
  loop (\<open>search_step\<close>), the loop and the searches built on it.  The loop ends: it is a total
  function, by a measure in which a label weighs more than everything it can be extended to.
  \<open>mlog\<close> is \<^verbatim>\<open>math.Log\<close>, \<open>mpow\<close> is \<^verbatim>\<open>math.Pow\<close>.  The ranges over maps go in the order of the
  association lists of the graph: nothing is assumed of that order.
\<close>

section \<open>Labels and requests\<close>

datatype label =
  Label (l_channel: Channel) (l_id: string) (l_hops: int) (l_fee: u64) (l_cost: u64)
    (l_amount: u64) (l_delay: u64) (l_next: "label option") (l_final: bool)

record searchRequest =
  req_src :: node_id
  req_dst :: node_id
  firstHop :: "Channel option"
  lastHop :: "Channel option"
  req_amount :: u64
  maxHops :: int
  maxFee :: u64
  req_exclude :: "string set"
  riskPPM :: u64
  nodePenalty :: "(node_id \<times> rat) list"

text \<open>The cost of a channel to the search; a nil \<^verbatim>\<open>nodePenalty\<close> is the empty list.\<close>

definition channelCost :: "(rat \<Rightarrow> rat) \<Rightarrow> searchRequest \<Rightarrow> Channel \<Rightarrow> u64 \<Rightarrow> u64" where
  "channelCost mlog req channel amount =
     (let cost = uncertaintyCost mlog channel amount (riskPPM req) in
      if cost = MaxUint64 \<or> nodePenalty req = [] then cost
      else addSaturating cost
        (nodeCost (case map_of (nodePenalty req) (Source channel) of None \<Rightarrow> 0 | Some p \<Rightarrow> p) amount (riskPPM req)))"

definition label_less :: "label \<Rightarrow> label \<Rightarrow> bool" where
  "label_less a b = (if l_cost a \<noteq> l_cost b then l_cost a < l_cost b else l_hops a < l_hops b)"

fun path :: "label \<Rightarrow> Channel list" where
  "path (Label c i hops fee cost amount delay None final) = [c]"
| "path (Label c i hops fee cost amount delay (Some l) final) = c # path l"

section \<open>The two dominance tables\<close>

record mark =
  m_hops :: int
  m_fee :: u64
  m_cost :: u64

record expansion =
  x_hops :: int
  x_fee :: u64
  withOutbound :: u64
  uncertainty :: u64

definition dominated :: "(string \<Rightarrow> mark list) \<Rightarrow> string \<Rightarrow> int \<Rightarrow> u64 \<Rightarrow> u64 \<Rightarrow> bool \<Rightarrow> bool" where
  "dominated best i hops fee cost popped =
     list_ex (\<lambda>m. m_hops m \<le> hops \<and> m_fee m \<le> fee \<and> m_cost m \<le> cost \<and>
        \<not> (popped \<and> m_hops m = hops \<and> m_fee m = fee \<and> m_cost m = cost)) (best i)"

definition record_mark ::
    "(string \<Rightarrow> mark list) \<Rightarrow> string \<Rightarrow> int \<Rightarrow> u64 \<Rightarrow> u64 \<Rightarrow> (string \<Rightarrow> mark list)" where
  "record_mark best i hops fee cost =
     (let kept = filter (\<lambda>m. \<not> (hops \<le> m_hops m \<and> fee \<le> m_fee m \<and> cost \<le> m_cost m)) (best i) in
      best(i := kept @ [\<lparr>m_hops = hops, m_fee = fee, m_cost = cost\<rparr>]))"

definition beats :: "expansion \<Rightarrow> expansion \<Rightarrow> bool" where
  "beats x e = (x_hops x \<le> x_hops e \<and> x_fee x \<le> x_fee e \<and> withOutbound x \<le> withOutbound e
                \<and> uncertainty x \<le> uncertainty e)"

definition addExpansion ::
    "(node_id \<Rightarrow> expansion list) \<Rightarrow> node_id \<Rightarrow> expansion \<Rightarrow> (node_id \<Rightarrow> expansion list) option" where
  "addExpansion expanded u e =
     (let list = expanded u in
      if list_ex (\<lambda>x. beats x e) list then None
      else Some (expanded(u := filter (\<lambda>x. \<not> beats e x) list @ [e])))"

section \<open>One turn of the loop\<close>

record search_state =
  best :: "string \<Rightarrow> mark list"
  expanded :: "node_id \<Rightarrow> expansion list"
  queue :: "label list"

definition self_of :: "searchRequest \<Rightarrow> node_id" where
  "self_of req = (case firstHop req of None \<Rightarrow> [] | Some f \<Rightarrow> Source f)"

definition firstHopId :: "searchRequest \<Rightarrow> channel_id" where
  "firstHopId req =
     (case firstHop req of None \<Rightarrow> [] | Some f \<Rightarrow> dir_id (ShortChannelId f) (Source f) (req_src req))"

definition pathHops :: "searchRequest \<Rightarrow> int" where
  "pathHops req = (if firstHop req = None then maxHops req else maxHops req - 1)"

text \<open>The channels into \<open>u\<close>, as the two nested loops over \<^verbatim>\<open>g.Inbound[u]\<close> visit them.\<close>

definition edges_into :: "Graph \<Rightarrow> node_id \<Rightarrow> (node_id \<times> scid) list" where
  "edges_into g u = concat (map (\<lambda>(w, edge). map (Pair w) edge) (inbound_of g u))"

definition push_label :: "label \<Rightarrow> search_state \<Rightarrow> search_state" where
  "push_label l st = st\<lparr>queue := heap_push label_less (queue st) l\<rparr>"

text \<open>A channel into \<^verbatim>\<open>dst\<close>, for a search without a last hop.\<close>

definition seed_over ::
    "(rat \<Rightarrow> rat) \<Rightarrow> Graph \<Rightarrow> searchRequest \<Rightarrow> search_state \<Rightarrow> node_id \<times> scid \<Rightarrow> search_state" where
  "seed_over mlog g req st e =
     (let (v, scid) = e; i = dir_id scid v (req_dst req) in
      if v \<in> req_exclude req then st
      else case channel_at g i of
        None \<Rightarrow> st
      | Some channel \<Rightarrow>
          if i \<in> req_exclude req \<or> \<not> CanForward channel (req_amount req) then st
          else
            let cost = channelCost mlog req channel (req_amount req) in
            if pathHops req < 1 \<or> cost = MaxUint64 \<or> dominated (best st) i 1 0 cost False then st
            else push_label (Label channel i 1 0 cost (req_amount req) INITIAL_DELAY None False)
                   (st\<lparr>best := record_mark (best st) i 1 0 cost\<rparr>))"

definition search_start :: "(rat \<Rightarrow> rat) \<Rightarrow> Graph \<Rightarrow> searchRequest \<Rightarrow> search_state" where
  "search_start mlog g req =
     (let st = \<lparr>best = (\<lambda>_. []), expanded = (\<lambda>_. []), queue = []\<rparr> in
      case lastHop req of
        Some c \<Rightarrow> push_label (Label c [] 1 0 0 (req_amount req) INITIAL_DELAY None False) st
      | None \<Rightarrow> foldl (seed_over mlog g req) st (edges_into g (req_dst req)))"

text \<open>One channel into the node that \<open>current\<close> leaves from.\<close>

definition extend_over ::
    "(rat \<Rightarrow> rat) \<Rightarrow> Graph \<Rightarrow> searchRequest \<Rightarrow> label \<Rightarrow> u64 \<Rightarrow> u64 \<Rightarrow> search_state \<Rightarrow> node_id \<times> scid \<Rightarrow> search_state" where
  "extend_over mlog g req current outboundFee delay st e =
     (let (w, scid) = e; u = Source (l_channel current); i = dir_id scid w u in
      if w \<in> req_exclude req \<or> w = self_of req \<or> w = req_dst req then st
      else case channel_at g i of
        None \<Rightarrow> st
      | Some channel \<Rightarrow>
          if i \<in> req_exclude req then st
          else
            let fee = nodeFee outboundFee (inboundFee g i (addSaturating (l_amount current) outboundFee));
                totalFee = addSaturating (l_fee current) fee in
            if totalFee > maxFee req \<or> totalFee = MaxUint64 then st
            else
              let amount = addSaturating (l_amount current) fee in
              if amount = MaxUint64 \<or> \<not> CanForward channel amount then st
              else
                let uncertain = channelCost mlog req channel amount;
                    cost = addSaturating (addSaturating (l_cost current) fee) uncertain in
                if cost = MaxUint64 then st
                else
                  let hops = l_hops current + 1 in
                  if dominated (best st) i hops totalFee cost False then st
                  else push_label (Label channel i hops totalFee cost amount delay (Some current) False)
                         (st\<lparr>best := record_mark (best st) i hops totalFee cost\<rparr>))"

text \<open>\<^const>\<open>Inr\<close> is the path returned, \<^const>\<open>Inl\<close> the state for the next turn.\<close>

definition search_step ::
    "(rat \<Rightarrow> rat) \<Rightarrow> Graph \<Rightarrow> searchRequest \<Rightarrow> search_state \<Rightarrow> search_state + label" where
  "search_step mlog g req st0 =
     (let (current, q) = heap_pop label_less (queue st0); st = st0\<lparr>queue := q\<rparr> in
      if l_final current then Inr current
      else if l_id current \<noteq> [] \<and> dominated (best st) (l_id current) (l_hops current) (l_fee current) (l_cost current) True
      then Inl st
      else
        let u = Source (l_channel current);
            outboundFee = ComputeFee (l_channel current) (l_amount current);
            delay = l_delay current + Delay (l_channel current) in
        if u = req_src req then
          (case firstHop req of
             None \<Rightarrow> Inr current
           | Some f \<Rightarrow>
               let fee = nodeFee outboundFee (inboundFee g (firstHopId req) (addSaturating (l_amount current) outboundFee));
                   totalFee = addSaturating (l_fee current) fee in
               if l_hops current + 1 \<le> maxHops req \<and> totalFee \<le> maxFee req \<and> totalFee < MaxUint64 \<and>
                  addSaturating (l_amount current) fee < MaxUint64 \<and> delay \<le> MAX_ROUTE_DELAY
               then Inl (push_label (Label f [] (l_hops current + 1) totalFee (addSaturating (l_cost current) fee)
                      (l_amount current + fee) delay (Some current) True) st)
               else Inl st)
        else if l_hops current + 1 > pathHops req \<or> delay > MAX_ROUTE_DELAY then Inl st
        else
          case addExpansion (expanded st) u
                 \<lparr>x_hops = l_hops current, x_fee = l_fee current,
                  withOutbound = addSaturating (l_fee current) outboundFee,
                  uncertainty = l_cost current - l_fee current\<rparr> of
            None \<Rightarrow> Inl st
          | Some ex \<Rightarrow>
              Inl (foldl (extend_over mlog g req current outboundFee delay) (st\<lparr>expanded := ex\<rparr>) (edges_into g u)))"

section \<open>The queue\<close>

interpretation labels: weak_order label_less
  by unfold_locales (auto simp: label_less_def split: if_splits)

interpretation lq: min_queue "[]" "heap_push label_less" "heap_pop label_less" mset
  "\<lambda>q. labels.is_heap q (length q)" label_less
proof
  show "labels.is_heap [] (length [])" by (simp add: labels.is_heap_def)
  show "mset [] = {#}" by simp
  show "labels.is_heap (heap_push label_less q x) (length (heap_push label_less q x))"
    if "labels.is_heap q (length q)" for q x using labels.heap_push_heap [OF that] .
  show "mset (heap_push label_less q x) = add_mset x (mset q)" for q x by (rule heap_push_mset)
  show "labels.is_heap (snd (heap_pop label_less q)) (length (snd (heap_pop label_less q)))"
    if "labels.is_heap q (length q)" "mset q \<noteq> {#}" for q using labels.heap_pop_heap that by simp
  show "mset q = add_mset (fst (heap_pop label_less q)) (mset (snd (heap_pop label_less q)))"
    if "mset q \<noteq> {#}" for q using heap_pop_mset [of q label_less] that by simp
  show "\<not> label_less y (fst (heap_pop label_less q))"
    if "labels.is_heap q (length q)" "mset q \<noteq> {#}" "y \<in># mset q" for q y
    using labels.heap_pop_least that by simp
qed

section \<open>The loop ends\<close>

text \<open>
  A label weighs \<open>M ^ (K - hops)\<close>: with \<open>M\<close> above the number of channels a node can be extended
  by, it weighs more than all the labels, one hop longer, that it is replaced by.
\<close>

definition branching :: "Graph \<Rightarrow> nat" where
  "branching g = 2 + sum_list (map (\<lambda>(d, m). sum_list (map (\<lambda>(s, e). length e) m)) (Inbound g))"

definition weight :: "Graph \<Rightarrow> searchRequest \<Rightarrow> label \<Rightarrow> nat" where
  "weight g req l = (if l_final l then 1 else branching g ^ nat (maxHops req + 1 - l_hops l))"

definition queue_weight :: "Graph \<Rightarrow> searchRequest \<Rightarrow> search_state \<Rightarrow> nat" where
  "queue_weight g req st = sum_mset (image_mset (weight g req) (mset (queue st)))"

lemma member_le_sum_list_nat: "(x :: nat) \<in> set xs \<Longrightarrow> x \<le> sum_list xs"
  by (rule member_le_sum_list) simp_all

lemma length_edges_into: "length (edges_into g u) + 2 \<le> branching g"
proof -
  have "length (edges_into g u) \<le> sum_list (map (\<lambda>(d, m). sum_list (map (\<lambda>(s, e). length e) m)) (Inbound g))"
  proof (cases "map_of (Inbound g) u")
    case None
    then show ?thesis by (simp add: edges_into_def inbound_of_def)
  next
    case (Some m)
    have "length (edges_into g u) = sum_list (map (\<lambda>(s, e). length e) m)"
      using Some by (simp add: edges_into_def inbound_of_def length_concat split_def comp_def)
    also have "\<dots> \<le> sum_list (map (\<lambda>(d, m). sum_list (map (\<lambda>(s, e). length e) m)) (Inbound g))"
      using map_of_SomeD [OF Some] by (intro member_le_sum_list_nat) force
    finally show ?thesis .
  qed
  then show ?thesis by (simp add: branching_def)
qed

lemma branching_pos: "2 \<le> branching g"
  by (simp add: branching_def)

lemma weight_pos: "0 < weight g req l"
  using branching_pos [of g] by (simp add: weight_def)

lemma queue_weight_push [simp]:
  "queue_weight g req (push_label l st) = weight g req l + queue_weight g req st"
  by (simp add: queue_weight_def push_label_def heap_push_mset)

lemma queue_weight_tables [simp]:
  "queue_weight g req (st\<lparr>best := b\<rparr>) = queue_weight g req st"
  "queue_weight g req (st\<lparr>expanded := x\<rparr>) = queue_weight g req st"
  by (simp_all add: queue_weight_def)

lemma pathHops_le: "pathHops req \<le> maxHops req"
  by (simp add: pathHops_def)

lemma extend_over_weight:
  assumes "l_hops cur + 1 \<le> maxHops req"
  shows "queue_weight g req (extend_over mlog g req cur out d st e)
    \<le> queue_weight g req st + branching g ^ nat (maxHops req - l_hops cur)"
proof -
  have "maxHops req + 1 - (l_hops cur + 1) = maxHops req - l_hops cur" by simp
  then show ?thesis
    by (simp add: extend_over_def Let_def split_beta weight_def split: option.split)
qed

lemma extend_all_weight:
  assumes "l_hops cur + 1 \<le> maxHops req"
  shows "queue_weight g req (foldl (extend_over mlog g req cur out d) st es)
    \<le> queue_weight g req st + length es * branching g ^ nat (maxHops req - l_hops cur)"
proof (induction es arbitrary: st)
  case (Cons e es)
  show ?case
    using Cons.IH [of "extend_over mlog g req cur out d st e"] extend_over_weight [OF assms, of g mlog out d st e]
    by simp
qed simp

text \<open>The ways a turn can go on.\<close>

lemma search_step_Inl:
  assumes step: "search_step mlog g req st = Inl st'" and pop: "heap_pop label_less (queue st) = (cur, q)"
  obtains (dropped) "\<not> l_final cur" "st' = st\<lparr>queue := q\<rparr>"
  | (first_hop) f fee where "\<not> l_final cur" "Source (l_channel cur) = req_src req" "firstHop req = Some f"
      "fee = nodeFee (ComputeFee (l_channel cur) (l_amount cur)) (inboundFee g (firstHopId req)
               (addSaturating (l_amount cur) (ComputeFee (l_channel cur) (l_amount cur))))"
      "l_hops cur + 1 \<le> maxHops req" "addSaturating (l_fee cur) fee \<le> maxFee req"
      "addSaturating (l_fee cur) fee \<noteq> MaxUint64" "addSaturating (l_amount cur) fee \<noteq> MaxUint64"
      "l_delay cur + Delay (l_channel cur) \<le> MAX_ROUTE_DELAY"
      "st' = push_label (Label f [] (l_hops cur + 1) (addSaturating (l_fee cur) fee) (addSaturating (l_cost cur) fee)
               (l_amount cur + fee) (l_delay cur + Delay (l_channel cur)) (Some cur) True) (st\<lparr>queue := q\<rparr>)"
  | (extended) ex where "\<not> l_final cur" "Source (l_channel cur) \<noteq> req_src req" "l_hops cur + 1 \<le> pathHops req"
      "l_delay cur + Delay (l_channel cur) \<le> MAX_ROUTE_DELAY"
      "st' = foldl (extend_over mlog g req cur (ComputeFee (l_channel cur) (l_amount cur))
               (l_delay cur + Delay (l_channel cur))) (st\<lparr>queue := q, expanded := ex\<rparr>)
               (edges_into g (Source (l_channel cur)))"
proof -
  have open_label: "\<not> l_final cur" using step pop by (auto simp: search_step_def)
  note eq = step [unfolded search_step_def pop Let_def split_conv if_not_P [OF open_label]]
  let ?dominated = "l_id cur \<noteq> [] \<and> dominated (best (st\<lparr>queue := q\<rparr>)) (l_id cur) (l_hops cur) (l_fee cur) (l_cost cur) True"
  have searched: "st' = st\<lparr>queue := q\<rparr>" if dom: ?dominated
    using eq [unfolded if_P [OF dom]] by simp
  consider "st' = st\<lparr>queue := q\<rparr>"
    | "Source (l_channel cur) = req_src req" "st' \<noteq> st\<lparr>queue := q\<rparr>"
        "\<not> (l_id cur \<noteq> [] \<and> dominated (best (st\<lparr>queue := q\<rparr>)) (l_id cur) (l_hops cur) (l_fee cur) (l_cost cur) True)"
    | "Source (l_channel cur) \<noteq> req_src req" "st' \<noteq> st\<lparr>queue := q\<rparr>"
        "\<not> (l_id cur \<noteq> [] \<and> dominated (best (st\<lparr>queue := q\<rparr>)) (l_id cur) (l_hops cur) (l_fee cur) (l_cost cur) True)"
    using searched by blast
  then show ?thesis
  proof cases
    case 1 then show ?thesis using open_label by (intro dropped)
  next
    case 2
    then obtain f where f: "firstHop req = Some f" using eq by (cases "firstHop req") auto
    show ?thesis
      using eq 2 by (intro first_hop [OF open_label 2(1) f refl])
        (auto simp: f u64_less_Max_iff addSaturating_eq_plus split: if_splits)
  next
    case 3
    then obtain ex where "addExpansion (expanded (st\<lparr>queue := q\<rparr>)) (Source (l_channel cur))
                 \<lparr>x_hops = l_hops cur, x_fee = l_fee cur,
                  withOutbound = addSaturating (l_fee cur) (ComputeFee (l_channel cur) (l_amount cur)),
                  uncertainty = l_cost cur - l_fee cur\<rparr> = Some ex"
      using eq by (auto split: if_splits option.splits)
    with 3 eq show ?thesis
      by (intro extended [OF open_label 3(1)]) (auto split: if_splits)
  qed
qed

lemma search_step_weight:
  assumes "search_step mlog g req st = Inl st'" "queue st \<noteq> []"
  shows "queue_weight g req st' < queue_weight g req st"
proof -
  obtain cur q where pop: "heap_pop label_less (queue st) = (cur, q)" by fastforce
  let ?st = "st\<lparr>queue := q\<rparr>" and ?M = "branching g"
  have W: "queue_weight g req st = weight g req cur + queue_weight g req ?st"
    using heap_pop_mset [OF assms(2) pop] by (simp add: queue_weight_def)
  have long: "l_hops cur + 1 \<le> maxHops req \<Longrightarrow>
      nat (maxHops req + 1 - l_hops cur) = Suc (nat (maxHops req - l_hops cur))" by simp
  have "queue_weight g req st' < weight g req cur + queue_weight g req ?st"
    using assms(1) pop
  proof (cases rule: search_step_Inl)
    case dropped
    then show ?thesis using weight_pos [of g req cur] by simp
  next
    case (first_hop f fee)
    have "1 < ?M" using branching_pos [of g] by simp
    then have "1 < ?M ^ Suc (nat (maxHops req - l_hops cur))" by (rule power_gt1)
    with first_hop show ?thesis by (simp add: weight_def long)
  next
    case (extended ex)
    let ?u = "Source (l_channel cur)" and ?P = "?M ^ nat (maxHops req - l_hops cur)"
    have hops: "l_hops cur + 1 \<le> maxHops req" using extended(3) pathHops_le [of req] by simp
    have "queue_weight g req st' \<le> queue_weight g req ?st + length (edges_into g ?u) * ?P"
      unfolding extended(5)
      using extend_all_weight [OF hops, of g mlog _ _ "(st\<lparr>queue := q\<rparr>)\<lparr>expanded := ex\<rparr>" "edges_into g ?u"]
      unfolding queue_weight_tables .
    moreover have "length (edges_into g ?u) * ?P < ?M * ?P"
      using length_edges_into [of g ?u] branching_pos [of g] by (intro mult_strict_right_mono) auto
    moreover have "weight g req cur = ?M * ?P" using extended(1) hops by (simp add: weight_def long)
    ultimately show ?thesis by linarith
  qed
  then show ?thesis using W by simp
qed

text \<open>The loop.\<close>

function search_loop ::
    "(rat \<Rightarrow> rat) \<Rightarrow> Graph \<Rightarrow> searchRequest \<Rightarrow> search_state \<Rightarrow> label option" where
  "search_loop mlog g req st =
     (if queue st = [] then None
      else case search_step mlog g req st of
        Inl st' \<Rightarrow> search_loop mlog g req st'
      | Inr l \<Rightarrow> Some l)"
  by pat_completeness auto
termination
  by (relation "measure (\<lambda>(mlog, g, req, st). queue_weight g req st)") (auto intro: search_step_weight)

declare search_loop.simps [simp del]

definition search :: "(rat \<Rightarrow> rat) \<Rightarrow> Graph \<Rightarrow> searchRequest \<Rightarrow> util_error + Channel list" where
  "search mlog g req =
     (if (map_of (Inbound g) (req_dst req) = None \<or> map_of (Inbound g) (req_src req) = None)
         \<and> req_dst req \<noteq> req_src req
      then Inl ErrNoSuchNode
      else case search_loop mlog g req (search_start mlog g req) of
        None \<Rightarrow> Inl ErrNoRoute
      | Some l \<Rightarrow> Inr (path l))"

section \<open>The searches\<close>

definition searchRoute :: "(rat \<Rightarrow> rat) \<Rightarrow> Graph \<Rightarrow> searchRequest \<Rightarrow> util_error + Route" where
  "searchRoute mlog g req =
     (case search mlog g req of
        Inl e \<Rightarrow> Inl e
      | Inr channels \<Rightarrow> Inr (newRouteFromChannels (req_src req) (req_dst req) (req_amount req) channels g))"

definition GetRoute ::
    "(rat \<Rightarrow> rat) \<Rightarrow> Graph \<Rightarrow> node_id \<Rightarrow> node_id \<Rightarrow> u64 \<Rightarrow> string set \<Rightarrow> int \<Rightarrow> util_error + Route" where
  "GetRoute mlog g src dst amount exclude hops =
     searchRoute mlog g \<lparr>req_src = src, req_dst = dst, firstHop = None, lastHop = None, req_amount = amount,
       maxHops = hops, maxFee = MaxUint64, req_exclude = exclude, riskPPM = 0, nodePenalty = []\<rparr>"

definition circular_request ::
    "Channel \<Rightarrow> Channel \<Rightarrow> u64 \<Rightarrow> string set \<Rightarrow> int \<Rightarrow> u64 \<Rightarrow> searchRequest" where
  "circular_request out inc amount exclude hops fee =
     \<lparr>req_src = Destination out, req_dst = Source inc, firstHop = Some out, lastHop = Some inc,
      req_amount = amount, maxHops = hops, maxFee = fee, req_exclude = exclude, riskPPM = 0, nodePenalty = []\<rparr>"

text \<open>The loop of \<^verbatim>\<open>GetCircularRoute\<close>, from \<open>hops\<close> up to \<open>limit\<close>.\<close>

function circular_from ::
    "(rat \<Rightarrow> rat) \<Rightarrow> Graph \<Rightarrow> Channel \<Rightarrow> Channel \<Rightarrow> u64 \<Rightarrow> string set \<Rightarrow> u64 \<Rightarrow> int \<Rightarrow> int \<Rightarrow> util_error + Route" where
  "circular_from mlog g out inc amount exclude fee hops limit =
     (if hops > limit then Inl ErrNoRoute
      else let r = searchRoute mlog g (circular_request out inc amount exclude hops fee) in
        if r \<noteq> Inl ErrNoRoute then r
        else circular_from mlog g out inc amount exclude fee (hops + 1) limit)"
  by pat_completeness auto
termination by (relation "measure (\<lambda>(_, _, _, _, _, _, _, hops, limit). nat (limit + 1 - hops))") auto

declare circular_from.simps [simp del]

definition GetCircularRoute ::
    "(rat \<Rightarrow> rat) \<Rightarrow> Graph \<Rightarrow> Channel \<Rightarrow> Channel \<Rightarrow> u64 \<Rightarrow> string set \<Rightarrow> int \<Rightarrow> u64 \<Rightarrow> util_error + Route" where
  "GetCircularRoute mlog g out inc amount exclude hops fee =
     circular_from mlog g out inc amount exclude fee 2 hops"

definition GetLikelyCircularRoute ::
    "(rat \<Rightarrow> rat) \<Rightarrow> (rat \<Rightarrow> rat \<Rightarrow> rat) \<Rightarrow> int \<Rightarrow> Graph \<Rightarrow> Channel \<Rightarrow> Channel \<Rightarrow> u64 \<Rightarrow> string set \<Rightarrow> int \<Rightarrow> u64
       \<Rightarrow> u64 \<Rightarrow> util_error + Route" where
  "GetLikelyCircularRoute mlog mpow now g out inc amount exclude hops fee risk =
     (let likely = searchRoute mlog g ((circular_request out inc amount exclude hops fee)
                     \<lparr>riskPPM := risk, nodePenalty := nodePenalties mpow now g\<rparr>) in
      if risk > 0 \<and> likely \<noteq> Inl ErrNoRoute then likely
      else GetCircularRoute mlog g out inc amount exclude hops fee)"

definition GetCheapestCircularRoute ::
    "(rat \<Rightarrow> rat) \<Rightarrow> Graph \<Rightarrow> Channel \<Rightarrow> Channel \<Rightarrow> u64 \<Rightarrow> string set \<Rightarrow> int \<Rightarrow> util_error + Route" where
  "GetCheapestCircularRoute mlog g out inc amount exclude hops =
     searchRoute mlog g (circular_request out inc amount exclude hops MaxUint64)"

text \<open>\<^verbatim>\<open>LeastForwardFee\<close>: one channel into the in-peer, then all of them.\<close>

definition forward_fee_over ::
    "Graph \<Rightarrow> node_id \<Rightarrow> node_id \<Rightarrow> channel_id \<Rightarrow> u64 \<Rightarrow> u64 \<Rightarrow> u64 \<times> bool \<Rightarrow> node_id \<times> scid \<Rightarrow> u64 \<times> bool" where
  "forward_fee_over g self peer first outboundFee forwarded = (\<lambda>(least, found) (w, scid).
     let i = dir_id scid w peer in
     if channel_at g i = None \<or> (w = self \<and> i \<noteq> first) then (least, found)
     else let fee = nodeFee outboundFee (inboundFee g i forwarded) in
       (if fee < least then fee else least, True))"

definition LeastForwardFee :: "Graph \<Rightarrow> Channel \<Rightarrow> Channel option \<Rightarrow> u64 \<Rightarrow> u64" where
  "LeastForwardFee g inc out amount =
     (let self = Destination inc; peer = Source inc;
          first = (case out of None \<Rightarrow> []
            | Some o' \<Rightarrow> if Source o' = self \<and> Destination o' = peer
                        then dir_id (ShortChannelId o') self peer else []);
          outboundFee = ComputeFee inc amount;
          forwarded = addSaturating amount outboundFee;
          (least, found) = foldl (forward_fee_over g self peer first outboundFee forwarded)
             (MaxUint64, False) (edges_into g peer) in
      if found then least else outboundFee)"

end
