(* ===== verification/RouteSound.thy ===== *)
theory RouteSound
  imports RouteSearch
begin

text \<open>
  The route search is sound.  \<open>built\<close> says how a label comes about, by the conditions of the code;
  every label the search ever queues is built, so what holds of built labels by rule induction
  holds of the route returned: its ends and its joints, its hop, fee and delay limits, the
  channels and nodes it may use, and that the route is priced exactly as it was searched.
\<close>

section \<open>How labels are built\<close>

definition step_fee :: "Graph \<Rightarrow> label \<Rightarrow> channel_id \<Rightarrow> u64" where
  "step_fee g cur i =
     nodeFee (ComputeFee (l_channel cur) (l_amount cur))
       (inboundFee g i (addSaturating (l_amount cur) (ComputeFee (l_channel cur) (l_amount cur))))"

inductive built :: "Graph \<Rightarrow> searchRequest \<Rightarrow> label \<Rightarrow> bool" for g req where
  last_hop: "lastHop req = Some c \<Longrightarrow>
     built g req (Label c [] 1 0 0 (req_amount req) INITIAL_DELAY None False)"
| into_dst: "lastHop req = None \<Longrightarrow> (v, scid) \<in> set (edges_into g (req_dst req)) \<Longrightarrow>
     i = dir_id scid v (req_dst req) \<Longrightarrow> channel_at g i = Some c \<Longrightarrow>
     v \<notin> req_exclude req \<Longrightarrow> i \<notin> req_exclude req \<Longrightarrow> CanForward c (req_amount req) \<Longrightarrow> 1 \<le> pathHops req \<Longrightarrow>
     built g req (Label c i 1 0 cost (req_amount req) INITIAL_DELAY None False)"
| through: "built g req cur \<Longrightarrow> \<not> l_final cur \<Longrightarrow> Source (l_channel cur) \<noteq> req_src req \<Longrightarrow>
     l_hops cur + 1 \<le> pathHops req \<Longrightarrow> l_delay cur + Delay (l_channel cur) \<le> MAX_ROUTE_DELAY \<Longrightarrow>
     (w, scid) \<in> set (edges_into g (Source (l_channel cur))) \<Longrightarrow> i = dir_id scid w (Source (l_channel cur)) \<Longrightarrow>
     channel_at g i = Some c \<Longrightarrow> w \<notin> req_exclude req \<Longrightarrow> i \<notin> req_exclude req \<Longrightarrow>
     w \<noteq> self_of req \<Longrightarrow> w \<noteq> req_dst req \<Longrightarrow> fee = step_fee g cur i \<Longrightarrow>
     addSaturating (l_fee cur) fee \<le> maxFee req \<Longrightarrow> addSaturating (l_fee cur) fee \<noteq> MaxUint64 \<Longrightarrow>
     addSaturating (l_amount cur) fee \<noteq> MaxUint64 \<Longrightarrow> CanForward c (addSaturating (l_amount cur) fee) \<Longrightarrow>
     addSaturating (l_cost cur) fee \<le> cost \<Longrightarrow>
     built g req (Label c i (l_hops cur + 1) (addSaturating (l_fee cur) fee) cost
       (addSaturating (l_amount cur) fee) (l_delay cur + Delay (l_channel cur)) (Some cur) False)"
| first_hop: "built g req cur \<Longrightarrow> \<not> l_final cur \<Longrightarrow> Source (l_channel cur) = req_src req \<Longrightarrow>
     firstHop req = Some f \<Longrightarrow> fee = step_fee g cur (firstHopId req) \<Longrightarrow>
     l_hops cur + 1 \<le> maxHops req \<Longrightarrow> l_delay cur + Delay (l_channel cur) \<le> MAX_ROUTE_DELAY \<Longrightarrow>
     addSaturating (l_fee cur) fee \<le> maxFee req \<Longrightarrow> addSaturating (l_fee cur) fee \<noteq> MaxUint64 \<Longrightarrow>
     addSaturating (l_amount cur) fee \<noteq> MaxUint64 \<Longrightarrow> addSaturating (l_cost cur) fee \<le> cost \<Longrightarrow>
     built g req (Label f [] (l_hops cur + 1) (addSaturating (l_fee cur) fee) cost
       (addSaturating (l_amount cur) fee) (l_delay cur + Delay (l_channel cur)) (Some cur) True)"

definition all_built :: "Graph \<Rightarrow> searchRequest \<Rightarrow> search_state \<Rightarrow> bool" where
  "all_built g req st \<longleftrightarrow> (\<forall>l \<in># mset (queue st). built g req l)"

lemma all_built_tables [simp]:
  "all_built g req (st\<lparr>best := b\<rparr>) = all_built g req st"
  "all_built g req (st\<lparr>expanded := x\<rparr>) = all_built g req st"
  by (simp_all add: all_built_def)

lemma all_built_push [simp]:
  "all_built g req (push_label l st) \<longleftrightarrow> built g req l \<and> all_built g req st"
  unfolding all_built_def push_label_def by (simp add: lq.elems_push del: set_mset_mset)

lemma seed_over_built:
  assumes "all_built g req st" "lastHop req = None" "e \<in> set (edges_into g (req_dst req))"
  shows "all_built g req (seed_over mlog g req st e)"
proof (cases e)
  case (Pair v scid)
  with assms show ?thesis
    by (auto simp: seed_over_def Let_def not_less split: option.split intro: into_dst)
qed

lemma search_start_built: "all_built g req (search_start mlog g req)"
proof (cases "lastHop req")
  case None
  have "all_built g req (foldl (seed_over mlog g req) st es)"
    if "all_built g req st" "set es \<subseteq> set (edges_into g (req_dst req))" for st es
    using that by (induction es arbitrary: st) (simp_all add: seed_over_built [OF _ None])
  moreover have "all_built g req \<lparr>best = \<lambda>_. [], expanded = \<lambda>_. [], queue = []\<rparr>"
    by (simp add: all_built_def)
  ultimately show ?thesis using None by (simp add: search_start_def)
next
  case (Some c)
  then show ?thesis by (simp add: search_start_def last_hop) (simp add: all_built_def)
qed

lemma extend_over_built:
  assumes st: "all_built g req st"
    and cur: "built g req cur" "\<not> l_final cur" "Source (l_channel cur) \<noteq> req_src req"
      "l_hops cur + 1 \<le> pathHops req" "l_delay cur + Delay (l_channel cur) \<le> MAX_ROUTE_DELAY"
    and e: "e \<in> set (edges_into g (Source (l_channel cur)))"
  shows "all_built g req (extend_over mlog g req cur (ComputeFee (l_channel cur) (l_amount cur))
           (l_delay cur + Delay (l_channel cur)) st e)"
proof (cases e)
  case (Pair w scid)
  note ins = through [OF cur e [unfolded Pair] refl]
  show ?thesis
    using st ins
    by (auto simp: extend_over_def Pair Let_def not_less step_fee_def addSaturating_ge(1) split: option.split)
qed

lemma extend_all_built:
  assumes "all_built g req st" "set es \<subseteq> set (edges_into g (Source (l_channel cur)))"
    and cur: "built g req cur" "\<not> l_final cur" "Source (l_channel cur) \<noteq> req_src req"
      "l_hops cur + 1 \<le> pathHops req" "l_delay cur + Delay (l_channel cur) \<le> MAX_ROUTE_DELAY"
  shows "all_built g req (foldl (extend_over mlog g req cur (ComputeFee (l_channel cur) (l_amount cur))
           (l_delay cur + Delay (l_channel cur))) st es)"
  using assms(1,2) by (induction es arbitrary: st) (simp_all add: extend_over_built [OF _ cur])

lemma pop_built:
  assumes "all_built g req st" "queue st \<noteq> []" "heap_pop label_less (queue st) = (cur, q)"
  shows "built g req cur" "all_built g req (st\<lparr>queue := q\<rparr>)"
  using assms lq.pop_member [of "queue st"] lq.pop_rest [of "queue st"] by (auto simp: all_built_def)

lemma search_step_built:
  assumes "all_built g req st" "queue st \<noteq> []" "search_step mlog g req st = Inl st'"
  shows "all_built g req st'"
proof -
  obtain cur q where pop: "heap_pop label_less (queue st) = (cur, q)" by fastforce
  note popped = pop_built [OF assms(1,2) pop]
  from assms(3) pop show ?thesis
  proof (cases rule: search_step_Inl)
    case dropped
    then show ?thesis using popped by simp
  next
    case (first_hop f fee)
    note new = built.first_hop [OF popped(1) first_hop(1,2,3)]
    show ?thesis
      unfolding first_hop(10) all_built_push
      using new [of fee] first_hop popped(2) by (simp add: step_fee_def addSaturating_eq_plus [symmetric])
  next
    case (extended ex)
    have "all_built g req ((st\<lparr>queue := q\<rparr>)\<lparr>expanded := ex\<rparr>)" using popped(2) by simp
    from extend_all_built [OF this order_refl popped(1) extended(1-4)] show ?thesis
      unfolding extended(5) .
  qed
qed

definition complete :: "searchRequest \<Rightarrow> label \<Rightarrow> bool" where
  "complete req l \<longleftrightarrow> l_final l \<or> (firstHop req = None \<and> Source (l_channel l) = req_src req)"

lemma search_step_Inr:
  assumes "search_step mlog g req st = Inr l" "all_built g req st" "queue st \<noteq> []"
  shows "built g req l \<and> complete req l"
proof -
  obtain cur q where pop: "heap_pop label_less (queue st) = (cur, q)" by fastforce
  have "l = cur \<and> complete req cur"
    using assms(1)
    by (auto simp: search_step_def pop Let_def complete_def split: if_splits option.splits)
  then show ?thesis using pop_built(1) [OF assms(2,3) pop] by simp
qed

lemma search_loop_built:
  "search_loop mlog g req st = Some l \<Longrightarrow> all_built g req st \<Longrightarrow> built g req l \<and> complete req l"
proof (induction mlog g req st rule: search_loop.induct)
  case (1 mlog g req st)
  have ne: "queue st \<noteq> []" using 1(2) by (auto simp: search_loop.simps [of mlog g req st])
  show ?case
  proof (cases "search_step mlog g req st")
    case (Inl st')
    then show ?thesis
      using 1 ne search_step_built [OF 1(3) ne Inl] by (simp add: search_loop.simps [of mlog g req st])
  next
    case (Inr l')
    then show ?thesis
      using 1(2,3) ne search_step_Inr [OF Inr] by (simp add: search_loop.simps [of mlog g req st])
  qed
qed

lemma search_Inr:
  assumes "search mlog g req = Inr cs"
  obtains l where "built g req l" "complete req l" "cs = path l"
proof -
  obtain l where l: "search_loop mlog g req (search_start mlog g req) = Some l" "cs = path l"
    using assms by (auto simp: search_def split: if_splits option.splits)
  show ?thesis using search_loop_built [OF l(1) search_start_built] l(2) that by blast
qed

section \<open>What holds of built labels\<close>

lemma path_not_Nil [simp]: "path l \<noteq> []"
  by (cases l rule: path.cases) auto

lemma hd_path: "hd (path l) = l_channel l"
  by (cases l rule: path.cases) auto

lemma path_unfold: "path (Label c i hops fee cost amount delay (Some n) final) = c # path n"
  by simp

lemma built_length: "built g req l \<Longrightarrow> l_hops l = int (length (path l))"
  by (induction rule: built.induct) simp_all

lemma built_fee: "built g req l \<Longrightarrow> unat (l_amount l) = unat (req_amount req) + unat (l_fee l)"
  by (induction rule: built.induct) (simp_all add: addSaturating_exact)

lemma built_limits:
  "built g req l \<Longrightarrow> l_fee l \<le> maxFee req \<and> l_delay l \<le> MAX_ROUTE_DELAY"
  by (induction rule: built.induct) (simp_all add: INITIAL_DELAY_def MAX_ROUTE_DELAY_def)

lemma built_cost: "built g req cur \<Longrightarrow> l_next cur = Some n \<Longrightarrow> l_cost n \<le> l_cost cur"
  by (erule built.cases) (auto intro: order_trans [OF addSaturating_ge(1)])

lemma built_hops:
  "built g req l \<Longrightarrow> l_hops l \<le> maxHops req \<or> (l_hops l = 1 \<and> lastHop req \<noteq> None)"
  by (induction rule: built.induct) (use pathHops_le [of req] in auto)

text \<open>An edge of the adjacency list is a channel of the graph with those ends.\<close>

lemma edges_into_channel:
  assumes ok: "graph_ok ends g" and e: "(w, scid) \<in> set (edges_into g u)"
    and c: "channel_at g (dir_id scid w u) = Some c"
  shows "Source c = w" "Destination c = u" "channelId c = dir_id scid w u" "ShortChannelId c = scid"
proof -
  obtain es where es: "(w, es) \<in> set (inbound_of g u)" "scid \<in> set es"
    using e by (auto simp: edges_into_def)
  then have "map_of (inbound_of g u) w = Some es" using graph_okD(2) [OF ok] by simp
  with es have "scid \<in> set (edge_of g u w)" by (simp add: edge_of_def)
  then show "Source c = w" "Destination c = u" using graph_okD(6) [OF ok] c by auto
  then show "channelId c = dir_id scid w u" "ShortChannelId c = scid"
    using graph_okD(4) [OF ok c] by (auto simp: channelId_def dir_id_inject)
qed

text \<open>What our own channels have to satisfy: they meet the path searched.\<close>

definition fits_request :: "searchRequest \<Rightarrow> bool" where
  "fits_request req \<longleftrightarrow>
     (\<forall>f. firstHop req = Some f \<longrightarrow> Destination f = req_src req) \<and>
     (\<forall>c. lastHop req = Some c \<longrightarrow> Source c = req_dst req) \<and>
     (firstHop req = None \<longleftrightarrow> lastHop req = None)"

lemma joined_Cons: "cs \<noteq> [] \<Longrightarrow> joined (c # cs) \<longleftrightarrow> Destination c = Source (hd cs) \<and> joined cs"
  by (cases cs) auto

lemma built_joined:
  assumes "built g req l" "graph_ok ends g" "fits_request req"
  shows "joined (path l)"
  using assms(1)
proof (induction rule: built.induct)
  case (through cur w scid i c fee cost)
  then show ?case using edges_into_channel(2) [OF assms(2)] by (simp add: joined_Cons hd_path)
next
  case (first_hop cur f fee cost)
  then show ?case using assms(3) by (simp add: joined_Cons hd_path fits_request_def)
qed simp_all

lemma built_last:
  assumes "built g req l" "graph_ok ends g"
  shows "(case lastHop req of Some c \<Rightarrow> last (path l) = c | None \<Rightarrow> Destination (last (path l)) = req_dst req)"
  using assms(1)
proof (induction rule: built.induct)
  case (into_dst v scid i c cost)
  then show ?case using edges_into_channel(2) [OF assms(2)] by simp
qed (auto split: option.splits)

text \<open>The route of the path is priced as the labels were.\<close>

lemma hop_fee_step:
  assumes "hop_Channel hop = l_channel cur" "MilliSatoshi hop = l_amount cur" "channelId c = i"
  shows "hop_fee g c hop = step_fee g cur i"
  using assms by (simp add: hop_fee_def step_fee_def GetInboundFee_def Let_def)

lemma price_path_Cons:
  assumes "MilliSatoshi (hd (price g a (path cur))) = l_amount cur"
    and "hop_Delay (hd (price g a (path cur))) = l_delay cur"
    and "fee = step_fee g cur (channelId c)"
  shows "price g a (c # path cur) =
    \<lparr>hop_Channel = c, MilliSatoshi = addSaturating (l_amount cur) fee,
     hop_Delay = l_delay cur + Delay (l_channel cur)\<rparr> # price g a (path cur)"
proof -
  obtain d ds where cs: "path cur = d # ds" by (cases "path cur") auto
  have d: "hop_Channel (hd (price g a (path cur))) = l_channel cur"
    by (simp add: channel_hd_price hd_path)
  show ?thesis
    using assms d hop_fee_step [OF d assms(1) refl, of g c]
    unfolding cs price_Cons by (simp add: Let_def)
qed

lemma built_priced:
  assumes "built g req l" "graph_ok ends g" "fits_request req"
  shows "MilliSatoshi (hd (price g (req_amount req) (path l))) = l_amount l
       \<and> hop_Delay (hd (price g (req_amount req) (path l))) = l_delay l"
  using assms(1)
proof (induction rule: built.induct)
  case (through cur w scid i c fee cost)
  have "channelId c = i" using edges_into_channel(3) [OF assms(2)] through(6-8) by simp
  then show ?case using price_path_Cons [of g _ cur fee c] through by simp
next
  case (first_hop cur f fee cost)
  have "channelId f = firstHopId req"
    using first_hop(4) assms(3) by (simp add: firstHopId_def channelId_def fits_request_def)
  then show ?case using price_path_Cons [of g _ cur fee f] first_hop by simp
qed simp_all

text \<open>The channels between our own two, or all of them when the route has none of ours.\<close>

definition between :: "searchRequest \<Rightarrow> 'a list \<Rightarrow> 'a list" where
  "between req xs = (if lastHop req = None then xs else butlast xs)"

definition usable :: "Graph \<Rightarrow> searchRequest \<Rightarrow> RouteHop \<Rightarrow> bool" where
  "usable g req hop \<longleftrightarrow>
     channel_at g (channelId (hop_Channel hop)) = Some (hop_Channel hop) \<and>
     channelId (hop_Channel hop) \<notin> req_exclude req \<and> Source (hop_Channel hop) \<notin> req_exclude req \<and>
     CanForward (hop_Channel hop) (MilliSatoshi hop)"

lemma between_Cons: "xs \<noteq> [] \<Longrightarrow> between req (x # xs) = x # between req xs"
  by (simp add: between_def)

lemma built_usable:
  assumes "built g req l" "graph_ok ends g" "fits_request req"
  shows "\<not> l_final l \<longrightarrow> (\<forall>hop \<in> set (between req (price g (req_amount req) (path l))). usable g req hop)"
  using assms(1)
proof (induction rule: built.induct)
  case (into_dst v scid i c cost)
  note c = edges_into_channel [OF assms(2) into_dst(2) into_dst(4) [unfolded into_dst(3)]]
  show ?case using into_dst c by (simp add: between_def usable_def)
next
  case (through cur w scid i c fee cost)
  note c = edges_into_channel [OF assms(2) through(6) through(8) [unfolded through(7)]]
  note priced = built_priced [OF through(1) assms(2,3)]
  have "price g (req_amount req) (c # path cur) =
      \<lparr>hop_Channel = c, MilliSatoshi = addSaturating (l_amount cur) fee,
       hop_Delay = l_delay cur + Delay (l_channel cur)\<rparr> # price g (req_amount req) (path cur)"
    using price_path_Cons [of g _ cur fee c] priced through(7,13) c by simp
  then show ?case
    unfolding path_unfold using through c by (simp add: between_Cons usable_def)
qed (simp_all add: between_def)

lemma built_nodes:
  assumes "built g req l" "graph_ok ends g" "lastHop req \<noteq> None"
  shows "\<not> l_final l \<longrightarrow> (\<forall>c \<in> set (butlast (path l)). Source c \<noteq> self_of req \<and> Source c \<noteq> req_dst req)
       \<and> (\<forall>c \<in> set (tl (path l)). Source c \<noteq> req_src req)"
  using assms(1)
proof (induction rule: built.induct)
  case (through cur w scid i c fee cost)
  have "Source c = w" using edges_into_channel(1) [OF assms(2) through(6)] through(7,8) by simp
  moreover have "path cur = l_channel cur # tl (path cur)"
    using hd_path [of cur] by (cases "path cur") auto
  ultimately show ?case using through by (metis (no_types, lifting) butlast.simps(2) list.sel(3)
        path_not_Nil path_unfold set_ConsD label.sel(9))
qed (use assms(3) in auto)

lemma built_final:
  assumes "built g req l" "l_final l"
  obtains f cur where "firstHop req = Some f" "built g req cur" "\<not> l_final cur"
    "Source (l_channel cur) = req_src req" "path l = f # path cur" "l_hops l \<le> maxHops req"
    "l_amount l \<noteq> MaxUint64"
  using assms by (cases rule: built.cases) auto

section \<open>Circular routes\<close>

definition circular :: "Channel \<Rightarrow> Channel \<Rightarrow> searchRequest \<Rightarrow> bool" where
  "circular out inc req \<longleftrightarrow> firstHop req = Some out \<and> lastHop req = Some inc \<and>
     req_src req = Destination out \<and> req_dst req = Source inc"

lemma circular_fits: "circular out inc req \<Longrightarrow> fits_request req"
  by (simp add: circular_def fits_request_def)

lemma circular_requests [simp]:
  "circular out inc (circular_request out inc amount exclude hops fee)"
  "circular out inc ((circular_request out inc amount exclude hops fee)\<lparr>riskPPM := r, nodePenalty := n\<rparr>)"
  by (simp_all add: circular_def circular_request_def)

text \<open>All that the search promises of a circular route, in terms of its labels.\<close>

lemma searchRoute_circular:
  assumes ok: "graph_ok ends g" and circ: "circular out inc req" and found: "searchRoute mlog g req = Inr r"
  obtains l cur mids where "built g req l" "built g req cur" "\<not> l_final cur" "path l = out # path cur"
    "path cur = mids @ [inc]" "Source (l_channel cur) = Destination out"
    "r = newRouteFromChannels (req_src req) (req_dst req) (req_amount req) (out # mids @ [inc]) g"
    "Hops r = price g (req_amount req) (out # mids @ [inc])"
    "l_hops l \<le> maxHops req" "l_amount l \<noteq> MaxUint64"
proof -
  obtain cs where cs: "search mlog g req = Inr cs"
      "r = newRouteFromChannels (req_src req) (req_dst req) (req_amount req) cs g"
    using found by (auto simp: searchRoute_def split: sum.splits)
  obtain l where l: "built g req l" "complete req l" "cs = path l" using search_Inr [OF cs(1)] by blast
  have "l_final l" using l(2) circ by (simp add: complete_def circular_def)
  with l(1) obtain f cur where cur: "firstHop req = Some f" "built g req cur" "\<not> l_final cur"
    "Source (l_channel cur) = req_src req" "path l = f # path cur" "l_hops l \<le> maxHops req" "l_amount l \<noteq> MaxUint64"
    by (rule built_final)
  have "f = out" using cur(1) circ by (simp add: circular_def)
  moreover have "last (path cur) = inc" using built_last [OF cur(2) ok] circ by (simp add: circular_def)
  then have "path cur = butlast (path cur) @ [inc]" using append_butlast_last_id [of "path cur"] by simp
  moreover from this have "Hops r = price g (req_amount req) (out # butlast (path cur) @ [inc])"
    using cs l(3) cur(5) \<open>f = out\<close> by (simp add: Hops_newRoute)
  ultimately show ?thesis
    using that [OF l(1) cur(2,3)] cur(4-7) l(3) cs(2) circ by (simp add: circular_def)
qed

end
