(* ===== verification/RouteClaims.thy ===== *)
theory RouteClaims
  imports RouteSound
begin

text \<open>
  What the searches of \<^verbatim>\<open>graph/pathfinder.go\<close> promise their callers, stated of the functions the
  rebalances call: \<^verbatim>\<open>GetLikelyCircularRoute\<close>, \<^verbatim>\<open>GetCircularRoute\<close>, \<^verbatim>\<open>GetRoute\<close> and
  \<^verbatim>\<open>LeastForwardFee\<close>.
\<close>

section \<open>Every entry point is a search of a circular request\<close>

lemma circular_from_Inr:
  "circular_from mlog g out inc amount exclude fee hops limit = Inr r \<Longrightarrow>
   \<exists>k. hops \<le> k \<and> k \<le> limit \<and> searchRoute mlog g (circular_request out inc amount exclude k fee) = Inr r \<and>
     (\<forall>j. hops \<le> j \<and> j < k \<longrightarrow> searchRoute mlog g (circular_request out inc amount exclude j fee) = Inl ErrNoRoute)"
proof (induction mlog g out inc amount exclude fee hops limit rule: circular_from.induct)
  case (1 mlog g out inc amount exclude fee hops limit)
  let ?s = "\<lambda>k. searchRoute mlog g (circular_request out inc amount exclude k fee)"
  note unfolded = 1(2) [unfolded circular_from.simps [of mlog g out inc amount exclude fee hops limit] Let_def]
  have hops: "\<not> hops > limit" using unfolded by (auto split: if_splits)
  show ?case
  proof (cases "?s hops = Inl ErrNoRoute")
    case True
    with unfolded hops have "circular_from mlog g out inc amount exclude fee (hops + 1) limit = Inr r" by simp
    from 1(1) [OF hops refl _ this] True obtain k where
      k: "hops + 1 \<le> k" "k \<le> limit" "?s k = Inr r" "\<forall>j. hops + 1 \<le> j \<and> j < k \<longrightarrow> ?s j = Inl ErrNoRoute" by auto
    have "?s j = Inl ErrNoRoute" if "hops \<le> j" "j < k" for j
      using that k(4) True by (cases "j = hops") auto
    with k show ?thesis by (intro exI [of _ k]) auto
  next
    case False
    with unfolded hops have "?s hops = Inr r" by simp
    with hops show ?thesis by (intro exI [of _ hops]) auto
  qed
qed

definition request_of ::
    "Channel \<Rightarrow> Channel \<Rightarrow> u64 \<Rightarrow> string set \<Rightarrow> int \<Rightarrow> u64 \<Rightarrow> searchRequest \<Rightarrow> bool" where
  "request_of out inc amount exclude hops fee req \<longleftrightarrow>
     circular out inc req \<and> req_amount req = amount \<and> req_exclude req = exclude \<and>
     maxHops req \<le> hops \<and> maxFee req = fee"

lemma request_of_circular:
  "k \<le> hops \<Longrightarrow> request_of out inc amount exclude hops fee (circular_request out inc amount exclude k fee)"
  "request_of out inc amount exclude hops fee
     ((circular_request out inc amount exclude hops fee)\<lparr>riskPPM := r, nodePenalty := n\<rparr>)"
  by (simp_all add: request_of_def) (simp_all add: circular_request_def)

lemma GetCircularRoute_Inr:
  assumes "GetCircularRoute mlog g out inc amount exclude hops fee = Inr r"
  obtains req where "request_of out inc amount exclude hops fee req" "searchRoute mlog g req = Inr r"
  using circular_from_Inr [OF assms [unfolded GetCircularRoute_def]] request_of_circular(1) that by blast

lemma GetLikelyCircularRoute_Inr:
  assumes "GetLikelyCircularRoute mlog mpow now g out inc amount exclude hops fee risk = Inr r"
  obtains req where "request_of out inc amount exclude hops fee req" "searchRoute mlog g req = Inr r"
proof (cases "GetCircularRoute mlog g out inc amount exclude hops fee = Inr r")
  case True
  then show ?thesis using that by (rule GetCircularRoute_Inr)
next
  case False
  with assms show ?thesis
    using that [OF request_of_circular(2)] by (auto simp: GetLikelyCircularRoute_def Let_def split: if_splits)
qed

text \<open>What the callers get, for any such request.\<close>

lemma route_shape:
  assumes ok: "graph_ok ends g" and req: "request_of out inc amount exclude hops fee req"
    and found: "searchRoute mlog g req = Inr r"
  obtains mids where "map hop_Channel (Hops r) = out # mids @ [inc]" "joined (out # mids @ [inc])"
    "\<forall>c \<in> set mids. Source c \<noteq> Source out \<and> Source c \<noteq> Source inc"
    "\<forall>c \<in> set (tl (mids @ [inc])). Source c \<noteq> Destination out"
proof -
  have circ: "circular out inc req" using req by (simp add: request_of_def)
  from searchRoute_circular [OF ok circ found] obtain l cur mids where
    l: "built g req l" "built g req cur" "\<not> l_final cur" "path l = out # path cur" "path cur = mids @ [inc]"
      "Hops r = price g (req_amount req) (out # mids @ [inc])" by metis
  have "joined (path l)" using built_joined [OF l(1) ok circular_fits [OF circ]] .
  moreover have "lastHop req \<noteq> None" using circ by (simp add: circular_def)
  from built_nodes [OF l(2) ok this] l(3,5) circ have
    "\<forall>c \<in> set mids. Source c \<noteq> Source out \<and> Source c \<noteq> Source inc"
    "\<forall>c \<in> set (tl (mids @ [inc])). Source c \<noteq> Destination out"
    by (simp_all add: circular_def self_of_def butlast_append)
  ultimately show ?thesis using that [of mids] l(4-6) by simp
qed

lemma route_limits:
  assumes ok: "graph_ok ends g" and req: "request_of out inc amount exclude hops fee req"
    and found: "searchRoute mlog g req = Inr r"
  shows "int (length (Hops r)) \<le> hops" "Fee r \<le> fee" "hop_Delay (hd (Hops r)) \<le> MAX_ROUTE_DELAY"
    "MilliSatoshi (hd (Hops r)) \<noteq> MaxUint64" "MilliSatoshi (last (Hops r)) = amount"
proof -
  have circ: "circular out inc req" using req by (simp add: request_of_def)
  from searchRoute_circular [OF ok circ found] obtain l cur mids where
    l: "built g req l" "path l = out # path cur" "path cur = mids @ [inc]"
      "r = newRouteFromChannels (req_src req) (req_dst req) (req_amount req) (out # mids @ [inc]) g"
      "Hops r = price g (req_amount req) (out # mids @ [inc])" "l_hops l \<le> maxHops req" "l_amount l \<noteq> MaxUint64"
    by metis
  have path: "path l = out # mids @ [inc]" using l(2,3) by simp
  have priced: "MilliSatoshi (hd (Hops r)) = l_amount l \<and> hop_Delay (hd (Hops r)) = l_delay l"
    using built_priced [OF l(1) ok circular_fits [OF circ]] by (simp add: l(5) path)
  have "unat (Fee r) + unat (req_amount req) = unat (l_amount l)"
    using Fee_newRoute [of "out # mids @ [inc]"] priced l(4,5) by simp
  then have "Fee r = l_fee l" using built_fee [OF l(1)] by (intro u64_eq_iff [THEN iffD2]) simp
  then show "Fee r \<le> fee" using built_limits [OF l(1)] req by (simp add: request_of_def)
  show "int (length (Hops r)) \<le> hops"
    using built_length [OF l(1)] l(5,6) path req by (simp add: request_of_def)
  show "hop_Delay (hd (Hops r)) \<le> MAX_ROUTE_DELAY" "MilliSatoshi (hd (Hops r)) \<noteq> MaxUint64"
    using priced built_limits [OF l(1)] l(7) by simp_all
  show "MilliSatoshi (last (Hops r)) = amount"
    using req by (simp add: l(5) price_last request_of_def)
qed

lemma middle_price:
  "middle (price g a (c # mids @ [d])) = butlast (price g a (mids @ [d]))"
  by (cases mids) (simp_all add: middle_def Let_def)

lemma route_carries:
  assumes ok: "graph_ok ends g" and req: "request_of out inc amount exclude hops fee req"
    and found: "searchRoute mlog g req = Inr r"
  shows "CanCarry g r exclude"
proof -
  have circ: "circular out inc req" using req by (simp add: request_of_def)
  from searchRoute_circular [OF ok circ found] obtain l cur mids where
    l: "built g req cur" "\<not> l_final cur" "path cur = mids @ [inc]"
      "Hops r = price g (req_amount req) (out # mids @ [inc])" by metis
  have "between req (price g (req_amount req) (path cur)) = middle (Hops r)"
    using circ l(3,4) by (simp add: between_def middle_price circular_def)
  then have "\<forall>hop \<in> set (middle (Hops r)). usable g req hop"
    using built_usable [OF l(1) ok circular_fits [OF circ]] l(2) by simp
  then show ?thesis using req by (auto simp: CanCarry_def list_all_iff usable_def Let_def request_of_def)
qed

section \<open>The least fee of the in-peer\<close>

lemma edges_into_iff:
  assumes "graph_ok ends g"
  shows "(w, scid) \<in> set (edges_into g u) \<longleftrightarrow> scid \<in> set (edge_of g u w)"
proof -
  have "(w, es) \<in> set (inbound_of g u) \<longleftrightarrow> map_of (inbound_of g u) w = Some es" for es
    using graph_okD(2) [OF assms] by simp
  moreover have "(w, scid) \<in> set (edges_into g u) \<longleftrightarrow>
      (\<exists>es. (w, es) \<in> set (inbound_of g u) \<and> scid \<in> set es)"
    unfolding edges_into_def by auto
  ultimately show ?thesis by (auto simp: edge_of_def split: option.splits)
qed

lemma edges_into_stored:
  assumes "graph_ok ends g" "channel_at g (channelId c) = Some c"
  shows "(Source c, ShortChannelId c) \<in> set (edges_into g (Destination c))"
  using assms graph_okD(6) [OF assms(1)] by (auto simp: edges_into_iff channelId_def)

lemma forward_fee_fold:
  assumes "foldl (forward_fee_over g self peer first out fwd) (least, found) es = (least', found')"
  shows "least' \<le> least \<and> (found \<longrightarrow> found') \<and>
    (\<forall>(w, scid) \<in> set es. channel_at g (dir_id scid w peer) \<noteq> None \<and> (w = self \<longrightarrow> dir_id scid w peer = first)
       \<longrightarrow> found' \<and> least' \<le> nodeFee out (inboundFee g (dir_id scid w peer) fwd))"
  using assms
proof (induction es arbitrary: least found)
  case (Cons e es)
  obtain w scid where e: "e = (w, scid)" by fastforce
  obtain l1 f1 where step: "forward_fee_over g self peer first out fwd (least, found) e = (l1, f1)" by fastforce
  have "l1 \<le> least" "found \<longrightarrow> f1"
    using step by (auto simp: forward_fee_over_def e Let_def split: if_splits)
  moreover have "f1 \<and> l1 \<le> nodeFee out (inboundFee g (dir_id scid w peer) fwd)"
    if "channel_at g (dir_id scid w peer) \<noteq> None" "w = self \<longrightarrow> dir_id scid w peer = first"
    using step that by (auto simp: forward_fee_over_def e Let_def not_less split: if_splits)
  moreover note Cons.IH [of l1 f1] Cons.prems step
  ultimately show ?case by (auto simp: e intro: order_trans)
qed simp

lemma LeastForwardFee_le:
  assumes ok: "graph_ok ends g" and c: "channel_at g (channelId c) = Some c" "Destination c = Source inc"
    and mine: "Source c = Destination inc \<Longrightarrow> out = Some c"
  shows "LeastForwardFee g inc out amount \<le>
    nodeFee (ComputeFee inc amount) (inboundFee g (channelId c) (addSaturating amount (ComputeFee inc amount)))"
proof -
  define first where "first = (case out of None \<Rightarrow> []
     | Some o' \<Rightarrow> if Source o' = Destination inc \<and> Destination o' = Source inc
                 then dir_id (ShortChannelId o') (Destination inc) (Source inc) else [])"
  obtain least found where fold: "foldl (forward_fee_over g (Destination inc) (Source inc) first
      (ComputeFee inc amount) (addSaturating amount (ComputeFee inc amount))) (MaxUint64, False)
      (edges_into g (Source inc)) = (least, found)" by fastforce
  have edge: "(Source c, ShortChannelId c) \<in> set (edges_into g (Source inc))"
    using edges_into_stored [OF ok c(1)] c(2) by simp
  have i: "dir_id (ShortChannelId c) (Source c) (Source inc) = channelId c"
    using c(2) by (simp add: channelId_def)
  have "Source c = Destination inc \<longrightarrow> channelId c = first"
    using mine c(2) by (auto simp: first_def channelId_def)
  then have "found \<and> least \<le> nodeFee (ComputeFee inc amount)
      (inboundFee g (channelId c) (addSaturating amount (ComputeFee inc amount)))"
    using forward_fee_fold [OF fold] edge c(1) i by fastforce
  then show ?thesis
    using fold by (simp add: LeastForwardFee_def Let_def first_def [symmetric])
qed

text \<open>The amount before the last hop is on the way of every route that ends with it.\<close>

lemma price_append: "ds \<noteq> [] \<Longrightarrow> \<exists>hs. price g a (cs @ ds) = hs @ price g a ds"
proof (induction cs)
  case (Cons c cs)
  then obtain hs where hs: "price g a (cs @ ds) = hs @ price g a ds" by blast
  obtain d ds' where "cs @ ds = d # ds'" using Cons.prems by (cases "cs @ ds") auto
  then have "\<exists>h. price g a ((c # cs) @ ds) = h # price g a (cs @ ds)" by (simp add: Let_def)
  with hs show ?case by (metis append_Cons)
qed simp

lemma price_falls_to:
  assumes "ds \<noteq> []"
  shows "MilliSatoshi (hd (price g a ds)) \<le> MilliSatoshi (hd (price g a (cs @ ds)))"
proof -
  obtain hs where hs: "price g a (cs @ ds) = hs @ price g a ds" using price_append [OF assms] by blast
  obtain h hs' where h: "price g a ds = h # hs'" using assms by (cases "price g a ds") auto
  have "sorted_wrt (\<lambda>h h'. MilliSatoshi h \<ge> MilliSatoshi h') (hs @ price g a ds)"
    using priced_falls [OF priced_price, of g a "cs @ ds"] by (simp add: hs)
  then show ?thesis unfolding hs h by (cases hs) (auto simp: sorted_wrt_append)
qed

lemma least_fee_of_route:
  assumes ok: "graph_ok ends g" and req: "request_of out inc amount exclude hops fee req"
    and found: "searchRoute mlog g req = Inr r"
    and ours: "channel_at g (channelId out) = Some out" "Source out = Destination inc"
  shows "LeastForwardFee g inc (Some out) amount \<le> Fee r"
proof -
  have circ: "circular out inc req" and a: "req_amount req = amount" using req by (simp_all add: request_of_def)
  from searchRoute_circular [OF ok circ found] obtain l cur mids where
    l: "built g req cur" "\<not> l_final cur" "path cur = mids @ [inc]"
      "r = newRouteFromChannels (req_src req) (req_dst req) (req_amount req) (out # mids @ [inc]) g"
      "Hops r = price g (req_amount req) (out # mids @ [inc])" by metis
  define c where "c = last (out # mids)"
  have all: "out # mids = butlast (out # mids) @ [c]" by (simp add: c_def)
  obtain mids' where joined: "joined (out # mids' @ [inc])" "map hop_Channel (Hops r) = out # mids' @ [inc]"
      "\<forall>c \<in> set mids'. Source c \<noteq> Source out \<and> Source c \<noteq> Source inc"
    using route_shape [OF ok req found] by metis
  then have [simp]: "mids' = mids" by (simp add: l(5))
  have dest: "Destination c = Source inc"
    using joined(1) unfolding \<open>mids' = mids\<close> c_def by (induction mids arbitrary: out) auto
  have stored: "channel_at g (channelId c) = Some c"
  proof (cases "mids = []")
    case False
    have "\<forall>hop \<in> set (butlast (price g amount (mids @ [inc]))). usable g req hop"
      using built_usable [OF l(1) ok circular_fits [OF circ]] l(2,3) circ a
      by (simp add: between_def circular_def)
    moreover have "hop_Channel ` set (butlast (price g amount (mids @ [inc]))) = set mids"
      using map_butlast [of hop_Channel "price g amount (mids @ [inc])"]
      by (metis butlast_snoc image_set map_channel_price)
    moreover have "c \<in> set mids" using False by (simp add: c_def)
    ultimately show ?thesis unfolding usable_def by (metis imageE)
  qed (simp add: c_def ours)
  have mine: "Some out = Some c" if "Source c = Destination inc"
  proof (cases "mids = []")
    case False
    then have "c \<in> set mids" by (simp add: c_def)
    then show ?thesis using that joined(3) ours(2) by auto
  qed (simp add: c_def)
  let ?f = "nodeFee (ComputeFee inc amount) (inboundFee g (channelId c) (addSaturating amount (ComputeFee inc amount)))"
  have "price g amount [c, inc] = \<lparr>hop_Channel = c, MilliSatoshi = addSaturating amount ?f,
      hop_Delay = INITIAL_DELAY + Delay inc\<rparr> # price g amount [inc]"
    by (simp add: Let_def hop_fee_def GetInboundFee_def)
  moreover have "price g amount (out # mids @ [inc]) = price g amount (butlast (out # mids) @ [c, inc])"
    using arg_cong [OF all, of "\<lambda>xs. price g amount (xs @ [inc])"] by simp
  ultimately have le: "addSaturating amount ?f \<le> MilliSatoshi (hd (Hops r))"
    using price_falls_to [of "[c, inc]" g amount "butlast (out # mids)"] by (simp add: l(5) a)
  have "MilliSatoshi (hd (Hops r)) \<noteq> MaxUint64" using route_limits(4) [OF ok req found] .
  with le have "unat amount + unat ?f \<le> unat (MilliSatoshi (hd (Hops r)))"
    by (simp add: u64_le_iff unat_specs u64_neq_Max_iff min_def split: if_splits)
  moreover have "unat (Fee r) + unat amount = unat (MilliSatoshi (hd (Hops r)))"
    using Fee_newRoute [of "out # mids @ [inc]"] by (simp add: l(4) l(5) a Hops_newRoute)
  ultimately have "?f \<le> Fee r" by (simp add: u64_le_iff)
  with LeastForwardFee_le [OF ok stored dest mine, where amount = amount] show ?thesis by (rule order_trans)
qed

section \<open>The order of the search\<close>

inductive search_turns :: "(rat \<Rightarrow> rat) \<Rightarrow> Graph \<Rightarrow> searchRequest \<Rightarrow> search_state \<Rightarrow> bool" for mlog g req where
  begun: "search_turns mlog g req (search_start mlog g req)"
| turned: "search_turns mlog g req st \<Longrightarrow> queue st \<noteq> [] \<Longrightarrow> search_step mlog g req st = Inl st' \<Longrightarrow>
     search_turns mlog g req st'"

abbreviation queue_ok :: "search_state \<Rightarrow> bool" where
  "queue_ok st \<equiv> labels.is_heap (queue st) (length (queue st))"

definition queue_from :: "u64 \<Rightarrow> search_state \<Rightarrow> bool" where
  "queue_from k st \<longleftrightarrow> queue_ok st \<and> (\<forall>l \<in># mset (queue st). k \<le> l_cost l)"

lemma queue_from_tables [simp]:
  "queue_from k (st\<lparr>best := b\<rparr>) = queue_from k st" "queue_from k (st\<lparr>expanded := x\<rparr>) = queue_from k st"
  by (simp_all add: queue_from_def)

lemma queue_from_push: "queue_from k st \<Longrightarrow> k \<le> l_cost l \<Longrightarrow> queue_from k (push_label l st)"
  unfolding queue_from_def push_label_def
  by (simp add: lq.elems_push lq.valid_push del: set_mset_mset)

lemma queue_from_fold:
  "(\<And>st e. queue_from k st \<Longrightarrow> queue_from k (f st e)) \<Longrightarrow> queue_from k st \<Longrightarrow> queue_from k (foldl f st es)"
  by (induction es arbitrary: st) simp_all

lemma search_start_queue: "queue_from 0 (search_start mlog g req)"
proof -
  let ?st = "\<lparr>best = \<lambda>_. [], expanded = \<lambda>_. [], queue = []\<rparr>"
  have nil: "queue_from 0 ?st" using lq.valid_empty by (simp add: queue_from_def)
  have "queue_from 0 (seed_over mlog g req st e)" if "queue_from 0 st" for st e
    using that by (simp add: seed_over_def Let_def split_beta queue_from_push split: option.split)
  then show ?thesis
    using nil by (simp add: search_start_def Let_def queue_from_push queue_from_fold split: option.split)
qed

lemma extend_over_queue:
  assumes "queue_from (l_cost cur) st"
  shows "queue_from (l_cost cur) (extend_over mlog g req cur out d st e)"
proof -
  have "l_cost cur \<le> addSaturating (addSaturating (l_cost cur) x) y" for x y
    using addSaturating_ge(1) order_trans by blast
  with assms show ?thesis
    by (simp add: extend_over_def Let_def split_beta queue_from_push split: option.split)
qed

lemma search_step_queue:
  assumes "queue_ok st" "queue st \<noteq> []" "search_step mlog g req st = Inl st'"
  shows "queue_from (l_cost (fst (heap_pop label_less (queue st)))) st'"
proof -
  obtain cur q where pop: "heap_pop label_less (queue st) = (cur, q)" by fastforce
  have "l_cost cur \<le> l_cost l" if "l \<in># mset q" for l
  proof -
    have "l \<in># mset (queue st)" using lq.pop_rest [of "queue st" l] assms(2) that pop by simp
    then have "\<not> label_less l cur" using lq.pop_least [OF assms(1), of l] assms(2) pop by simp
    then show ?thesis by (auto simp: label_less_def split: if_splits)
  qed
  then have q: "queue_from (l_cost cur) (st\<lparr>queue := q\<rparr>)"
    using lq.valid_pop [OF assms(1)] assms(2) pop by (simp add: queue_from_def)
  from assms(3) pop have "queue_from (l_cost cur) st'"
  proof (cases rule: search_step_Inl)
    case (extended ex)
    have "queue_from (l_cost cur) ((st\<lparr>queue := q\<rparr>)\<lparr>expanded := ex\<rparr>)" using q by simp
    then show ?thesis unfolding extended(5) by (intro queue_from_fold extend_over_queue)
  qed (use q in \<open>simp_all add: queue_from_push addSaturating_ge\<close>)
  with pop show ?thesis by simp
qed

lemma search_turns_queue: "search_turns mlog g req st \<Longrightarrow> queue_ok st"
proof (induction rule: search_turns.induct)
  case begun
  then show ?case using search_start_queue by (simp add: queue_from_def)
next
  case (turned st st')
  then show ?case using search_step_queue [of st] by (simp add: queue_from_def)
qed

section \<open>A route between two other nodes\<close>

lemma GetRoute_route:
  assumes ok: "graph_ok ends g" and found: "GetRoute mlog g src dst amount exclude hops = Inr r"
  shows "joined (map hop_Channel (Hops r)) \<and> Hops r \<noteq> [] \<and> int (length (Hops r)) \<le> hops \<and>
    Source (hop_Channel (hd (Hops r))) = src \<and> Destination (hop_Channel (last (Hops r))) = dst \<and>
    hop_Delay (hd (Hops r)) \<le> MAX_ROUTE_DELAY \<and> MilliSatoshi (last (Hops r)) = amount \<and>
    (\<forall>hop \<in> set (Hops r). channelId (hop_Channel hop) \<notin> exclude \<and> Source (hop_Channel hop) \<notin> exclude \<and>
       CanForward (hop_Channel hop) (MilliSatoshi hop))"
proof -
  define req where "req = \<lparr>req_src = src, req_dst = dst, firstHop = None, lastHop = None, req_amount = amount,
       maxHops = hops, maxFee = MaxUint64, req_exclude = exclude, riskPPM = 0, nodePenalty = []\<rparr>"
  have fits: "fits_request req" by (simp add: fits_request_def req_def)
  obtain cs where cs: "search mlog g req = Inr cs" "r = newRouteFromChannels src dst amount cs g"
    using found by (auto simp: GetRoute_def searchRoute_def req_def split: sum.splits)
  obtain l where l: "built g req l" "complete req l" "cs = path l" using search_Inr [OF cs(1)] by blast
  have open_label: "\<not> l_final l"
  proof
    assume "l_final l"
    with l(1) obtain f where "firstHop req = Some f" by (rule built_final) blast
    then show False by (simp add: req_def)
  qed
  have hops: "Hops r = price g amount (path l)" using cs(2) l(3) by (simp add: Hops_newRoute)
  have chans: "map hop_Channel (Hops r) = path l" by (simp add: hops)
  have "Source (l_channel l) = src" using l(2) open_label by (simp add: complete_def req_def)
  then have "Source (hop_Channel (hd (Hops r))) = src" by (simp add: hops channel_hd_price hd_path)
  moreover have "Destination (hop_Channel (last (Hops r))) = dst"
    using built_last [OF l(1) ok] last_map [of "Hops r" hop_Channel] by (simp add: chans hops req_def)
  moreover have "joined (map hop_Channel (Hops r))" using built_joined [OF l(1) ok fits] chans by simp
  moreover have "int (length (Hops r)) \<le> hops"
    using built_length [OF l(1)] built_hops [OF l(1)] by (simp add: hops req_def)
  moreover have "hop_Delay (hd (Hops r)) \<le> MAX_ROUTE_DELAY"
    using built_priced [OF l(1) ok fits] built_limits [OF l(1)] by (simp add: hops req_def)
  moreover have "\<forall>hop \<in> set (Hops r). usable g req hop"
    using built_usable [OF l(1) ok fits] open_label by (simp add: hops between_def req_def)
  ultimately show ?thesis by (auto simp: usable_def req_def hops price_last)
qed

section \<open>A sample network\<close>

text \<open>Our node \<open>us\<close>, our peers \<open>ann\<close> and \<open>bob\<close>, and two channels between them; the listing is what
  listchannels would give.\<close>

definition sample_channel :: "node_id \<Rightarrow> node_id \<Rightarrow> scid \<Rightarrow> u64 \<Rightarrow> GlChannel" where
  "sample_channel from to scid ppm =
     \<lparr>Source = from, Destination = to, ShortChannelId = scid, IsPublic = True, Satoshis = 2000000,
      AmountMsat = 2000000000, MessageFlags = 1, ChannelFlags = 0, IsActive = True, LastUpdate = 10,
      BaseFeeMillisatoshi = 1000, FeePerMillionth = ppm, Delay = 40,
      HtlcMinimumMilliSatoshis = 1000, HtlcMaximumMilliSatoshis = 1900000000\<rparr>"

definition sample_listing :: "GlChannel list" where
  "sample_listing =
     [sample_channel ''us'' ''ann'' ''1x1x1'' 0, sample_channel ''ann'' ''bob'' ''2x1x1'' 100,
      sample_channel ''ann'' ''bob'' ''2x2x2'' 50, sample_channel ''bob'' ''us'' ''3x1x1'' 10]"

definition sample_ends :: "channel_id \<Rightarrow> node_id \<times> node_id" where
  "sample_ends i = (case map_of (map (\<lambda>c. (gl_id c, (Source c, Destination c))) sample_listing) i of
     None \<Rightarrow> ([], []) | Some e \<Rightarrow> e)"

definition sample_graph :: Graph where
  "sample_graph = refreshChannels NewGraph sample_listing"

definition sample_out :: Channel where "sample_out = the (channel_at sample_graph ''1x1x1/1'')"
definition sample_in :: Channel where "sample_in = the (channel_at sample_graph ''3x1x1/0'')"

definition sample_route :: Route where
  "sample_route = (case GetLikelyCircularRoute (\<lambda>_. 0) (\<lambda>_ _. 0) 0 sample_graph sample_out sample_in
     100000000 {} 4 1000000 0 of Inr r \<Rightarrow> r | Inl _ \<Rightarrow> NewRoute [] [] 0 [])"

lemma sample_fits: "\<forall>c \<in> set sample_listing. fits_ends sample_ends c"
  by (simp add: sample_listing_def sample_ends_def fits_ends_def gl_id_def sample_channel_def dir_id_def
      GetDirection_def)

lemma sample_ok: "graph_ok sample_ends sample_graph"
  unfolding sample_graph_def by (rule refreshChannels_ok [OF graph_ok_NewGraph sample_fits])

lemma sample_found:
  "GetLikelyCircularRoute (\<lambda>_. 0) (\<lambda>_ _. 0) 0 sample_graph sample_out sample_in 100000000 {} 4 1000000 0
     = Inr sample_route"
proof -
  have "\<exists>r. GetLikelyCircularRoute (\<lambda>_. 0) (\<lambda>_ _. 0) 0 sample_graph sample_out sample_in 100000000 {} 4 1000000 0
     = Inr r"
  proof (rule sum.exhaust)
    show ?thesis if "GetLikelyCircularRoute (\<lambda>_. 0) (\<lambda>_ _. 0) 0 sample_graph sample_out sample_in
        100000000 {} 4 1000000 0 = Inl e" for e
    proof -
      have "\<not> isl (GetLikelyCircularRoute (\<lambda>_. 0) (\<lambda>_ _. 0) 0 sample_graph sample_out sample_in
        100000000 {} 4 1000000 0)" by code_simp
      with that show ?thesis by simp
    qed
  qed blast
  then show ?thesis by (auto simp: sample_route_def)
qed

lemma sample_found_circular:
  "GetCircularRoute (\<lambda>_. 0) sample_graph sample_out sample_in 100000000 {} 4 1000000 = Inr sample_route"
  using sample_found by (simp add: GetLikelyCircularRoute_def Let_def)

section \<open>The promises\<close>

text \<open>
C1
A route found for a rebalance starts with our channel to the out-peer, ends with our channel from
the in-peer, and its channels join up in between.  No node in the middle is our own, the in-peer
comes only before the last channel and the out-peer only after the first.
\<close>
theorem likely_route_shape:
  assumes "graph_ok ends g"
    and "GetLikelyCircularRoute mlog mpow now g out inc amount exclude hops fee risk = Inr r"
  shows "\<exists>mids. map hop_Channel (Hops r) = out # mids @ [inc] \<and> joined (out # mids @ [inc]) \<and>
    (\<forall>c \<in> set mids. Source c \<noteq> Source out \<and> Source c \<noteq> Source inc) \<and>
    (\<forall>c \<in> set (tl (mids @ [inc])). Source c \<noteq> Destination out)"
proof -
  obtain req where "request_of out inc amount exclude hops fee req" "searchRoute mlog g req = Inr r"
    using GetLikelyCircularRoute_Inr [OF assms(2)] .
  then show ?thesis by (rule route_shape [OF assms(1)]) (intro exI conjI)
qed

theorem likely_route_shape_witness:
  "\<exists>mids. map hop_Channel (Hops sample_route) = sample_out # mids @ [sample_in] \<and>
    joined (sample_out # mids @ [sample_in]) \<and>
    (\<forall>c \<in> set mids. Source c \<noteq> Source sample_out \<and> Source c \<noteq> Source sample_in) \<and>
    (\<forall>c \<in> set (tl (mids @ [sample_in])). Source c \<noteq> Destination sample_out)"
  by (rule likely_route_shape [OF sample_ok sample_found])

text \<open>
C2
A route found for a rebalance is within every limit it was searched with: at most \<open>hops\<close>
channels, fees of at most \<open>fee\<close> as the route itself prices them, a delay of at most 2000 blocks,
no saturated amount, and it delivers exactly the amount asked for.
\<close>
theorem likely_route_limits:
  assumes "graph_ok ends g"
    and "GetLikelyCircularRoute mlog mpow now g out inc amount exclude hops fee risk = Inr r"
  shows "int (length (Hops r)) \<le> hops \<and> Fee r \<le> fee \<and> hop_Delay (hd (Hops r)) \<le> MAX_ROUTE_DELAY \<and>
    MilliSatoshi (hd (Hops r)) \<noteq> MaxUint64 \<and> MilliSatoshi (last (Hops r)) = amount"
proof -
  obtain req where "request_of out inc amount exclude hops fee req" "searchRoute mlog g req = Inr r"
    using GetLikelyCircularRoute_Inr [OF assms(2)] .
  from route_limits [OF assms(1) this] show ?thesis by blast
qed

theorem likely_route_limits_witness:
  "int (length (Hops sample_route)) \<le> 4 \<and> Fee sample_route \<le> 1000000 \<and>
    hop_Delay (hd (Hops sample_route)) \<le> MAX_ROUTE_DELAY \<and>
    MilliSatoshi (hd (Hops sample_route)) \<noteq> MaxUint64 \<and> MilliSatoshi (last (Hops sample_route)) = 100000000"
  by (rule likely_route_limits [OF sample_ok sample_found])

text \<open>
C3
The graph believes that every channel between our own two can carry what a route found sends over
it, and none of those channels nor the nodes that send over them is excluded: the route passes the
check (\<^verbatim>\<open>CanCarry\<close>) that decides whether a known route is used again.
\<close>
theorem likely_route_carries:
  assumes "graph_ok ends g"
    and "GetLikelyCircularRoute mlog mpow now g out inc amount exclude hops fee risk = Inr r"
  shows "CanCarry g r exclude"
proof -
  obtain req where "request_of out inc amount exclude hops fee req" "searchRoute mlog g req = Inr r"
    using GetLikelyCircularRoute_Inr [OF assms(2)] .
  then show ?thesis by (rule route_carries [OF assms(1)])
qed

theorem likely_route_carries_witness: "CanCarry sample_graph sample_route {}"
  by (rule likely_route_carries [OF sample_ok sample_found])

lemma searchRoute_no_such_node:
  "searchRoute mlog g req = Inl ErrNoSuchNode \<Longrightarrow> req_dst req' = req_dst req \<Longrightarrow> req_src req' = req_src req \<Longrightarrow>
   searchRoute mlog g req' = Inl ErrNoSuchNode"
  by (auto simp: searchRoute_def search_def split: if_splits option.splits sum.splits)

lemma searchRoute_errors: "searchRoute mlog g req = Inl e \<Longrightarrow> e = ErrNoRoute \<or> e = ErrNoSuchNode"
  by (auto simp: searchRoute_def search_def split: if_splits option.splits sum.splits)

text \<open>
C34
Weighing routes by their chance never finds fewer of them: whenever \<^verbatim>\<open>GetCircularRoute\<close> has a route,
\<^verbatim>\<open>GetLikelyCircularRoute\<close> has one for the same rebalance, at any risk rate.
\<close>
theorem likely_never_fewer:
  assumes "GetCircularRoute mlog g out inc amount exclude hops fee = Inr r"
  shows "\<exists>r'. GetLikelyCircularRoute mlog mpow now g out inc amount exclude hops fee risk = Inr r'"
proof -
  let ?req = "(circular_request out inc amount exclude hops fee)\<lparr>riskPPM := risk, nodePenalty := nodePenalties mpow now g\<rparr>"
  obtain req where req: "request_of out inc amount exclude hops fee req" "searchRoute mlog g req = Inr r"
    using GetCircularRoute_Inr [OF assms] .
  have "searchRoute mlog g ?req \<noteq> Inl ErrNoSuchNode"
  proof
    assume "searchRoute mlog g ?req = Inl ErrNoSuchNode"
    then have "searchRoute mlog g req = Inl ErrNoSuchNode"
      by (rule searchRoute_no_such_node)
        (use req(1) in \<open>simp_all add: request_of_def circular_def circular_request_def\<close>)
    with req(2) show False by simp
  qed
  then show ?thesis
    using assms searchRoute_errors [of mlog g ?req]
    by (cases "searchRoute mlog g ?req") (auto simp: GetLikelyCircularRoute_def Let_def)
qed

theorem likely_never_fewer_witness:
  "\<exists>r'. GetLikelyCircularRoute (\<lambda>_. 0) (\<lambda>_ _. 0) 0 sample_graph sample_out sample_in 100000000 {} 4 1000000 200
     = Inr r'"
  by (rule likely_never_fewer [OF sample_found_circular])

text \<open>
\<^verbatim>\<open>GetCircularRoute\<close> returns what the search finds at the first hop limit, from 2 on, at which it finds
a route: the search fails at every smaller limit, and the route has at most that many channels.
\<close>
theorem circular_first_limit:
  assumes "graph_ok ends g" "GetCircularRoute mlog g out inc amount exclude hops fee = Inr r"
  shows "\<exists>k. 2 \<le> k \<and> k \<le> hops \<and> int (length (Hops r)) \<le> k \<and>
    searchRoute mlog g (circular_request out inc amount exclude k fee) = Inr r \<and>
    (\<forall>j. 2 \<le> j \<and> j < k \<longrightarrow> searchRoute mlog g (circular_request out inc amount exclude j fee) = Inl ErrNoRoute)"
proof -
  obtain k where k: "2 \<le> k" "k \<le> hops" "searchRoute mlog g (circular_request out inc amount exclude k fee) = Inr r"
    "\<forall>j. 2 \<le> j \<and> j < k \<longrightarrow> searchRoute mlog g (circular_request out inc amount exclude j fee) = Inl ErrNoRoute"
    using circular_from_Inr [OF assms(2) [unfolded GetCircularRoute_def]] by blast
  have "int (length (Hops r)) \<le> k"
    using route_limits(1) [OF assms(1) request_of_circular(1) [OF order_refl] k(3)] .
  with k show ?thesis by blast
qed

theorem circular_first_limit_witness:
  "\<exists>k. 2 \<le> k \<and> k \<le> 4 \<and> int (length (Hops sample_route)) \<le> k \<and>
    searchRoute (\<lambda>_. 0) sample_graph (circular_request sample_out sample_in 100000000 {} k 1000000) = Inr sample_route \<and>
    (\<forall>j. 2 \<le> j \<and> j < k \<longrightarrow>
      searchRoute (\<lambda>_. 0) sample_graph (circular_request sample_out sample_in 100000000 {} j 1000000) = Inl ErrNoRoute)"
  by (rule circular_first_limit [OF sample_ok sample_found_circular])

text \<open>
C35
\<^verbatim>\<open>LeastForwardFee\<close> is a sound way to give up on a pair of channels: no route over them costs less than
it, so where it is above the fee limit the search finds none.
\<close>
theorem least_forward_fee_sound:
  assumes "graph_ok ends g" "channel_at g (channelId out) = Some out" "Source out = Destination inc"
    and "GetLikelyCircularRoute mlog mpow now g out inc amount exclude hops fee risk = Inr r"
  shows "LeastForwardFee g inc (Some out) amount \<le> Fee r \<and> LeastForwardFee g inc (Some out) amount \<le> fee"
proof -
  obtain req where req: "request_of out inc amount exclude hops fee req" "searchRoute mlog g req = Inr r"
    using GetLikelyCircularRoute_Inr [OF assms(4)] .
  have "LeastForwardFee g inc (Some out) amount \<le> Fee r"
    by (rule least_fee_of_route [OF assms(1) req assms(2,3)])
  with route_limits(2) [OF assms(1) req] show ?thesis by (auto intro: order_trans)
qed

lemma sample_ours:
  "channel_at sample_graph (channelId sample_out) = Some sample_out" "Source sample_out = Destination sample_in"
  by code_simp+

theorem least_forward_fee_sound_witness:
  "LeastForwardFee sample_graph sample_in (Some sample_out) 100000000 \<le> Fee sample_route \<and>
    LeastForwardFee sample_graph sample_in (Some sample_out) 100000000 \<le> 1000000"
  by (rule least_forward_fee_sound [OF sample_ok sample_ours sample_found])

text \<open>
A search ends: each turn of its loop lowers the weight of the queue, a natural number in which a
label outweighs everything it is replaced by.
\<close>
theorem search_turn_ends:
  assumes "queue st \<noteq> []" "search_step mlog g req st = Inl st'"
  shows "queue_weight g req st' < queue_weight g req st"
  by (rule search_step_weight [OF assms(2,1)])

definition sample_request :: searchRequest where
  "sample_request = circular_request sample_out sample_in 100000000 {} 4 1000000"

definition sample_next :: search_state where
  "sample_next = (case search_step (\<lambda>_. 0) sample_graph sample_request
     (search_start (\<lambda>_. 0) sample_graph sample_request) of Inl st \<Rightarrow> st
     | Inr _ \<Rightarrow> \<lparr>best = (\<lambda>_. []), expanded = (\<lambda>_. []), queue = []\<rparr>)"

lemma sample_turn:
  "queue (search_start (\<lambda>_. 0) sample_graph sample_request) \<noteq> []"
  "search_step (\<lambda>_. 0) sample_graph sample_request (search_start (\<lambda>_. 0) sample_graph sample_request)
     = Inl sample_next"
proof -
  show "queue (search_start (\<lambda>_. 0) sample_graph sample_request) \<noteq> []" by code_simp
  have "isl (search_step (\<lambda>_. 0) sample_graph sample_request (search_start (\<lambda>_. 0) sample_graph sample_request))"
    by code_simp
  then show "search_step (\<lambda>_. 0) sample_graph sample_request (search_start (\<lambda>_. 0) sample_graph sample_request)
     = Inl sample_next"
    by (auto simp: sample_next_def isl_def)
qed

theorem search_turn_ends_witness:
  "queue_weight sample_graph sample_request sample_next
     < queue_weight sample_graph sample_request (search_start (\<lambda>_. 0) sample_graph sample_request)"
  by (rule search_turn_ends [OF sample_turn])

text \<open>
C36
The search takes labels up in order of their cost: in every state it reaches, no label left or
added costs less than the one it just took from the queue.
\<close>
theorem search_in_cost_order:
  assumes "search_turns mlog g req st" "queue st \<noteq> []" "search_step mlog g req st = Inl st'"
  shows "\<forall>l \<in> set (queue st'). l_cost (fst (heap_pop label_less (queue st))) \<le> l_cost l"
  using search_step_queue [OF search_turns_queue [OF assms(1)] assms(2,3)] by (simp add: queue_from_def)

theorem search_in_cost_order_witness:
  "list_all (\<lambda>l. l_cost (fst (heap_pop label_less (queue (search_start (\<lambda>_. 0) sample_graph sample_request))))
     \<le> l_cost l) (queue sample_next)"
  using search_in_cost_order [OF begun sample_turn] by (simp add: list_all_iff)

text \<open>
A route between two nodes starts at the sender, ends at the receiver, joins up, keeps to the hop
and delay limits, delivers the amount, and uses only channels that are not excluded and that the
graph believes can carry what is sent over them.
\<close>
theorem GetRoute_sound:
  assumes "graph_ok ends g" "GetRoute mlog g src dst amount exclude hops = Inr r"
  shows "joined (map hop_Channel (Hops r)) \<and> Hops r \<noteq> [] \<and> int (length (Hops r)) \<le> hops \<and>
    Source (hop_Channel (hd (Hops r))) = src \<and> Destination (hop_Channel (last (Hops r))) = dst \<and>
    hop_Delay (hd (Hops r)) \<le> MAX_ROUTE_DELAY \<and> MilliSatoshi (last (Hops r)) = amount \<and>
    (\<forall>hop \<in> set (Hops r). channelId (hop_Channel hop) \<notin> exclude \<and> Source (hop_Channel hop) \<notin> exclude \<and>
       CanForward (hop_Channel hop) (MilliSatoshi hop))"
  by (rule GetRoute_route [OF assms])

definition sample_plain :: Route where
  "sample_plain = (case GetRoute (\<lambda>_. 0) sample_graph ''us'' ''bob'' 100000000 {} 4 of
     Inr r \<Rightarrow> r | Inl _ \<Rightarrow> NewRoute [] [] 0 [])"

lemma sample_plain_found: "GetRoute (\<lambda>_. 0) sample_graph ''us'' ''bob'' 100000000 {} 4 = Inr sample_plain"
proof -
  have "\<not> isl (GetRoute (\<lambda>_. 0) sample_graph ''us'' ''bob'' 100000000 {} 4)" by code_simp
  then show ?thesis by (auto simp: sample_plain_def isl_def split: sum.splits)
qed

theorem GetRoute_sound_witness:
  "joined (map hop_Channel (Hops sample_plain)) \<and> Hops sample_plain \<noteq> [] \<and> int (length (Hops sample_plain)) \<le> 4 \<and>
    Source (hop_Channel (hd (Hops sample_plain))) = ''us'' \<and>
    Destination (hop_Channel (last (Hops sample_plain))) = ''bob'' \<and>
    hop_Delay (hd (Hops sample_plain)) \<le> MAX_ROUTE_DELAY \<and> MilliSatoshi (last (Hops sample_plain)) = 100000000 \<and>
    list_all (\<lambda>hop. CanForward (hop_Channel hop) (MilliSatoshi hop)) (Hops sample_plain)"
  using GetRoute_sound [OF sample_ok sample_plain_found] by (simp add: list_all_iff)

end
