(* ===== verification/GraphClaims.thy ===== *)
theory GraphClaims
  imports RouteClaims
begin

text \<open>
  What the graph promises: its beliefs, its adjacency list, its syncs and updates, fees and chances,
  and the way routes are shown and sent again (\<^verbatim>\<open>graph/graph.go\<close>, \<^verbatim>\<open>graph/beliefs.go\<close>,
  \<^verbatim>\<open>graph/channel.go\<close>, \<^verbatim>\<open>graph/route.go\<close>, \<^verbatim>\<open>graph/prettyRoute.go\<close>).
\<close>

section \<open>Beliefs\<close>

definition sample_synced :: Graph where
  "sample_synced = fst (SyncChannels NewGraph sample_listing {} 0)"

definition sample_failed :: Graph where
  "sample_failed = LearnUpperBound 100 sample_synced ''2x1x1/0'' 100000000"

lemma sample_world:
  "world_reachable sample_ends (\<lambda>_ _. 1) ((\<lambda>_. 5), sample_failed)"
proof -
  have "listing_true (\<lambda>_. 5) sample_ends sample_listing"
    using sample_fits unfolding listing_true_def
    by (simp add: shares_capacity_def) (simp add: sample_listing_def sample_channel_def)
  then have "world_reachable sample_ends (\<lambda>_ _. 1) ((\<lambda>_. 5), sample_synced)"
    unfolding sample_synced_def by (intro stepped [OF started [where bal = "\<lambda>_. 5"]] synced)
  moreover have "world_step sample_ends (\<lambda>_ _. 1) ((\<lambda>_. 5), sample_synced) ((\<lambda>_. 5), sample_failed)"
    unfolding sample_failed_def by (rule failed) (auto simp: is_dir_id_def intro: exI [of _ "''2x1x1''"])
  ultimately show ?thesis by (rule stepped)
qed

text \<open>
C9
A bound in the graph is never wrong: in every state reached by failed and forwarded payments, our
own payments, syncs, gossip, pruning, resets and decay, in any order, a channel marked as bounded
really holds at most what the graph says, as long as nobody else's payments move its balance.
\<close>
theorem beliefs_never_wrong:
  assumes "world_reachable ends mpow (bal, g)" "channel_at g i = Some c" "Upper c"
  shows "bal i \<le> unat (Liquidity c)"
  using world_reachable_ok [OF assms(1)] assms(2,3) by (simp add: world_ok_def bounds_true_def)

definition sample_bounded :: Channel where "sample_bounded = the (channel_at sample_failed ''2x1x1/0'')"

lemma sample_bounded: "channel_at sample_failed ''2x1x1/0'' = Some sample_bounded" "Upper sample_bounded"
  by code_simp+

theorem beliefs_never_wrong_witness: "5 \<le> unat (Liquidity sample_bounded)"
  by (rule beliefs_never_wrong [OF sample_world sample_bounded])

text \<open>
After a channel failed to forward an amount for lack of liquidity, the graph does not believe that
it can forward that amount or more, whatever it believed before, and its belief about that
direction never rises.
\<close>
theorem failed_channel_not_used:
  assumes "is_dir_id i" "amount \<noteq> 0" "channel_at g i = Some c" "amount \<le> larger"
  shows "\<exists>c'. channel_at (LearnUpperBound now g i amount) i = Some c' \<and> \<not> CanForward c' larger \<and>
    Liquidity c' \<le> Liquidity c"
proof -
  let ?c = "at_most now amount c"
  have lt: "unat (amount - 1) < unat amount"
    using assms(2) unat_gt_0 [of amount] by (simp add: unat_minus_one)
  have at: "channel_at (LearnUpperBound now g i amount) i = Some ?c"
    using assms(2,3) by (simp add: LearnUpperBound_def channel_at_learn_both [OF assms(1)])
  have low: "Liquidity ?c < amount" "Liquidity ?c \<le> Liquidity c"
    using lt by (auto simp: at_most_def u64_less_iff u64_le_iff)
  have "\<not> CanForward ?c larger"
  proof
    assume "CanForward ?c larger"
    then have "larger \<le> Liquidity ?c" by (auto simp: CanForward_def Let_def split: if_splits)
    with low(1) assms(4) show False by (meson leD order_trans)
  qed
  with at low(2) show ?thesis by blast
qed

lemma sample_known: "channel_at sample_graph ''2x1x1/0'' = Some (the (channel_at sample_graph ''2x1x1/0''))"
  by code_simp

theorem failed_channel_not_used_witness:
  "\<exists>c'. channel_at (LearnUpperBound 100 sample_graph ''2x1x1/0'' 100000000) ''2x1x1/0'' = Some c' \<and>
    \<not> CanForward c' 100000000 \<and> Liquidity c' \<le> Liquidity (the (channel_at sample_graph ''2x1x1/0''))"
  by (rule failed_channel_not_used [OF _ _ sample_known])
     (auto simp: is_dir_id_def intro: exI [of _ "''2x1x1''"])

text \<open>
Decay moves a learned estimate toward half the capacity and never past it, at any half life and
for any elapsed time.
\<close>
theorem decay_never_overshoots:
  assumes "decay_channel mpow h now decayed c = Some c'" "\<not> Upper c" "AmountMsat c \<le> 2 ^ 53"
    and "Liquidity c \<le> AmountMsat c" "keep_ok mpow" "0 \<le> h"
  shows "(AmountMsat c div 2 < Liquidity c \<longrightarrow> AmountMsat c div 2 \<le> Liquidity c' \<and> Liquidity c' \<le> Liquidity c) \<and>
    (Liquidity c \<le> AmountMsat c div 2 \<longrightarrow> Liquidity c \<le> Liquidity c' \<and> Liquidity c' \<le> AmountMsat c div 2)"
  using decay_estimate [OF assms] by blast

definition sample_belief :: Channel where
  "sample_belief = NewChannel (sample_channel ''ann'' ''bob'' ''2x1x1'' 100) 1600000000 100"

definition sample_decayed :: Channel where
  "sample_decayed = the (decay_channel (\<lambda>_ _. 1 / 2) 3600000000000 7300 200 sample_belief)"

lemma decay_channel_None:
  "decay_channel mpow h now decayed c = None \<longleftrightarrow> Timestamp c = 0 \<or>
     i64 (now - (if decayed > Timestamp c then decayed else Timestamp c)) \<le> 0 \<or>
     (Liquidity c = AmountMsat c div 2 \<and> \<not> Upper c) \<or> Liquidity c = 0"
  by (simp add: decay_channel_def Let_def)

lemma sample_decay:
  "decay_channel (\<lambda>_ _. 1 / 2) 3600000000000 7300 200 sample_belief = Some sample_decayed"
  "\<not> Upper sample_belief" "AmountMsat sample_belief \<le> 2 ^ 53" "Liquidity sample_belief \<le> AmountMsat sample_belief"
proof -
  have "i64 7100 = 7100" by (rule i64_exact) simp
  then have "decay_channel (\<lambda>_ _. 1 / 2) 3600000000000 7300 200 sample_belief \<noteq> None"
    unfolding decay_channel_None by (simp add: sample_belief_def sample_channel_def)
  then show "decay_channel (\<lambda>_ _. 1 / 2) 3600000000000 7300 200 sample_belief = Some sample_decayed"
    by (auto simp: sample_decayed_def)
qed (simp_all add: sample_belief_def sample_channel_def)

lemma sample_keep: "keep_ok (\<lambda>_ _. 1 / 2)"
  by (simp add: keep_ok_def)

theorem decay_never_overshoots_witness:
  "1000000000 \<le> Liquidity sample_decayed \<and> Liquidity sample_decayed \<le> 1600000000"
  using decay_never_overshoots [OF sample_decay sample_keep] by (simp add: sample_belief_def sample_channel_def)

section \<open>Syncs and updates\<close>



text \<open>
A refresh never forgets what payments taught: every channel known before is still there with the
same liquidity, bound and time, under a policy at least as new; and every channel listed is there.
\<close>
theorem refresh_keeps_beliefs:
  assumes "channel_at g i = Some old"
  shows "(\<exists>new. channel_at (refreshChannels g cs) i = Some new \<and> Liquidity new = Liquidity old \<and>
      Timestamp new = Timestamp old \<and> Upper new = Upper old \<and> LastUpdate old \<le> LastUpdate new) \<and>
    (\<forall>c \<in> set cs. channel_at (refreshChannels g cs) (gl_id c) \<noteq> None)"
  using refreshChannels_known [OF assms, of cs] refreshChannels_listed [of _ cs g]
  unfolding kept_belief_def by blast

theorem refresh_keeps_beliefs_witness:
  "(\<exists>new. channel_at (refreshChannels sample_failed sample_listing) ''2x1x1/0'' = Some new \<and>
      Liquidity new = Liquidity sample_bounded \<and> Timestamp new = Timestamp sample_bounded \<and>
      Upper new = Upper sample_bounded \<and> LastUpdate sample_bounded \<le> LastUpdate new) \<and>
    list_all (\<lambda>c. channel_at (refreshChannels sample_failed sample_listing) (gl_id c) \<noteq> None) sample_listing"
  using refresh_keeps_beliefs [OF sample_bounded(1)] unfolding list_all_iff .

section \<open>Fees\<close>

lemma neg_div_neg: "- (- n div 1000000) = (n + 999999) div (1000000 :: int)"
proof -
  define q r where "q = n div 1000000" and "r = n mod 1000000"
  have n: "n + 999999 = (r + 999999) + q * 1000000" and r: "0 \<le> r" "r < 1000000"
    by (simp_all add: q_def r_def)
  have up: "(n + 999999) div 1000000 = q + (r + 999999) div 1000000" unfolding n by simp
  show ?thesis
  proof (cases "r = 0")
    case True
    then show ?thesis unfolding up by (simp add: zdiv_zminus1_eq_if q_def r_def)
  next
    case False
    have "(r + 999999) div 1000000 = ((r - 1) + 1 * 1000000) div 1000000" by simp
    also have "\<dots> = 1" using r False by (simp only: div_mult_self1 div_pos_pos_trivial)
    finally show ?thesis using False unfolding up by (simp add: zdiv_zminus1_eq_if q_def r_def)
  qed
qed

text \<open>
The fee of a channel is the base fee plus the proportional fee rounded up, exactly, capped at the
largest 64-bit number: nothing wraps, and the 128-bit division of the code never panics.
\<close>
theorem ComputeFee_exact:
  "unat (ComputeFee c amount) =
     min (unat (BaseFeeMillisatoshi c) + nat \<lceil>rat_of_nat (unat amount * unat (FeePerMillionth c)) / 1000000\<rceil>)
         (2 ^ 64 - 1)"
proof -
  have "nat \<lceil>rat_of_nat n / 1000000\<rceil> = (n + 999999) div 1000000" for n
  proof -
    have "\<lceil>rat_of_int (int n) / rat_of_int 1000000\<rceil> = - (- int n div 1000000)"
      by (rule ceiling_divide_eq_div)
    moreover have "- (- int n div 1000000) = (int n + 999999) div 1000000" by (rule neg_div_neg)
    ultimately show ?thesis by (simp add: nat_add_distrib nat_div_distrib)
  qed
  then show ?thesis by (simp only: unat_ComputeFee)
qed

text \<open>
C38
The inbound fee of a channel is its signed base fee plus its rate, capped at 1000% either way, of
the amount, rounded towards zero; no step of the code's \<^verbatim>\<open>int64\<close> arithmetic wraps for any amount up
to 4.6 million bitcoin.
\<close>
theorem inboundFee_exact:
  assumes "map_of (InboundFees g) i = Some fee" "uint amount div 1000000 \<le> 461168601842"
  shows "inboundFee g i amount = sint (BaseFee fee) + (uint amount * capped_rate fee) sdiv 1000000
    \<and> is_i64 (inboundFee g i amount)"
  using inboundFee_exact_aux [OF assms(1), of amount] assms(2) by (simp add: maxInboundFeeRate_def)

theorem inboundFee_exact_witness:
  "inboundFee (SetInboundFee sample_graph ''2x1x1/0'' 5 (- 200)) ''2x1x1/0'' 100000000
     = sint (5 :: u32) + (uint (100000000 :: u64) * capped_rate \<lparr>BaseFee = 5, FeeRate = - 200\<rparr>) sdiv 1000000
   \<and> is_i64 (inboundFee (SetInboundFee sample_graph ''2x1x1/0'' 5 (- 200)) ''2x1x1/0'' 100000000)"
  using inboundFee_exact [of "SetInboundFee sample_graph ''2x1x1/0'' 5 (- 200)" "''2x1x1/0''"
      "\<lparr>BaseFee = 5, FeeRate = - 200\<rparr>" 100000000]
  by (simp add: SetInboundFee_def)

text \<open>
What a node charges is its outbound fee plus its inbound fee as integers, never below zero and
never above the largest 64-bit number.
\<close>
theorem nodeFee_clamped:
  assumes "is_i64 i" "out \<noteq> MaxUint64"
  shows "uint (nodeFee out i) = min (max 0 (uint out + i)) 18446744073709551615"
  using nodeFee_exact [OF assms] by simp

theorem nodeFee_clamped_witness:
  "uint (nodeFee 1000 (- 300)) = min (max 0 (uint (1000 :: u64) + (- 300))) 18446744073709551615"
  by (rule nodeFee_clamped) simp_all

text \<open>
C39
A rate limit turned into a fee limit and back loses nothing: as long as the product fits in 64
bits, a fee is within \<^verbatim>\<open>MaxFeeForPPM\<close> exactly if its rate, rounded down, is within the limit.
\<close>
theorem MaxFeeForPPM_exact:
  assumes "amount \<noteq> 0" "ppm \<noteq> MaxUint64" "(unat ppm + 1) * unat amount < 2 ^ 64"
  shows "fee \<le> MaxFeeForPPM amount ppm \<longleftrightarrow> feePPM_rebalance fee amount \<le> ppm"
  by (rule MaxFeeForPPM_adjoint [OF assms])

theorem MaxFeeForPPM_exact_witness:
  "(20000 :: u64) \<le> MaxFeeForPPM 100000000 200 \<longleftrightarrow> feePPM_rebalance 20000 100000000 \<le> 200"
  by (rule MaxFeeForPPM_exact) simp_all

section \<open>Chances\<close>

text \<open>
The chance that a channel can carry an amount is between 0 and 1 and never rises with the amount,
whatever the belief about it, with every operation rounded as float64 does.
\<close>
theorem SuccessChance_sound:
  assumes "AmountMsat c \<noteq> MaxUint64" "a \<le> b"
  shows "0 \<le> SuccessChance c b \<and> SuccessChance c b \<le> SuccessChance c a \<and> SuccessChance c a \<le> 1"
  using SuccessChance_unit [OF assms(1)] SuccessChance_antimono [OF assms] by blast

theorem SuccessChance_sound_witness:
  "0 \<le> SuccessChance sample_belief 1500000000 \<and>
   SuccessChance sample_belief 1500000000 \<le> SuccessChance sample_belief 1300000000 \<and>
   SuccessChance sample_belief 1300000000 \<le> 1"
proof -
  have "AmountMsat sample_belief \<noteq> MaxUint64" by code_simp
  then show ?thesis by (rule SuccessChance_sound) simp
qed

section \<open>Routes\<close>

text \<open>
The fees shown for the hops of a route add up exactly to the fee shown for the route.
\<close>
theorem pretty_fees_add_up:
  assumes "cs \<noteq> []" "route = newRouteFromChannels src dst amount cs g"
  shows "fee_sum (map ph_Fee (pr_Hops (NewPrettyRoute g' route h))) = unat (pr_Fee (NewPrettyRoute g' route h))"
  using pretty_fee_sum [OF assms(1), of g' src dst amount g h] assms
  by (simp add: NewPrettyRoute_def Hops_newRoute Let_def)

theorem pretty_fees_add_up_witness:
  "fee_sum (map ph_Fee (pr_Hops (NewPrettyRoute sample_graph
      (newRouteFromChannels ''ann'' ''bob'' 100000000 [sample_out, sample_belief, sample_in] sample_graph) ''00'')))
   = unat (pr_Fee (NewPrettyRoute sample_graph
      (newRouteFromChannels ''ann'' ''bob'' 100000000 [sample_out, sample_belief, sample_in] sample_graph) ''00''))"
  by (rule pretty_fees_add_up [OF _ refl]) simp

text \<open>
When the inbound fees on a route are all discounts, they never make it dearer: its fee is at most
the fee without them, so the savings shown are not negative.
\<close>
theorem discounts_save:
  assumes "cs \<noteq> []" "only_discounts g cs" "route = newRouteFromChannels src dst amount cs g"
    and "GetFeeWithoutInboundFee route < 9223372036854775808"
  shows "InboundSavingsMSat (NewPrettyRoute g route h)
      = int (unat (GetFeeWithoutInboundFee route)) - int (unat (Fee route)) \<and>
    0 \<le> InboundSavingsMSat (NewPrettyRoute g route h)"
proof -
  have le: "unat (Fee route) \<le> unat (GetFeeWithoutInboundFee route)"
    using Fee_le_without [OF assms(1,2)] assms(3) by (simp add: u64_le_iff)
  have lt: "unat (GetFeeWithoutInboundFee route) < 9223372036854775808"
    using assms(4) by (simp add: u64_less_iff)
  have "sint (GetFeeWithoutInboundFee route) = uint (GetFeeWithoutInboundFee route)"
    "sint (Fee route) = uint (Fee route)"
    using le lt by (intro sint_small_u64; simp add: uint_int del: of_nat_unat)+
  moreover have "i64 (uint (GetFeeWithoutInboundFee route) - uint (Fee route))
      = uint (GetFeeWithoutInboundFee route) - uint (Fee route)"
    using le lt by (intro i64_exact) (auto simp: uint_int simp del: of_nat_unat)
  moreover have "Hops route \<noteq> []" using assms(1,3) by (simp add: Hops_newRoute)
  ultimately show ?thesis
    using le by (simp add: NewPrettyRoute_def Let_def uint_int del: of_nat_unat)
qed

lemma sample_no_inbound: "only_discounts sample_graph [sample_out, sample_belief, sample_in]"
proof -
  have "InboundFees sample_graph = []" by code_simp
  then show ?thesis by (simp add: only_discounts_def GetInboundFee_def inboundFee_def)
qed

theorem discounts_save_witness:
  "InboundSavingsMSat (NewPrettyRoute sample_graph
      (newRouteFromChannels ''ann'' ''bob'' 100000000 [sample_out, sample_belief, sample_in] sample_graph) ''00'')
     = int (unat (GetFeeWithoutInboundFee
         (newRouteFromChannels ''ann'' ''bob'' 100000000 [sample_out, sample_belief, sample_in] sample_graph)))
       - int (unat (Fee (newRouteFromChannels ''ann'' ''bob'' 100000000 [sample_out, sample_belief, sample_in] sample_graph)))
   \<and> 0 \<le> InboundSavingsMSat (NewPrettyRoute sample_graph
      (newRouteFromChannels ''ann'' ''bob'' 100000000 [sample_out, sample_belief, sample_in] sample_graph) ''00'')"
proof (rule discounts_save [OF _ sample_no_inbound refl])
  show "GetFeeWithoutInboundFee (newRouteFromChannels ''ann'' ''bob'' 100000000
      [sample_out, sample_belief, sample_in] sample_graph) < 9223372036854775808"
    by code_simp
qed simp

text \<open>
C40
A route sent again over the channels of an earlier one is that route: it goes over exactly the
channels named, which join up and are active, delivers the amount, keeps every hop within its HTLC
limits and the delay within 2000 blocks.
\<close>
theorem route_again_sound:
  assumes "graph_ok ends g" "GetRouteOverChannels g ids amount = Inr r"
  shows "ChannelIds r = ids \<and> joined (map hop_Channel (Hops r)) \<and> MilliSatoshi (last (Hops r)) = amount \<and>
    hop_Delay (hd (Hops r)) \<le> MAX_ROUTE_DELAY \<and>
    (\<forall>hop \<in> set (Hops r). IsActive (hop_Channel hop) \<and> MilliSatoshi hop \<noteq> MaxUint64 \<and>
       minHtlcMsat (hop_Channel hop) \<le> MilliSatoshi hop \<and> MilliSatoshi hop \<le> maxHtlcMsat (hop_Channel hop))"
proof -
  from GetRouteOverChannels_Inr [OF assms(2)] obtain cs where
    cs: "cs \<noteq> []" "map (channel_at g) ids = map Some cs" "joined cs" "\<forall>c \<in> set cs. IsActive c"
      "r = newRouteFromChannels (Destination (hd cs)) (Source (last cs)) amount cs g"
    and limits: "\<forall>hop \<in> set (Hops r). MilliSatoshi hop \<noteq> MaxUint64 \<and> minHtlcMsat (hop_Channel hop) \<le> MilliSatoshi hop
       \<and> MilliSatoshi hop \<le> maxHtlcMsat (hop_Channel hop)"
    "hop_Delay (hd (Hops r)) \<le> MAX_ROUTE_DELAY" .
  have len: "length ids = length cs" using cs(2) map_eq_imp_length_eq by blast
  have "ids ! k = channelId (cs ! k)" if "k < length ids" for k
  proof -
    have "channel_at g (ids ! k) = Some (cs ! k)"
      using arg_cong [OF cs(2), of "\<lambda>xs. xs ! k"] that len by simp
    then show ?thesis by (rule graph_okD(4) [OF assms(1)])
  qed
  then have "ids = map channelId cs" using len by (intro nth_equalityI) simp_all
  moreover have "map hop_Channel (Hops r) = cs" using cs(1,5) by (simp add: map_channel_newRoute)
  moreover have "IsActive (hop_Channel hop)" if "hop \<in> set (Hops r)" for hop
    using that cs(4) \<open>map hop_Channel (Hops r) = cs\<close> by (metis image_eqI image_set)
  ultimately show ?thesis
    using cs limits by (simp add: ChannelIds_newRoute Hops_newRoute price_last)
qed

definition sample_again :: Route where
  "sample_again = (case GetRouteOverChannels sample_graph [''1x1x1/1'', ''2x1x1/0'', ''3x1x1/0''] 100000000 of
     Inr r \<Rightarrow> r | Inl _ \<Rightarrow> NewRoute [] [] 0 [])"

lemma sample_again:
  "GetRouteOverChannels sample_graph [''1x1x1/1'', ''2x1x1/0'', ''3x1x1/0''] 100000000 = Inr sample_again"
proof -
  have "\<not> isl (GetRouteOverChannels sample_graph [''1x1x1/1'', ''2x1x1/0'', ''3x1x1/0''] 100000000)" by code_simp
  then show ?thesis by (auto simp: sample_again_def isl_def split: sum.splits)
qed

theorem route_again_sound_witness:
  "ChannelIds sample_again = [''1x1x1/1'', ''2x1x1/0'', ''3x1x1/0''] \<and>
    joined (map hop_Channel (Hops sample_again)) \<and> MilliSatoshi (last (Hops sample_again)) = 100000000 \<and>
    hop_Delay (hd (Hops sample_again)) \<le> MAX_ROUTE_DELAY \<and>
    list_all (\<lambda>hop. IsActive (hop_Channel hop) \<and> MilliSatoshi hop \<noteq> MaxUint64 \<and>
       minHtlcMsat (hop_Channel hop) \<le> MilliSatoshi hop \<and> MilliSatoshi hop \<le> maxHtlcMsat (hop_Channel hop))
      (Hops sample_again)"
  using route_again_sound [OF sample_ok sample_again] unfolding list_all_iff .

end
