(* ===== verification/GossipClaims.thy ===== *)
theory GossipClaims
  imports Gossip GraphBeliefs
begin

text \<open>
  What the reader of the gossip store guarantees.  The writer's side is an encoder of the layouts
  of BOLT 1 (BigSize, TLV records), BOLT 7 (channel_update) and bLIP-18 (TLV 55555), as
  \<^verbatim>\<open>node/gossip_test.go\<close> writes them.
\<close>

section \<open>What is written\<close>

primrec be_bytes :: "nat \<Rightarrow> int \<Rightarrow> byte list" where
  "be_bytes 0 n = []"
| "be_bytes (Suc k) n = be_bytes k (n div 256) @ [word_of_int n]"

lemma length_be_bytes [simp]: "length (be_bytes k n) = k"
  by (induction k arbitrary: n) simp_all

lemma be_append: "be (bs @ [b]) = be bs * 256 + uint b"
  by (simp add: be_def)

lemma be_be_bytes: "be (be_bytes k n) = n mod 256 ^ k"
proof (induction k arbitrary: n)
  case (Suc k)
  have "uint (word_of_int n :: byte) = n mod 256" by (simp add: uint_word_of_int)
  then show ?case
    using zmod_zmult2_eq [of "256 ^ k" n 256] by (simp add: Suc be_append)
qed (simp add: be_def)

lemma be_read [simp]:
  "be16 (be_bytes 2 (uint x)) = x" "be32 (be_bytes 4 (uint y)) = y" "be64 (be_bytes 8 (uint z)) = z"
proof -
  have "uint x mod 256 ^ 2 = uint x" "uint y mod 256 ^ 4 = uint y" "uint z mod 256 ^ 8 = uint z"
    using uint_lt2p [of x] uint_lt2p [of y] uint_lt2p [of z] by simp_all
  then show "be16 (be_bytes 2 (uint x)) = x" "be32 (be_bytes 4 (uint y)) = y" "be64 (be_bytes 8 (uint z)) = z"
    by (simp_all add: be16_def be32_def be64_def be_be_bytes)
qed

text \<open>A number is written as a BigSize, in the shortest form.\<close>

definition bigsize :: "u64 \<Rightarrow> byte list" where
  "bigsize n =
     (if n < 0xfd then [ucast n]
      else if uint n < 2 ^ 16 then 0xfd # be_bytes 2 (uint n)
      else if uint n < 2 ^ 32 then 0xfe # be_bytes 4 (uint n)
      else 0xff # be_bytes 8 (uint n))"

lemma slice_middle: "i = length pre \<Longrightarrow> j = i + length mid \<Longrightarrow> slice i j (pre @ mid @ post) = mid"
  by (simp add: slice_def)

lemma slice_after:
  "i = Suc (length pre) \<Longrightarrow> j = i + length mid \<Longrightarrow> slice i j (pre @ b # mid @ post) = mid"
  using slice_middle [of i "pre @ [b]" j mid post] by simp

lemma ucast_be_bytes:
  "uint n < 2 ^ 16 \<Longrightarrow> ucast (be16 (be_bytes 2 (uint n))) = (n :: u64)"
  "uint n < 2 ^ 32 \<Longrightarrow> ucast (be32 (be_bytes 4 (uint n))) = (n :: u64)"
  by (simp_all add: be16_def be32_def be_be_bytes word_uint_eq_iff unsigned_ucast_eq take_bit_eq_mod uint_word_of_int uint_mod)

lemma parseBigSize_bigsize:
  "parseBigSize (pre @ bigsize n @ post) (length pre) = (Some n, length pre + length (bigsize n))"
proof -
  let ?data = "pre @ bigsize n @ post"
  consider (one) "n < 0xfd" | (two) "\<not> n < 0xfd" "uint n < 2 ^ 16"
    | (four) "\<not> n < 0xfd" "\<not> uint n < 2 ^ 16" "uint n < 2 ^ 32"
    | (eight) "\<not> n < 0xfd" "\<not> uint n < 2 ^ 16" "\<not> uint n < 2 ^ 32" by blast
  then show ?thesis
  proof cases
    case one
    then have n: "uint n < 253" by (simp add: word_less_def)
    then have "uint (ucast n :: byte) = uint n"
      by (simp add: unsigned_ucast_eq take_bit_eq_mod)
    moreover have "uint (ucast b :: u64) = uint b" for b :: byte
      using uint_lt2p [of b] by (simp add: unsigned_ucast_eq take_bit_eq_mod)
    ultimately have "(ucast n :: byte) < 0xfd" "ucast (ucast n :: byte) = n"
      using n by (simp_all only: word_less_def word_uint_eq_iff) simp
    then show ?thesis using one by (simp add: parseBigSize_def bigsize_def nth_append)
  next
    case two
    then show ?thesis
      by (simp add: parseBigSize_def bigsize_def nth_append Let_def slice_after ucast_be_bytes)
  next
    case four
    then show ?thesis
      by (simp add: parseBigSize_def bigsize_def nth_append Let_def slice_after ucast_be_bytes)
  next
    case eight
    then show ?thesis
      by (simp add: parseBigSize_def bigsize_def nth_append Let_def slice_after)
  qed
qed

text \<open>A TLV record is its type, the length of its value, and its value.\<close>

definition tlv_bytes :: "u64 \<times> byte list \<Rightarrow> byte list" where
  "tlv_bytes = (\<lambda>(t, v). bigsize t @ bigsize (of_nat (length v)) @ v)"

definition announced_fee :: "(u64 \<times> byte list) list \<Rightarrow> InboundFee option" where
  "announced_fee recs =
     (case find (\<lambda>(t, v). t = 55555) recs of
        Some (t, v) \<Rightarrow>
          if length v = 8 then Some \<lparr>BaseFee = be32 (take 4 v), FeeRate = be32 (drop 4 v)\<rparr> else None
      | None \<Rightarrow> None)"

lemma bigsize_nonempty [simp]: "bigsize n \<noteq> []"
  by (simp add: bigsize_def)

lemma announced_fee_Cons:
  "announced_fee ((t, v) # recs) =
     (if t = 55555 then
        (if length v = 8 then Some \<lparr>BaseFee = be32 (take 4 v), FeeRate = be32 (drop 4 v)\<rparr> else None)
      else announced_fee recs)"
  by (simp add: announced_fee_def)

lemma parse_tlvs_stream:
  assumes "\<forall>r \<in> set recs. length (snd r) < 2 ^ 64"
  shows "parse_tlvs (pre @ concat (map tlv_bytes recs)) (length pre) = announced_fee recs"
  using assms
proof (induction recs arbitrary: pre)
  case Nil
  then show ?case by (simp add: parse_tlvs.simps announced_fee_def)
next
  case (Cons r recs)
  obtain t v where r: "r = (t, v)" by (cases r)
  let ?n = "of_nat (length v) :: u64" and ?rest = "concat (map tlv_bytes recs)"
  let ?data = "pre @ bigsize t @ bigsize ?n @ v @ ?rest"
  have n: "uint ?n = int (length v)"
    using Cons.prems by (simp add: r unsigned_of_nat take_bit_nat_eq_self)
  have p1: "parseBigSize ?data (length pre) = (Some t, length pre + length (bigsize t))"
    by (rule parseBigSize_bigsize)
  have p2: "parseBigSize ?data (length pre + length (bigsize t))
      = (Some ?n, length pre + length (bigsize t) + length (bigsize ?n))"
    using parseBigSize_bigsize [of "pre @ bigsize t" ?n "v @ ?rest"] by simp
  let ?at = "length pre + length (bigsize t) + length (bigsize ?n)"
  have v: "slice ?at (?at + length v) ?data = v"
    using slice_middle [of ?at "pre @ bigsize t @ bigsize ?n" "?at + length v" v ?rest] by simp
  have go: "parse_tlvs ?data (?at + length v) = announced_fee recs"
    using Cons.IH [of "pre @ bigsize t @ bigsize ?n @ v"] Cons.prems by (simp add: add.assoc)
  have "length pre < length ?data" by simp
  then have "parse_tlvs ?data (length pre) =
     (if t = 55555 then
        (if length v \<noteq> 8 then None
         else Some \<lparr>BaseFee = be32 (slice 0 4 v), FeeRate = be32 (slice 4 8 v)\<rparr>)
      else parse_tlvs ?data (?at + length v))"
    by (subst parse_tlvs.simps) (simp add: p1 p2 n v Let_def)
  then have "parse_tlvs ?data (length pre) = announced_fee (r # recs)"
    unfolding go by (simp add: r announced_fee_Cons slice_def)
  then show ?case by (simp add: r tlv_bytes_def)
qed

section \<open>channel_update\<close>

text \<open>
  The bytes of a channel_update: type, signature and chain hash (98 bytes that are not read beyond
  the type), scid, and the fields of \<open>u\<close>; then the TLV records.
\<close>

definition update_bytes :: "byte list \<Rightarrow> byte list \<Rightarrow> ChannelUpdate \<Rightarrow> (u64 \<times> byte list) list \<Rightarrow> byte list" where
  "update_bytes head scid u recs =
     head @ scid @ be_bytes 4 (uint (cu_Timestamp u)) @ [cu_MessageFlags u] @ [cu_ChannelFlags u] @
     be_bytes 2 (uint (CltvDelta u)) @ be_bytes 8 (uint (HtlcMinimumMsat u)) @
     be_bytes 4 (uint (BaseFeeMsat u)) @ be_bytes 4 (uint (FeePPM u)) @
     (if cu_MessageFlags u AND 1 \<noteq> 0 then be_bytes 8 (uint (HtlcMaximumMsat u)) else []) @
     concat (map tlv_bytes recs)"

text \<open>An update that fits the wire format.\<close>

definition on_the_wire :: "byte list \<Rightarrow> ChannelUpdate \<Rightarrow> bool" where
  "on_the_wire scid u \<longleftrightarrow>
     length scid = 8 \<and> ChannelId u = directed_id (scid_string scid) (cu_ChannelFlags u AND 1) \<and>
     uint (cu_Timestamp u) < 2 ^ 32 \<and> uint (CltvDelta u) < 2 ^ 16 \<and>
     (cu_MessageFlags u AND 1 = 0 \<longrightarrow> HtlcMaximumMsat u = 0)"

lemma read_field:
  assumes "body = pre @ mid @ post" "length pre = i" "i + length mid = j"
  shows "slice i j body = mid"
  using assms by (simp add: slice_def)

lemma read_byte: "body = pre @ [b] @ post \<Longrightarrow> length pre = i \<Longrightarrow> body ! i = b"
  by (simp add: nth_append)

lemma read_update_bytes:
  assumes wire: "on_the_wire scid u" and head: "length head = 98"
    and body: "body = update_bytes head scid u recs"
  shows "read_update body = u\<lparr>HtlcMaximumMsat := 0\<rparr>" "body ! 110 = cu_MessageFlags u"
    "body ! 111 = cu_ChannelFlags u" "slice 98 106 body = scid" "130 \<le> length body"
    "cu_MessageFlags u AND 1 \<noteq> 0 \<Longrightarrow> 138 \<le> length body \<and> be64 (slice 130 138 body) = HtlcMaximumMsat u
       \<and> drop 138 body = concat (map tlv_bytes recs)"
    "cu_MessageFlags u AND 1 = 0 \<Longrightarrow> drop 130 body = concat (map tlv_bytes recs)"
proof -
  have scid: "length scid = 8" using wire by (simp add: on_the_wire_def)
  have b: "drop 98 body = scid @ be_bytes 4 (uint (cu_Timestamp u)) @ [cu_MessageFlags u] @ [cu_ChannelFlags u] @
     be_bytes 2 (uint (CltvDelta u)) @ be_bytes 8 (uint (HtlcMinimumMsat u)) @
     be_bytes 4 (uint (BaseFeeMsat u)) @ be_bytes 4 (uint (FeePPM u)) @
     (if cu_MessageFlags u AND 1 \<noteq> 0 then be_bytes 8 (uint (HtlcMaximumMsat u)) else []) @
     concat (map tlv_bytes recs)" (is "_ = ?b")
    using head by (simp add: body update_bytes_def)
  have sl: "slice i j body = take (j - i) (drop (i - 98) ?b)" if "98 \<le> i" "i \<le> j" for i j
    using that unfolding b [symmetric] by (simp add: slice_def)
  have nt: "body ! i = ?b ! (i - 98)" if "98 \<le> i" for i
    using that head unfolding body update_bytes_def by (simp add: nth_append)
  show s: "slice 98 106 body = scid" by (simp add: sl scid)
  show m: "body ! 110 = cu_MessageFlags u" and c: "body ! 111 = cu_ChannelFlags u"
    by (simp_all add: nt nth_append scid)
  have "slice 106 110 body = be_bytes 4 (uint (cu_Timestamp u))"
    "slice 112 114 body = be_bytes 2 (uint (CltvDelta u))"
    "slice 114 122 body = be_bytes 8 (uint (HtlcMinimumMsat u))"
    "slice 122 126 body = be_bytes 4 (uint (BaseFeeMsat u))"
    "slice 126 130 body = be_bytes 4 (uint (FeePPM u))"
    by (simp_all add: sl scid)
  then show "read_update body = u\<lparr>HtlcMaximumMsat := 0\<rparr>"
    using wire by (simp add: read_update_def s m c on_the_wire_def ucast_be_bytes)
  show "130 \<le> length body" using head scid by (simp add: body update_bytes_def)
  show "cu_MessageFlags u AND 1 \<noteq> 0 \<Longrightarrow> 138 \<le> length body \<and> be64 (slice 130 138 body) = HtlcMaximumMsat u
       \<and> drop 138 body = concat (map tlv_bytes recs)"
    using head scid by (simp add: sl) (simp add: body update_bytes_def)
  show "cu_MessageFlags u AND 1 = 0 \<Longrightarrow> drop 130 body = concat (map tlv_bytes recs)"
    using head scid by (simp add: body update_bytes_def)
qed

definition after_update :: "Graph \<Rightarrow> byte list \<Rightarrow> ChannelUpdate \<Rightarrow> InboundFee option \<Rightarrow> Graph" where
  "after_update g scid u fee =
     (let g1 = fst (ApplyChannelUpdate g u);
          other = directed_id (scid_string scid) (1 - (cu_ChannelFlags u AND 1)) in
      case fee of Some f \<Rightarrow> SetInboundFee g1 other (BaseFee f) (FeeRate f)
      | None \<Rightarrow> fst (DeleteInboundFee g1 other))"

text \<open>
C28
A channel_update written as BOLT 7 lays it out, with any TLV records after it, is read back: the
graph is given exactly the update that was written, the inbound fee of the opposite direction is
the one its records announce (bLIP-18), and a fee that is no longer announced is removed.
\<close>
theorem gossip_update_read_back:
  assumes wire: "on_the_wire scid u" and head: "length head = 98"
    and small: "\<forall>r \<in> set recs. length (snd r) < 2 ^ 64"
  shows "parseChannelUpdate g (update_bytes head scid u recs) = after_update g scid u (announced_fee recs)"
proof -
  let ?b = "update_bytes head scid u recs"
  note read = read_update_bytes [OF wire head refl, of recs]
  have fee: "parseInboundFee (concat (map tlv_bytes recs)) = announced_fee recs"
    using parse_tlvs_stream [OF small, of "[]"] by (simp add: parseInboundFee_def)
  show ?thesis
  proof (cases "cu_MessageFlags u AND 1 = 0")
    case True
    then have "u\<lparr>HtlcMaximumMsat := 0\<rparr> = u" using wire by (simp add: on_the_wire_def)
    with True show ?thesis using read
      by (simp add: parseChannelUpdate_def after_update_def Let_def fee not_less)
  next
    case False
    note max = read(6) [OF False]
    have full: "(read_update ?b)\<lparr>HtlcMaximumMsat := be64 (slice 130 138 ?b)\<rparr> = u"
      unfolding read(1) conjunct1 [OF conjunct2 [OF max]] by (cases u) simp
    show ?thesis using False read(2-5) max [THEN conjunct1] max [THEN conjunct2, THEN conjunct2]
      by (simp add: parseChannelUpdate_def after_update_def Let_def fee not_less full split: option.split)
  qed
qed

definition sample_update :: ChannelUpdate where
  "sample_update = \<lparr>ChannelId = directed_id (scid_string [0, 0, 7, 0, 0, 1, 0, 0]) 1, cu_Timestamp = 1700000000,
     cu_MessageFlags = 1, cu_ChannelFlags = 1, CltvDelta = 80, HtlcMinimumMsat = 1000,
     HtlcMaximumMsat = 990000000, BaseFeeMsat = 1, FeePPM = 250\<rparr>"

theorem gossip_update_read_back_witness:
  "InboundFees (parseChannelUpdate NewGraph (update_bytes (replicate 98 1) [0, 0, 7, 0, 0, 1, 0, 0] sample_update
     [(3, [1, 2]), (55555, [0, 0, 0, 5, 0xff, 0xff, 0xff, 0x9c])]))
   = [(''7x1x0/0'', \<lparr>BaseFee = 5, FeeRate = - 100\<rparr>)]"
proof -
  have "on_the_wire [0, 0, 7, 0, 0, 1, 0, 0] sample_update"
    by (simp add: on_the_wire_def sample_update_def)
  moreover have "InboundFees (after_update NewGraph [0, 0, 7, 0, 0, 1, 0, 0] sample_update
      (announced_fee [(3, [1, 2]), (55555, [0, 0, 0, 5, 0xff, 0xff, 0xff, 0x9c])]))
    = [(''7x1x0/0'', \<lparr>BaseFee = 5, FeeRate = - 100\<rparr>)]" by code_simp
  ultimately show ?thesis by (subst gossip_update_read_back) simp_all
qed

section \<open>A store that grows\<close>

lemma readGossipRecord_prefix:
  assumes "readGossipRecord wait bytes = Some (flags, rec)"
    and "take (gossipStoreHeaderLen + length rec) bytes' = take (gossipStoreHeaderLen + length rec) bytes"
  shows "readGossipRecord wait bytes' = Some (flags, rec)"
proof -
  let ?n = "gossipStoreHeaderLen + length rec"
  have n: "?n \<le> length bytes" by (rule readGossipRecord_size [OF assms(1)])
  have n': "?n \<le> length bytes'" using arg_cong [OF assms(2), of length] n by simp
  have same: "slice i j bytes' = slice i j bytes" if "j \<le> ?n" for i j
  proof -
    have "slice i j xs = drop i (take j xs)" for xs :: "byte list"
      by (simp add: slice_def drop_take)
    moreover have "take j bytes' = take j bytes"
      using arg_cong [OF assms(2), of "take j"] that by (simp add: min_absorb1)
    ultimately show ?thesis by simp
  qed
  have "take (length rec) (drop gossipStoreHeaderLen bytes') = take (length rec) (drop gossipStoreHeaderLen bytes)"
    using same [of ?n gossipStoreHeaderLen] by (simp add: slice_def)
  then show ?thesis
    using assms(1) n n' same [of 2 0] same [of 4 2]
    by (auto simp: readGossipRecord_def Let_def gossipStoreHeaderLen_def split: if_splits)
qed

lemma follow_store_bounds:
  "offset \<le> length store \<Longrightarrow> follow_store wait store offset g = (g', offset') \<Longrightarrow>
     offset \<le> offset' \<and> offset' \<le> length store"
proof (induction wait store offset g rule: follow_store.induct)
  case (1 wait store offset g)
  show ?case
  proof (cases "readGossipRecord wait (drop offset store)")
    case None
    with "1.prems" show ?thesis by (simp add: follow_store.simps)
  next
    case (Some fr)
    obtain flags rec where fr: "fr = (flags, rec)" by (cases fr)
    have "offset + gossipStoreHeaderLen + length rec \<le> length store"
      using readGossipRecord_size [OF Some [unfolded fr]] "1.prems"(1) by simp
    then show ?thesis
      using "1.IH" [OF Some fr [symmetric]] "1.prems"
      by (simp add: follow_store.simps [of wait store offset] Some fr)
  qed
qed

lemma take_drop_eq:
  assumes "take n xs = take n ys" "i + k \<le> n"
  shows "take k (drop i xs) = take k (drop i ys)"
  using arg_cong [OF assms(1), of "\<lambda>zs. take k (drop i zs)"] assms(2)
  by (simp add: drop_take min_absorb1)

text \<open>
C27
The store may be read while gossipd writes to it.  Whatever happens to the bytes after the point
that a pass has reached (records appended, or the completed bit of the last one set), going on from
there gives the graph, and the offset, that reading the new store from the start would give.
\<close>
theorem gossip_store_resumes:
  assumes "follow_store wait store offset g = (g', offset')" and "offset \<le> length store"
    and "take offset' store' = take offset' store"
  shows "follow_store wait store' offset g = follow_store wait store' offset' g'"
  using assms
proof (induction wait store offset g rule: follow_store.induct)
  case (1 wait store offset g)
  show ?case
  proof (cases "readGossipRecord wait (drop offset store)")
    case None
    with "1.prems" show ?thesis by (simp add: follow_store.simps [of wait store])
  next
    case (Some fr)
    obtain flags rec where fr: "fr = (flags, rec)" by (cases fr)
    let ?next = "offset + gossipStoreHeaderLen + length rec"
    have next_ok: "?next \<le> length store"
      using readGossipRecord_size [OF Some [unfolded fr]] "1.prems"(2) by simp
    have go: "follow_store wait store ?next (apply_record flags rec g) = (g', offset')"
      using "1.prems"(1) by (simp add: follow_store.simps [of wait store offset] Some fr)
    have "?next \<le> offset'" using follow_store_bounds [OF next_ok go] by simp
    then have "readGossipRecord wait (drop offset store') = Some (flags, rec)"
      by (intro readGossipRecord_prefix [OF Some [unfolded fr]] take_drop_eq [OF "1.prems"(3)]) simp
    then show ?thesis
      using "1.IH" [OF Some fr [symmetric] go next_ok "1.prems"(3)]
      by (simp add: follow_store.simps [of wait store' offset])
  qed
qed

definition sample_record :: "byte list" where
  "sample_record = [0x20, 0, 0, 3, 0, 0, 0, 0, 0, 0, 0, 0, 1, 0, 9]"

definition sample_pass :: "Graph \<times> nat" where
  "sample_pass = follow_store True (15 # sample_record @ [0, 0]) 1 NewGraph"

theorem gossip_store_resumes_witness:
  "follow_store True (15 # sample_record @ sample_record) 1 NewGraph
     = follow_store True (15 # sample_record @ sample_record) 16 (fst sample_pass)"
proof (rule gossip_store_resumes)
  have "snd sample_pass = 16" by code_simp
  then show "follow_store True (15 # sample_record @ [0, 0]) 1 NewGraph = (fst sample_pass, 16)"
    by (simp add: sample_pass_def prod_eq_iff)
qed (simp_all add: sample_record_def)

section \<open>Whatever the bytes are\<close>

text \<open>What gossip must leave alone: the ends and capacity of a channel, and what was learned of it.\<close>

definition learned_state :: "Channel \<Rightarrow> (node_id \<times> node_id \<times> scid \<times> u64) \<times> u64 \<times> bool \<times> int" where
  "learned_state c =
     ((Source c, Destination c, ShortChannelId c, AmountMsat c), Liquidity c, Upper c, Timestamp c)"

text \<open>At a key, either nothing happened, or a newer policy arrived: the channel is then the same one with
  another policy, and what it was avoided for is forgotten (\<^verbatim>\<open>ApplyChannelUpdate\<close> calls
  \<^verbatim>\<open>Unavoid\<close>).\<close>

definition policy_at :: "Graph \<Rightarrow> Graph \<Rightarrow> channel_id \<Rightarrow> bool" where
  "policy_at g g' i \<longleftrightarrow>
     channel_at g' i = channel_at g i \<and> map_of (avoid g') i = map_of (avoid g) i \<or>
     (\<exists>old new. channel_at g i = Some old \<and> channel_at g' i = Some new \<and>
        LastUpdate old < LastUpdate new \<and> learned_state new = learned_state old \<and> map_of (avoid g') i = None)"

definition only_policies :: "Graph \<Rightarrow> Graph \<Rightarrow> bool" where
  "only_policies g g' \<longleftrightarrow>
     (\<forall>i. policy_at g g' i) \<and> Inbound g' = Inbound g \<and> Aliases g' = Aliases g \<and>
     nodeScores g' = nodeScores g \<and> nodeHalfLife g' = nodeHalfLife g \<and>
     feeMedians g' = feeMedians g \<and> lastDecay g' = lastDecay g"

lemma only_policies_refl: "only_policies g g"
  by (simp add: only_policies_def policy_at_def)

lemma policy_at_trans: "policy_at g g' i \<Longrightarrow> policy_at g' g'' i \<Longrightarrow> policy_at g g'' i"
  by (fastforce simp: policy_at_def)

lemma only_policies_trans: "only_policies g g' \<Longrightarrow> only_policies g' g'' \<Longrightarrow> only_policies g g''"
  by (auto simp: only_policies_def intro: policy_at_trans)

lemma updated_policy_learned:
  "learned_state (NewChannel (updated_policy (policy_of c) u) l t\<lparr>Upper := b, Dear := d\<rparr>) =
     ((Source c, Destination c, ShortChannelId c, AmountMsat c), l, b, t)"
  "LastUpdate (updated_policy (policy_of c) u) = cu_Timestamp u"
  by (simp_all add: learned_state_def updated_policy_def policy_of_def GlChannel.defs Let_def)

lemma ApplyChannelUpdate_only_policies: "only_policies g (fst (ApplyChannelUpdate g u))"
proof (cases "channel_at g (ChannelId u)")
  case (Some old)
  show ?thesis
  proof (cases "cu_Timestamp u \<le> LastUpdate old")
    case False
    define new where "new =
      (let c = NewChannel (updated_policy (policy_of old) u) (Liquidity old) (Timestamp old)\<lparr>Upper := Upper old\<rparr>
       in c\<lparr>Dear := isDear g c\<rparr>)"
    have new: "learned_state new = learned_state old" "LastUpdate new = cu_Timestamp u"
      by (simp_all add: new_def Let_def updated_policy_learned learned_state_def [of old])
    have "fst (ApplyChannelUpdate g u) = Unavoid (put_channel g (ChannelId u) new) (ChannelId u)"
      using Some False by (simp add: ApplyChannelUpdate_def new_def Let_def)
    with new Some False show ?thesis
      by (auto simp: only_policies_def policy_at_def put_channel_def Unavoid_def delete_conv restrict_map_def)
  qed (simp add: ApplyChannelUpdate_def Some only_policies_refl)
qed (simp add: ApplyChannelUpdate_def only_policies_refl)

lemma parseChannelUpdate_only_policies: "only_policies g (parseChannelUpdate g body)"
proof -
  have "only_policies g (SetInboundFee h k b r)" "only_policies g (fst (DeleteInboundFee h k))"
    if "only_policies g h" for h k b r
    using that
    by (auto simp: only_policies_def policy_at_def SetInboundFee_def DeleteInboundFee_def split: option.split)
  then show ?thesis
    using ApplyChannelUpdate_only_policies
    by (auto simp: parseChannelUpdate_def Let_def only_policies_refl split: option.split)
qed

lemma follow_store_only_policies: "only_policies g (fst (follow_store wait store offset g))"
proof (induction wait store offset g rule: follow_store.induct)
  case (1 wait store offset g)
  have step: "only_policies g (apply_record flags rec g)" for flags rec
    by (simp add: apply_record_def only_policies_refl parseChannelUpdate_only_policies)
  show ?case
    by (cases "readGossipRecord wait (drop offset store)")
      (auto simp: follow_store.simps [of wait store offset] only_policies_refl
        intro: only_policies_trans [OF step "1.IH"])
qed

text \<open>
C29
Whatever bytes the gossip store holds, reading it changes no more than this: inbound fees, and known
channels that get a newer policy.  Such a channel keeps its ends, its capacity and what was learned of
its liquidity (its policy, update time and dear mark are the new ones), and comes off the avoid list, since a failure blamed on the old policy says nothing of
the new one; any other channel and any other avoided key stays exactly as it was.  No channel appears or
goes away, and no alias, node score or fee median changes.  The offset to go on from lies in the
file.  A store that cannot be read at all is the empty one.
\<close>
theorem gossip_only_changes_policies:
  "case followGossipStore g store of
     None \<Rightarrow> store = []
   | Some (g', offset) \<Rightarrow> only_policies g g' \<and> 1 \<le> offset \<and> offset \<le> length store"
proof (cases store)
  case (Cons version bytes)
  obtain g' offset where r: "follow_store (wait_for_completed version) store 1 g = (g', offset)"
    by (cases "follow_store (wait_for_completed version) store 1 g")
  with follow_store_only_policies [of g "wait_for_completed version" store 1]
    follow_store_bounds [OF _ r] Cons
  show ?thesis by (simp add: followGossipStore_def)
qed (simp add: followGossipStore_def)

end
