(* ===== verification/Peers.thy ===== *)
theory Peers
  imports GraphBeliefs
begin

text \<open>
  Our node: its peers and their channels (\<^verbatim>\<open>node/peers.go\<close>), the refreshes that read them again
  from lightningd (\<^verbatim>\<open>node/cron.go\<close>), and the fields of \<^verbatim>\<open>Node\<close> (\<^verbatim>\<open>node/node.go\<close>) that the rest
  uses.  What lightningd answers is an argument.  A time is an integer of nanoseconds, \<open>0\<close> the zero
  \<^verbatim>\<open>time.Time\<close>.

  Peers are shared by pointer and never changed once published: a new peer takes a new address
  (\<open>addr\<close>), and comparing pointers is comparing addresses.

  The lemmas: the index from scids to peers only holds peers that are current, whatever refreshes
  and notifications come in whatever order, and a refresh never undoes a later read.
\<close>

section \<open>What lightningd reports\<close>

record Updates =
  FeeBaseMsat :: u64
  FeeProportionalMillionths :: u64
  CltvExpiryDelta :: u64
  upd_HtlcMinimumMsat :: u64
  upd_HtlcMaximumMsat :: u64

record Htlc =
  Direction :: string
  htlc_AmountMsat :: u64

record PeerChannel =
  pc_ShortChannelId :: scid
  pc_PeerId :: node_id
  State :: string
  PeerConnected :: bool
  Private :: bool
  ToUsMsat :: u64
  TotalMsat :: u64
  SpendableMsat :: u64
  ReceivableMsat :: u64
  Local :: Updates
  Remote :: Updates
  Htlcs :: "Htlc list"

definition NORMAL :: string where "NORMAL = ''CHANNELD_NORMAL''"

record Peer =
  addr :: nat
  peer_Id :: node_id
  Connected :: bool
  peer_Channels :: "PeerChannel list"

section \<open>The node\<close>

text \<open>The startup options for the parameters that a call leaves out.\<close>

record Defaults =
  def_Attempts :: int
  def_MaxHops :: int
  def_MaxNodeFails :: int
  def_MaxFailStreak :: int
  def_MaxTime :: int
  def_MaxFee :: int
  def_FeeRatio :: rat
  def_EarnDays :: int

record CandidateRecord =
  Successes :: u64
  Failures :: u64
  LastSuccess :: int
  LastFailure :: int
  Failing :: bool
  cr_AmountMsat :: u64
  cr_FeeMsat :: u64

record Node =
  node_Id :: node_id
  node_RiskPPM :: u64
  node_Defaults :: Defaults
  Peers :: "(node_id \<times> Peer) list"
  scidToPeer :: "(scid \<times> Peer) list"
  peersReadAt :: int
  channelsReadAt :: "(node_id \<times> int) list"
  connectedAt :: "(node_id \<times> int) list"
  node_Graph :: Graph
  Stopped :: bool
  candidates :: "(channel_id \<times> CandidateRecord) list"
  liquidityRefresh :: int
  liquidityHalfLife :: int
  new_addr :: nat

abbreviation on_graph :: "(Graph \<Rightarrow> Graph) \<Rightarrow> Node \<Rightarrow> Node" where
  "on_graph f n \<equiv> n\<lparr>node_Graph := f (node_Graph n)\<rparr>"

section \<open>Looking peers and channels up\<close>

definition better :: "(PeerChannel \<Rightarrow> u64) \<Rightarrow> (PeerChannel \<times> u64) option \<Rightarrow> PeerChannel \<Rightarrow> (PeerChannel \<times> u64) option" where
  "better metric best ch =
     (let score = metric ch in
      case best of None \<Rightarrow> Some (ch, score)
      | Some (b, bestScore) \<Rightarrow> if score > bestScore then Some (ch, score) else best)"

definition GetBestPeerChannel :: "Node \<Rightarrow> node_id \<Rightarrow> (PeerChannel \<Rightarrow> u64) \<Rightarrow> PeerChannel option" where
  "GetBestPeerChannel n i metric =
     (let channels = (case map_of (Peers n) i of None \<Rightarrow> [] | Some p \<Rightarrow> peer_Channels p) in
      map_option fst (foldl (better metric) None channels))"

definition channel_of :: "scid \<Rightarrow> Peer \<Rightarrow> PeerChannel option" where
  "channel_of scid p = find (\<lambda>ch. pc_ShortChannelId ch = scid) (peer_Channels p)"

fun first_channel :: "scid \<Rightarrow> (node_id \<times> Peer) list \<Rightarrow> PeerChannel option" where
  "first_channel scid [] = None"
| "first_channel scid ((i, p) # ps) =
     (case channel_of scid p of Some ch \<Rightarrow> Some ch | None \<Rightarrow> first_channel scid ps)"

definition peer_channel :: "Node \<Rightarrow> scid \<Rightarrow> PeerChannel option" where
  "peer_channel n scid =
     (case Option.bind (map_of (scidToPeer n) scid) (channel_of scid) of
        Some ch \<Rightarrow> Some ch
      | None \<Rightarrow> first_channel scid (Peers n))"

definition GetPeerChannelFromGraphChannel :: "Node \<Rightarrow> Channel \<Rightarrow> util_error + PeerChannel" where
  "GetPeerChannelFromGraphChannel n graphChannel =
     (case peer_channel n (ShortChannelId graphChannel) of
        Some ch \<Rightarrow> Inr ch | None \<Rightarrow> Inl ErrNoPeerChannel)"

definition HasPeer :: "Node \<Rightarrow> node_id \<Rightarrow> bool" where
  "HasPeer n i = (map_of (Peers n) i \<noteq> None)"

definition PeerCount :: "Node \<Rightarrow> nat" where
  "PeerCount n = length (Peers n)"

definition GetChannelPeerFromScid :: "Node \<Rightarrow> scid \<Rightarrow> util_error + Peer" where
  "GetChannelPeerFromScid n scid =
     (case map_of (scidToPeer n) scid of Some p \<Rightarrow> Inr p | None \<Rightarrow> Inl ErrNoPeerChannel)"

definition IsPeerConnected :: "Node \<Rightarrow> PeerChannel \<Rightarrow> bool" where
  "IsPeerConnected n ch =
     (case GetChannelPeerFromScid n (pc_ShortChannelId ch) of
        Inr p \<Rightarrow> Connected p | Inl _ \<Rightarrow> PeerConnected ch)"

definition ConvertPeerChannelToGraphChannel :: "int \<Rightarrow> Node \<Rightarrow> PeerChannel \<Rightarrow> bool \<Rightarrow> Channel" where
  "ConvertPeerChannelToGraphChannel now n ch isOutgoing =
     (let (source, destination, updates, liquidity) =
        (if isOutgoing then (node_Id n, pc_PeerId ch, Local ch, ToUsMsat ch)
         else (pc_PeerId ch, node_Id n, Remote ch,
               if TotalMsat ch \<ge> ToUsMsat ch then TotalMsat ch - ToUsMsat ch else 0)) in
      NewChannel
        \<lparr>Source = source, Destination = destination, ShortChannelId = pc_ShortChannelId ch,
         IsPublic = (\<not> Private ch), Satoshis = TotalMsat ch div 1000, AmountMsat = TotalMsat ch,
         MessageFlags = 0, ChannelFlags = 0, IsActive = (State ch = NORMAL \<and> PeerConnected ch),
         LastUpdate = word_of_int now, BaseFeeMillisatoshi = FeeBaseMsat updates,
         FeePerMillionth = FeeProportionalMillionths updates, Delay = CltvExpiryDelta updates,
         HtlcMinimumMilliSatoshis = upd_HtlcMinimumMsat updates,
         HtlcMaximumMilliSatoshis = upd_HtlcMaximumMsat updates\<rparr> liquidity now)"

definition GetGraphChannelFromPeerChannel :: "int \<Rightarrow> Node \<Rightarrow> PeerChannel \<Rightarrow> string \<Rightarrow> Channel" where
  "GetGraphChannelFromPeerChannel now n ch direction =
     (case GetChannel (node_Graph n) (pc_ShortChannelId ch @ ''/'' @ direction) of
        Inr c \<Rightarrow> c
      | Inl _ \<Rightarrow> ConvertPeerChannelToGraphChannel now n ch (direction = GetDirection (node_Id n) (pc_PeerId ch)))"

definition GetOutgoingChannelFromScid :: "int \<Rightarrow> Node \<Rightarrow> scid \<Rightarrow> util_error + Channel" where
  "GetOutgoingChannelFromScid now n scid =
     (case GetChannelPeerFromScid n scid of
        Inl e \<Rightarrow> Inl e
      | Inr p \<Rightarrow>
          (case GetChannel (node_Graph n) (dir_id scid (node_Id n) (peer_Id p)) of
             Inr c \<Rightarrow> Inr c
           | Inl _ \<Rightarrow>
               (case channel_of scid p of
                  Some ch \<Rightarrow> Inr (ConvertPeerChannelToGraphChannel now n ch True)
                | None \<Rightarrow> Inl ErrNoOutgoingChannel)))"

definition GetIncomingChannelFromScid :: "int \<Rightarrow> Node \<Rightarrow> scid \<Rightarrow> util_error + Channel" where
  "GetIncomingChannelFromScid now n scid =
     (case GetChannelPeerFromScid n scid of
        Inl e \<Rightarrow> Inl e
      | Inr p \<Rightarrow>
          (case GetChannel (node_Graph n) (dir_id scid (peer_Id p) (node_Id n)) of
             Inr c \<Rightarrow> Inr c
           | Inl _ \<Rightarrow>
               (case channel_of scid p of
                  Some ch \<Rightarrow> Inr (ConvertPeerChannelToGraphChannel now n ch False)
                | None \<Rightarrow> Inl ErrNoIncomingChannel)))"

section \<open>Changing the peers\<close>

definition index_channels :: "Peer \<Rightarrow> (scid \<times> Peer) list \<Rightarrow> (scid \<times> Peer) list" where
  "index_channels p index =
     foldl (\<lambda>ix ch. if pc_ShortChannelId ch \<noteq> '''' then AList.update (pc_ShortChannelId ch) p ix else ix)
       index (peer_Channels p)"

definition replacePeer :: "Node \<Rightarrow> Peer \<Rightarrow> Peer \<Rightarrow> Node" where
  "replacePeer n old p =
     n\<lparr>scidToPeer := index_channels p (filter (\<lambda>(scid, q). \<not> addr q = addr old) (scidToPeer n)),
       Peers := AList.update (peer_Id p) p (Peers n)\<rparr>"

text \<open>\<^verbatim>\<open>peer := *old\<close>: a copy, at a new address.\<close>

definition copy_peer :: "Node \<Rightarrow> Peer \<Rightarrow> Node \<times> Peer" where
  "copy_peer n p = (n\<lparr>new_addr := new_addr n + 1\<rparr>, p\<lparr>addr := new_addr n\<rparr>)"

definition setConnected :: "int \<Rightarrow> Node \<Rightarrow> node_id \<Rightarrow> bool \<Rightarrow> Node" where
  "setConnected now n peerId conn =
     (case map_of (Peers n) peerId of
        None \<Rightarrow> n
      | Some old \<Rightarrow>
          let (n, p) = copy_peer n old;
              n = replacePeer n old (p\<lparr>Connected := conn\<rparr>) in
          n\<lparr>connectedAt := AList.update peerId now (connectedAt n)\<rparr>)"

text \<open>A notification: the peer id inside its object, and the one older versions sent.\<close>

definition OnConnect :: "int \<Rightarrow> Node \<Rightarrow> node_id \<Rightarrow> node_id \<Rightarrow> Node" where
  "OnConnect now n inner outer = setConnected now n (if inner = '''' then outer else inner) True"

definition OnDisconnect :: "int \<Rightarrow> Node \<Rightarrow> node_id \<Rightarrow> node_id \<Rightarrow> Node" where
  "OnDisconnect now n inner outer = setConnected now n (if inner = '''' then outer else inner) False"

section \<open>Refreshing all the peers\<close>

text \<open>The peers of listpeers, without channels: each a new object.\<close>

definition listed_peers :: "nat \<Rightarrow> (node_id \<times> bool) list \<Rightarrow> (node_id \<times> Peer) list \<times> nat" where
  "listed_peers a peers =
     foldl (\<lambda>(m, a) (i, conn).
        (AList.update i \<lparr>addr = a, peer_Id = i, Connected = conn, peer_Channels = []\<rparr> m, a + 1))
       ([], a) peers"

definition add_open :: "(node_id \<times> Peer) list \<times> nat \<Rightarrow> PeerChannel \<Rightarrow> (node_id \<times> Peer) list \<times> nat" where
  "add_open = (\<lambda>(m, a) ch.
     if State ch \<noteq> NORMAL then (m, a)
     else
       let (p, a) = (case map_of m (pc_PeerId ch) of
             Some p \<Rightarrow> (p, a)
           | None \<Rightarrow> (\<lparr>addr = a, peer_Id = pc_PeerId ch, Connected = PeerConnected ch, peer_Channels = []\<rparr>, a + 1)) in
       (AList.update (pc_PeerId ch) (p\<lparr>peer_Channels := peer_Channels p @ [ch], Connected := PeerConnected ch\<rparr>) m, a))"

text \<open>What a notification or a read since \<open>readAt\<close> knows better.\<close>

definition keep_connection :: "(node_id \<times> Peer) list \<Rightarrow> (node_id \<times> Peer) list \<Rightarrow> node_id \<Rightarrow> (node_id \<times> Peer) list" where
  "keep_connection old m i =
     (case map_of old i of
        None \<Rightarrow> m
      | Some was \<Rightarrow>
          (case map_of m i of
             None \<Rightarrow> m
           | Some p \<Rightarrow> AList.update i (p\<lparr>Connected := Connected was\<rparr>) m))"

definition keep_channels :: "(node_id \<times> Peer) list \<Rightarrow> (node_id \<times> Peer) list \<Rightarrow> node_id \<Rightarrow> (node_id \<times> Peer) list" where
  "keep_channels old m i =
     (case map_of old i of
        None \<Rightarrow> m
      | Some was \<Rightarrow>
          (case map_of m i of
             Some p \<Rightarrow> AList.update i (p\<lparr>peer_Channels := peer_Channels was\<rparr>) m
           | None \<Rightarrow> AList.update i was m))"

definition setPeers :: "Node \<Rightarrow> (node_id \<times> bool) list \<Rightarrow> PeerChannel list \<Rightarrow> int \<Rightarrow> Node \<times> PeerChannel list" where
  "setPeers n peers channels readAt =
     (let (fresh, a) = foldl add_open (listed_peers (new_addr n) peers) channels;
          n = n\<lparr>new_addr := a\<rparr> in
      if \<not> readAt > peersReadAt n then (n, [])
      else
        let conn = filter (\<lambda>(i, t). t > readAt) (connectedAt n);
            fresh = foldl (keep_connection (Peers n)) fresh (map fst conn);
            reread = filter (\<lambda>(i, t). t > readAt) (channelsReadAt n);
            fresh = foldl (keep_channels (Peers n)) fresh (map fst reread) in
        (n\<lparr>connectedAt := conn, channelsReadAt := reread, Peers := fresh,
           scidToPeer := foldl (\<lambda>ix ip. index_channels (snd ip) ix) [] fresh, peersReadAt := readAt\<rparr>,
         concat (map (\<lambda>(i, p). peer_Channels p) fresh)))"

definition add_local :: "int \<Rightarrow> Node \<Rightarrow> PeerChannel \<Rightarrow> bool \<Rightarrow> Node" where
  "add_local now n ch outgoing =
     (let c = ConvertPeerChannelToGraphChannel now n ch outgoing;
          (g, c) = AddChannel (node_Graph n) c in
      n\<lparr>node_Graph := put_channel g (channelId c) c\<rparr>)"

definition addLocalChannelsToGraph :: "int \<Rightarrow> Node \<Rightarrow> PeerChannel list \<Rightarrow> Node" where
  "addLocalChannelsToGraph now n channels =
     foldl (\<lambda>n ch. if State ch \<noteq> NORMAL \<or> pc_ShortChannelId ch = '''' then n
       else add_local now (add_local now n ch True) ch False) n channels"

text \<open>\<^const>\<open>None\<close>: listpeers, or listpeerchannels, failed.\<close>

definition refreshPeers :: "int \<Rightarrow> Node \<Rightarrow> (node_id \<times> bool) list option \<Rightarrow> PeerChannel list option \<Rightarrow> int \<Rightarrow> Node \<times> bool" where
  "refreshPeers now n peers channels readAt =
     (case (peers, channels) of
        (Some peers, Some channels) \<Rightarrow>
          let (n, opened) = setPeers n peers channels readAt in (addLocalChannelsToGraph now n opened, True)
      | _ \<Rightarrow> (n, False))"

section \<open>Reading one peer's channels again\<close>

definition setPeerChannels :: "int \<Rightarrow> Node \<Rightarrow> node_id \<Rightarrow> PeerChannel list \<Rightarrow> int \<Rightarrow> Node" where
  "setPeerChannels now n peerId channels readAt =
     (case map_of (Peers n) peerId of
        None \<Rightarrow> n
      | Some old \<Rightarrow>
          if \<not> readAt > peersReadAt n
            \<or> \<not> readAt > (case map_of (channelsReadAt n) peerId of None \<Rightarrow> 0 | Some t \<Rightarrow> t) then n
          else
            let (n, p) = copy_peer n old;
                p = p\<lparr>peer_Channels := filter (\<lambda>ch. State ch = NORMAL) channels\<rparr>;
                n = replacePeer n old p;
                n = n\<lparr>channelsReadAt := AList.update peerId readAt (channelsReadAt n)\<rparr> in
            addLocalChannelsToGraph now n (peer_Channels p))"

text \<open>Each answer of listpeerchannels comes with the time it was asked for; \<^const>\<open>None\<close> is an error,
  which ends the loop.\<close>

fun RefreshPeerChannels :: "int \<Rightarrow> Node \<Rightarrow> (node_id \<times> (PeerChannel list \<times> int) option) list \<Rightarrow> Node \<times> bool" where
  "RefreshPeerChannels now n [] = (n, True)"
| "RefreshPeerChannels now n ((i, answer) # rest) =
     (case answer of
        None \<Rightarrow> (n, False)
      | Some (channels, readAt) \<Rightarrow> RefreshPeerChannels now (setPeerChannels now n i channels readAt) rest)"

section \<open>Refreshing the graph\<close>

definition localChannelIds :: "Node \<Rightarrow> channel_id set" where
  "localChannelIds n =
     set (concat (map (\<lambda>(i, p). concat (map (\<lambda>ch.
         if pc_ShortChannelId ch = '''' then []
         else [dir_id (pc_ShortChannelId ch) (node_Id n) (peer_Id p),
               dir_id (pc_ShortChannelId ch) (peer_Id p) (node_Id n)]) (peer_Channels p))) (Peers n)))"

text \<open>
  \<open>channelList\<close> is the answer of listchannels: \<^const>\<open>None\<close> an error other than having no channels
  (which is the empty list); \<open>nodes\<close> that of listnodes.  \<open>applyLearned\<close> is what \<^verbatim>\<open>applyLearned\<close>
  does to the node.
\<close>

definition refreshGraph ::
  "int \<Rightarrow> (Node \<Rightarrow> Node) \<Rightarrow> Node \<Rightarrow> GlChannel list option \<Rightarrow> (node_id \<times> string) list option \<Rightarrow> Node \<times> bool" where
  "refreshGraph now applyLearned n channelList nodes =
     (let asOf = word_of_int now in
      case channelList of
        None \<Rightarrow> (n, False)
      | Some channelList \<Rightarrow>
          let n = on_graph (\<lambda>g. fst (SyncChannels g channelList (localChannelIds n) asOf)) n;
              n = on_graph (\<lambda>g. PruneChannels g (word_of_int now)) n;
              n = on_graph (\<lambda>g. fst (MarkDearChannels g)) n;
              n = (case nodes of None \<Rightarrow> n | Some nodes \<Rightarrow> on_graph (\<lambda>g. RefreshAliases g nodes) n) in
          (applyLearned n, True))"

definition refreshLiquidity :: "(rat \<Rightarrow> rat \<Rightarrow> rat) \<Rightarrow> int \<Rightarrow> Node \<Rightarrow> Node \<times> nat \<times> nat" where
  "refreshLiquidity mpow now n =
     (let (g, moved) = DecayLiquidity mpow now (node_Graph n) (liquidityHalfLife n);
          (g, hits) = RefreshLiquidity now g (liquidityRefresh n) in
      (n\<lparr>node_Graph := g\<rparr>, moved, hits))"

definition RefreshChannel :: "Node \<Rightarrow> GlChannel list option \<Rightarrow> Node" where
  "RefreshChannel n answer =
     (case answer of None \<Rightarrow> n | Some channels \<Rightarrow> on_graph (\<lambda>g. refreshChannels g channels) n)"

end
