(* ===== verification/PeerClaims.thy ===== *)
theory PeerClaims
  imports Peers
begin

text \<open>
  What the peer map promises, whatever order refreshes, re-reads and notifications come in.
\<close>

section \<open>The index of scids\<close>

lemma map_of_index_channels:
  "map_of (index_channels p ix) s =
     (if s \<noteq> '''' \<and> (\<exists>ch \<in> set (peer_Channels p). pc_ShortChannelId ch = s) then Some p else map_of ix s)"
proof -
  have "map_of (foldl (\<lambda>ix ch. if pc_ShortChannelId ch \<noteq> '''' then AList.update (pc_ShortChannelId ch) p ix else ix) ix chs) s
      = (if s \<noteq> '''' \<and> (\<exists>ch \<in> set chs. pc_ShortChannelId ch = s) then Some p else map_of ix s)" for chs
    by (induction chs arbitrary: ix) auto
  then show ?thesis unfolding index_channels_def .
qed

text \<open>Every entry of the index is a current peer that has the channel.\<close>

definition index_entry :: "(node_id \<times> Peer) list \<Rightarrow> scid \<Rightarrow> Peer \<Rightarrow> bool" where
  "index_entry ps s p \<longleftrightarrow>
     s \<noteq> '''' \<and> map_of ps (peer_Id p) = Some p \<and> (\<exists>ch \<in> set (peer_Channels p). pc_ShortChannelId ch = s)"

definition peers_current :: "Node \<Rightarrow> bool" where
  "peers_current n \<longleftrightarrow>
     keys_distinct (Peers n) \<and> keys_distinct (scidToPeer n) \<and>
     (\<forall>i p. map_of (Peers n) i = Some p \<longrightarrow> peer_Id p = i) \<and>
     (\<forall>s p. map_of (scidToPeer n) s = Some p \<longrightarrow> index_entry (Peers n) s p)"

lemma peers_currentD:
  assumes "peers_current n"
  shows "keys_distinct (Peers n)" "keys_distinct (scidToPeer n)"
    "map_of (Peers n) i = Some p \<Longrightarrow> peer_Id p = i"
    "map_of (scidToPeer n) s = Some p \<Longrightarrow> index_entry (Peers n) s p"
  using assms by (auto simp: peers_current_def)

lemma peers_current_cong:
  "Peers n' = Peers n \<Longrightarrow> scidToPeer n' = scidToPeer n \<Longrightarrow> peers_current n' = peers_current n"
  by (simp add: peers_current_def)

lemma keys_distinct_index_channels [simp]:
  "keys_distinct ix \<Longrightarrow> keys_distinct (index_channels p ix)"
proof -
  have "keys_distinct ix \<Longrightarrow> keys_distinct
     (foldl (\<lambda>ix ch. if pc_ShortChannelId ch \<noteq> '''' then AList.update (pc_ShortChannelId ch) p ix else ix) ix chs)" for chs
    by (induction chs arbitrary: ix) auto
  then show "keys_distinct ix \<Longrightarrow> ?thesis" by (simp add: index_channels_def)
qed

named_theorems peers_keep "operations that keep the index of peers current"

lemma replacePeer_current [peers_keep]:
  assumes cur: "peers_current n" and old: "map_of (Peers n) i = Some old" and p: "peer_Id p = i"
  shows "peers_current (replacePeer n old p)"
proof -
  have io: "peer_Id old = i" by (rule peers_currentD(3) [OF cur old])
  let ?n = "replacePeer n old p"
  have "index_entry (Peers ?n) s q" if q: "map_of (scidToPeer ?n) s = Some q" for s q
  proof (cases "s \<noteq> '''' \<and> (\<exists>ch \<in> set (peer_Channels p). pc_ShortChannelId ch = s)")
    case True
    then show ?thesis using q p by (simp add: replacePeer_def map_of_index_channels index_entry_def)
  next
    case False
    with q have "map_of (filter (\<lambda>(scid, q). \<not> addr q = addr old) (scidToPeer n)) s = Some q"
      by (auto simp: replacePeer_def map_of_index_channels split: if_splits)
    then have at: "map_of (scidToPeer n) s = Some q" and "addr q \<noteq> addr old"
      using map_of_filter_key [OF peers_currentD(2) [OF cur]] by (auto split: option.splits if_splits)
    then have "q \<noteq> old" by auto
    moreover have e: "index_entry (Peers n) s q" by (rule peers_currentD(4) [OF cur at])
    ultimately have "peer_Id q \<noteq> i" using old by (auto simp: index_entry_def)
    then show ?thesis using e p by (simp add: replacePeer_def index_entry_def)
  qed
  then show ?thesis
    using peers_currentD(1-3) [OF cur] p
    by (auto simp: peers_current_def replacePeer_def split: if_splits)
qed

lemma setConnected_current [peers_keep]:
  assumes "peers_current n"
  shows "peers_current (setConnected now n i b)"
proof (cases "map_of (Peers n) i")
  case (Some old)
  let ?n = "n\<lparr>new_addr := new_addr n + 1\<rparr>"
  have "peers_current ?n" using assms by (simp add: peers_current_def)
  then have "peers_current (replacePeer ?n old (old\<lparr>addr := new_addr n, Connected := b\<rparr>))"
    by (rule replacePeer_current) (simp_all add: Some peers_currentD(3) [OF assms Some])
  then show ?thesis
    by (simp add: setConnected_def Some copy_peer_def peers_current_def Let_def)
qed (simp add: setConnected_def assms)

lemma addLocal_same:
  "Peers (addLocalChannelsToGraph now n chs) = Peers n"
  "scidToPeer (addLocalChannelsToGraph now n chs) = scidToPeer n"
  "connectedAt (addLocalChannelsToGraph now n chs) = connectedAt n"
  "channelsReadAt (addLocalChannelsToGraph now n chs) = channelsReadAt n"
  "peersReadAt (addLocalChannelsToGraph now n chs) = peersReadAt n"
  unfolding addLocalChannelsToGraph_def
  by (induction chs arbitrary: n) (simp_all add: add_local_def split_beta Let_def)

lemma setPeerChannels_current [peers_keep]:
  assumes "peers_current n"
  shows "peers_current (setPeerChannels now n i chs readAt)"
proof (cases "map_of (Peers n) i")
  case (Some old)
  let ?n = "n\<lparr>new_addr := new_addr n + 1\<rparr>"
  have "peers_current ?n" using assms by (simp add: peers_current_def)
  then have "peers_current (replacePeer ?n old
      (old\<lparr>addr := new_addr n, peer_Channels := filter (\<lambda>ch. State ch = NORMAL) chs\<rparr>))"
    by (rule replacePeer_current) (simp_all add: Some peers_currentD(3) [OF assms Some])
  then show ?thesis using assms
    by (simp add: setPeerChannels_def Some copy_peer_def peers_current_def addLocal_same Let_def)
qed (simp add: setPeerChannels_def assms)

section \<open>The fresh map of a refresh\<close>

definition named_right :: "(node_id \<times> Peer) list \<Rightarrow> bool" where
  "named_right m \<longleftrightarrow> keys_distinct m \<and> (\<forall>i p. map_of m i = Some p \<longrightarrow> peer_Id p = i)"

lemma named_right_update: "named_right m \<Longrightarrow> peer_Id p = i \<Longrightarrow> named_right (AList.update i p m)"
  by (auto simp: named_right_def split: if_splits)

lemma named_rightD: "named_right m \<Longrightarrow> map_of m i = Some p \<Longrightarrow> peer_Id p = i"
  by (simp add: named_right_def)

lemma foldl_keeps:
  assumes "P s" "\<And>s x. P s \<Longrightarrow> x \<in> set xs \<Longrightarrow> P (f s x)"
  shows "P (foldl f s xs)"
  using assms by (induction xs arbitrary: s) simp_all

lemma listed_peers_named: "named_right (fst (listed_peers a peers))"
  unfolding listed_peers_def
  by (rule foldl_keeps) (auto simp: split_beta intro!: named_right_update, simp add: named_right_def)

lemma add_open_named: "named_right (fst m) \<Longrightarrow> named_right (fst (add_open m ch))"
  by (auto simp: add_open_def split_beta Let_def intro!: named_right_update split: option.split)
    (simp add: named_right_def)

lemma keep_named:
  assumes "named_right m" "named_right old"
  shows "named_right (keep_connection old m i)" "named_right (keep_channels old m i)"
  using assms
  by (auto simp: keep_connection_def keep_channels_def named_rightD split: option.split intro!: named_right_update)

lemma map_of_index_all:
  assumes "named_right m" "map_of (foldl (\<lambda>ix ip. index_channels (snd ip) ix) [] m) s = Some p"
  shows "index_entry m s p"
proof -
  have "(\<exists>i. (i, p) \<in> set m') \<and> s \<noteq> '''' \<and> (\<exists>ch \<in> set (peer_Channels p). pc_ShortChannelId ch = s)
        \<or> map_of ix s = Some p"
    if "map_of (foldl (\<lambda>ix ip. index_channels (snd ip) ix) ix m') s = Some p" for m' ix
    using that
  proof (induction m' arbitrary: ix)
    case (Cons ip m')
    from Cons.IH [of "index_channels (snd ip) ix"] Cons.prems
    show ?case by (cases ip) (auto simp: map_of_index_channels split: if_splits)
  qed simp
  from this [of "[]" m] assms(2) obtain i where i: "(i, p) \<in> set m" "s \<noteq> ''''"
    "\<exists>ch \<in> set (peer_Channels p). pc_ShortChannelId ch = s" by auto
  then have "map_of m i = Some p" using assms(1) by (simp add: named_right_def)
  with i assms(1) show ?thesis by (auto simp: index_entry_def named_right_def)
qed

lemma setPeers_current [peers_keep]:
  assumes cur: "peers_current n"
  shows "peers_current (fst (setPeers n peers chs readAt))"
proof -
  let ?fresh = "fst (foldl add_open (listed_peers (new_addr n) peers) chs)"
  let ?f1 = "foldl (keep_connection (Peers n)) ?fresh (map fst (filter (\<lambda>(i, t). t > readAt) (connectedAt n)))"
  let ?f2 = "foldl (keep_channels (Peers n)) ?f1 (map fst (filter (\<lambda>(i, t). t > readAt) (channelsReadAt n)))"
  have old: "named_right (Peers n)" using peers_currentD(1,3) [OF cur] by (simp add: named_right_def)
  have "named_right ?fresh"
    by (rule foldl_keeps [where P = "\<lambda>m. named_right (fst m)"]) (simp_all add: listed_peers_named add_open_named)
  then have "named_right ?f1" by (rule foldl_keeps) (rule keep_named(1) [OF _ old])
  then have f2: "named_right ?f2" by (rule foldl_keeps) (rule keep_named(2) [OF _ old])
  have "keys_distinct (foldl (\<lambda>ix ip. index_channels (snd ip) ix) [] ?f2)"
    by (rule foldl_keeps) simp_all
  then show ?thesis
    using f2 map_of_index_all [OF f2] cur
    by (auto simp: setPeers_def Let_def split_beta peers_current_def named_right_def)
qed

lemma refreshPeers_current [peers_keep]:
  "peers_current n \<Longrightarrow> peers_current (fst (refreshPeers now n peers chs readAt))"
proof -
  have "peers_current (addLocalChannelsToGraph now n' chs) = peers_current n'" for n' chs
    by (rule peers_current_cong) (simp_all add: addLocal_same)
  then show "peers_current n \<Longrightarrow> ?thesis"
    by (auto simp: refreshPeers_def split_beta Let_def setPeers_current split: option.split)
qed

lemma RefreshPeerChannels_current [peers_keep]:
  "peers_current n \<Longrightarrow> peers_current (fst (RefreshPeerChannels now n answers))"
proof (induction answers arbitrary: n)
  case (Cons a answers)
  show ?case using Cons.IH [OF setPeerChannels_current] Cons.prems
    by (cases a) (auto split: option.split)
qed simp

text \<open>Everything that changes the peers, in any order.\<close>

inductive peers_run :: "Node \<Rightarrow> Node \<Rightarrow> bool" where
  start: "peers_run n n"
| event: "peers_run n n' \<Longrightarrow> peers_run n (setConnected now n' i b)"
| refresh: "peers_run n n' \<Longrightarrow> peers_run n (fst (refreshPeers now n' peers chs readAt))"
| reread: "peers_run n n' \<Longrightarrow> peers_run n (fst (RefreshPeerChannels now n' answers))"

lemma first_channel_in:
  "first_channel scid ps = Some ch \<Longrightarrow>
     \<exists>i p. (i, p) \<in> set ps \<and> ch \<in> set (peer_Channels p) \<and> pc_ShortChannelId ch = scid"
  by (induction ps) (force simp: channel_of_def find_Some_iff split: option.splits)+

text \<open>
C25
Whatever notifications, refreshes and re-reads of single peers come in whatever order, a channel of
ours that is looked up belongs to a peer that is current, never to one that was replaced.
\<close>
theorem looked_up_channel_is_current:
  assumes run: "peers_run n n'" and cur: "peers_current n"
    and found: "GetPeerChannelFromGraphChannel n' c = Inr ch"
  shows "peers_current n' \<and> pc_ShortChannelId ch = ShortChannelId c \<and>
    (\<exists>p. map_of (Peers n') (peer_Id p) = Some p \<and> ch \<in> set (peer_Channels p))"
proof -
  have cur': "peers_current n'"
    using run cur by induction (simp_all add: peers_keep)
  show ?thesis
  proof (cases "Option.bind (map_of (scidToPeer n') (ShortChannelId c)) (channel_of (ShortChannelId c))")
    case None
    with found have "first_channel (ShortChannelId c) (Peers n') = Some ch"
      by (auto simp: GetPeerChannelFromGraphChannel_def peer_channel_def split: option.splits)
    then obtain i p where ip: "(i, p) \<in> set (Peers n')" "ch \<in> set (peer_Channels p)" "pc_ShortChannelId ch = ShortChannelId c"
      using first_channel_in by blast
    then have "map_of (Peers n') i = Some p" using peers_currentD(1) [OF cur'] by simp
    with ip cur' peers_currentD(3) [OF cur'] show ?thesis by auto
  next
    case (Some ch')
    then obtain p where p: "map_of (scidToPeer n') (ShortChannelId c) = Some p" "channel_of (ShortChannelId c) p = Some ch'"
      by (auto simp: Option.bind_eq_Some_conv)
    moreover have "ch' = ch"
      using found Some by (simp add: GetPeerChannelFromGraphChannel_def peer_channel_def)
    ultimately show ?thesis
      using peers_currentD(4) [OF cur' p(1)] cur'
      by (auto simp: index_entry_def channel_of_def find_Some_iff)
  qed
qed

section \<open>A refresh never undoes a later notification\<close>

lemma map_of_keep_connection:
  "map_of (foldl (keep_connection old) m ks) i =
     (if i \<in> set ks then
        (case map_of m i of None \<Rightarrow> None
         | Some p \<Rightarrow> (case map_of old i of None \<Rightarrow> Some p | Some was \<Rightarrow> Some (p\<lparr>Connected := Connected was\<rparr>)))
      else map_of m i)"
  by (induction ks arbitrary: m) (auto simp: keep_connection_def split: option.splits)

lemma map_of_keep_channels:
  "map_of (foldl (keep_channels old) m ks) i = Some p \<Longrightarrow>
     (\<exists>q. map_of m i = Some q \<and> Connected p = Connected q) \<or> (\<exists>q. map_of old i = Some q \<and> Connected p = Connected q)"
proof (induction ks arbitrary: m)
  case (Cons k ks)
  from Cons.IH [of "keep_channels old m k"] Cons.prems show ?case
    by (auto simp: keep_channels_def split: option.splits if_splits)
qed simp

text \<open>A reading lists a peer that is in listpeers or has an open channel in listpeerchannels.  A peer that
  a reading does not list is dropped by \<^const>\<open>setPeers\<close>, with what was known of its connection.\<close>

definition lists_peer :: "(node_id \<times> bool) list \<Rightarrow> PeerChannel list \<Rightarrow> node_id \<Rightarrow> bool" where
  "lists_peer peers chs i \<longleftrightarrow> i \<in> fst ` set peers \<or> (\<exists>ch \<in> set chs. State ch = NORMAL \<and> pc_PeerId ch = i)"

definition answers_list :: "(node_id \<times> bool) list option \<Rightarrow> PeerChannel list option \<Rightarrow> node_id \<Rightarrow> bool" where
  "answers_list peers chs i \<longleftrightarrow>
     (case (peers, chs) of (Some ps, Some cs) \<Rightarrow> lists_peer ps cs i | _ \<Rightarrow> True)"

lemma dom_keep_connection: "dom (map_of (foldl (keep_connection old) m ks)) = dom (map_of m)"
proof (induction ks arbitrary: m)
  case (Cons k ks)
  have "dom (map_of (keep_connection old m k)) = dom (map_of m)"
    by (auto simp: keep_connection_def dom_def split: option.split if_splits)
  then show ?case by (simp add: Cons)
qed simp

lemma dom_keep_channels: "dom (map_of m) \<subseteq> dom (map_of (foldl (keep_channels old) m ks))"
proof (induction ks arbitrary: m)
  case (Cons k ks)
  have "dom (map_of m) \<subseteq> dom (map_of (keep_channels old m k))"
    by (auto simp: keep_channels_def split: option.splits)
  then show ?case using Cons [of "keep_channels old m k"] by simp
qed simp

lemma dom_listed_peers: "dom (map_of (fst (listed_peers a peers))) = fst ` set peers"
proof -
  have "dom (map_of (fst (foldl (\<lambda>(m, a) (i, conn).
        (AList.update i \<lparr>addr = a, peer_Id = i, Connected = conn, peer_Channels = []\<rparr> m, a + 1)) (m, a) peers)))
      = dom (map_of m) \<union> fst ` set peers" for m
    by (induction peers arbitrary: m a) (simp_all add: split_beta update_conv')
  from this [of "[]"] show ?thesis by (simp add: listed_peers_def)
qed

lemma dom_add_open:
  "dom (map_of (fst (foldl add_open m chs)))
     = dom (map_of (fst m)) \<union> {pc_PeerId ch | ch. ch \<in> set chs \<and> State ch = NORMAL}"
proof (induction chs arbitrary: m)
  case (Cons ch chs)
  have "dom (map_of (fst (add_open m ch)))
      = dom (map_of (fst m)) \<union> (if State ch = NORMAL then {pc_PeerId ch} else {})"
    by (auto simp: add_open_def split_beta Let_def split: option.splits)
  then show ?case by (auto simp: Cons)
qed simp

lemma HasPeer_iff: "HasPeer n i \<longleftrightarrow> i \<in> dom (map_of (Peers n))"
  by (simp add: HasPeer_def domIff)

lemma Peers_setPeers:
  "Peers (fst (setPeers n peers chs readAt)) = (if readAt > peersReadAt n
     then foldl (keep_channels (Peers n))
       (foldl (keep_connection (Peers n)) (fst (foldl add_open (listed_peers (new_addr n) peers) chs))
         (map fst (filter (\<lambda>(i, t). t > readAt) (connectedAt n))))
       (map fst (filter (\<lambda>(i, t). t > readAt) (channelsReadAt n)))
     else Peers n)"
  by (simp add: setPeers_def split_beta Let_def)

lemma setPeers_lists:
  assumes "HasPeer n i" "lists_peer peers chs i"
  shows "HasPeer (fst (setPeers n peers chs readAt)) i"
proof -
  let ?fresh = "fst (foldl add_open (listed_peers (new_addr n) peers) chs)"
  have "i \<in> dom (map_of ?fresh)"
    using assms(2) by (auto simp: dom_add_open dom_listed_peers lists_peer_def)
  then have "i \<in> dom (map_of (foldl (keep_channels (Peers n)) (foldl (keep_connection (Peers n)) ?fresh ks) ks'))" for ks ks'
    by (intro subsetD [OF dom_keep_channels]) (simp only: dom_keep_connection)
  then show ?thesis
    using assms(1) unfolding HasPeer_iff Peers_setPeers by (cases "readAt > peersReadAt n") (simp_all only: if_True if_False)
qed

text \<open>What may happen after the notification at time \<open>t\<close> about peer \<open>i\<close>: refreshes whose reads started
  before and whose answers, if lightningd gave any, list the peer; re-reads of single peers; notifications
  about others.\<close>

inductive meanwhile :: "int \<Rightarrow> node_id \<Rightarrow> Node \<Rightarrow> Node \<Rightarrow> bool" for t i where
  start: "meanwhile t i n n"
| event: "meanwhile t i n n' \<Longrightarrow> j \<noteq> i \<Longrightarrow> meanwhile t i n (setConnected now n' j b)"
| refresh: "meanwhile t i n n' \<Longrightarrow> readAt < t \<Longrightarrow> answers_list peers chs i \<Longrightarrow>
    meanwhile t i n (fst (refreshPeers now n' peers chs readAt))"
| reread: "meanwhile t i n n' \<Longrightarrow> meanwhile t i n (setPeerChannels now n' j chs readAt)"

definition connection_is :: "int \<Rightarrow> node_id \<Rightarrow> bool \<Rightarrow> Node \<Rightarrow> bool" where
  "connection_is t i b n \<longleftrightarrow>
     map_of (connectedAt n) i = Some t \<and> keys_distinct (connectedAt n) \<and>
     (\<exists>p. map_of (Peers n) i = Some p \<and> Connected p = b)"

lemma setConnected_is:
  "peers_current n \<Longrightarrow> keys_distinct (connectedAt n) \<Longrightarrow> map_of (Peers n) i = Some q \<Longrightarrow>
     connection_is t i b (setConnected t n i b)"
  by (simp add: connection_is_def setConnected_def copy_peer_def replacePeer_def Let_def peers_currentD)

lemma setConnected_other:
  assumes "peers_current n" "connection_is t i b n" "j \<noteq> i"
  shows "connection_is t i b (setConnected now n j b')"
  using assms peers_currentD(3) [OF assms(1)]
  by (auto simp: connection_is_def setConnected_def copy_peer_def replacePeer_def Let_def
      simp del: map_of_eq_Some_iff split: option.split)

lemma setPeerChannels_is:
  assumes "peers_current n" "connection_is t i b n"
  shows "connection_is t i b (setPeerChannels now n j chs readAt)"
  using assms peers_currentD(3) [OF assms(1)]
  by (auto simp: connection_is_def setPeerChannels_def copy_peer_def replacePeer_def Let_def addLocal_same
      simp del: map_of_eq_Some_iff split: option.split)

lemma setPeers_is:
  assumes now_is: "connection_is t i b n" and late: "readAt < t"
    and sp: "setPeers n peers chs readAt = (n', opened)" and known: "HasPeer n' i"
  shows "connection_is t i b n'"
proof -
  obtain p where p: "map_of (Peers n) i = Some p" "Connected p = b" and at: "map_of (connectedAt n) i = Some t"
    and dist: "keys_distinct (connectedAt n)"
    using now_is by (auto simp: connection_is_def)
  show ?thesis
  proof (cases "readAt > peersReadAt n")
    case False
    then show ?thesis using sp now_is by (auto simp: setPeers_def split_beta Let_def connection_is_def)
  next
    case True
    let ?late = "filter (\<lambda>(i, t). t > readAt) (connectedAt n)"
    have in_late: "i \<in> set (map fst ?late)" using map_of_SomeD [OF at] late by force
    have late_at: "map_of ?late i = Some t" using map_of_filter_key [OF dist] at late by simp
    obtain q where q: "map_of (Peers n') i = Some q" using known by (auto simp: HasPeer_def)
    then have "Connected q = b"
      using sp True in_late p
      by (auto simp: setPeers_def split_beta Let_def map_of_keep_connection simp del: set_map
          dest!: map_of_keep_channels split: option.splits)
    then show ?thesis using sp True late_at dist q
      by (auto simp: setPeers_def split_beta Let_def connection_is_def)
  qed
qed

lemma connection_is_cong:
  "Peers n' = Peers n \<Longrightarrow> connectedAt n' = connectedAt n \<Longrightarrow> connection_is t i b n' = connection_is t i b n"
  by (simp add: connection_is_def)

lemma connection_is_HasPeer: "connection_is t i b n \<Longrightarrow> HasPeer n i"
  by (auto simp: connection_is_def HasPeer_def)

lemma refreshPeers_is:
  assumes now_is: "connection_is t i b n" and late: "readAt < t" and listed: "answers_list peers chs i"
  shows "connection_is t i b (fst (refreshPeers now n peers chs readAt))"
proof (cases "(peers, chs)")
  case (Pair p c)
  show ?thesis
  proof (cases "\<exists>ps cs. p = Some ps \<and> c = Some cs")
    case True
    then obtain ps cs where pc: "peers = Some ps" "chs = Some cs" using Pair by auto
    let ?r = "setPeers n ps cs readAt"
    have "HasPeer (fst ?r) i"
      using setPeers_lists connection_is_HasPeer [OF now_is] listed pc by (simp add: answers_list_def)
    then have "connection_is t i b (fst ?r)"
      by (rule setPeers_is [OF now_is late, of ps cs "fst ?r" "snd ?r", simplified])
    moreover have "fst (refreshPeers now n peers chs readAt) = addLocalChannelsToGraph now (fst ?r) (snd ?r)"
      by (simp only: refreshPeers_def pc prod.case option.case Let_def case_prod_beta fst_conv snd_conv)
    ultimately show ?thesis
      using connection_is_cong [OF addLocal_same(1,3)] by simp
  qed (use Pair now_is in \<open>auto simp: refreshPeers_def split: option.split\<close>)
qed

text \<open>
C26
When lightningd tells us that a peer connected or disconnected, that stays what we know of it while
other things happen: refreshes whose reads started before the notification do not undo it as long as
their readings list the peer (in listpeers, or with an open channel in listpeerchannels; a peer that a
reading does not list is dropped), nor do re-reads of channels or notifications about other peers.
\<close>
theorem notification_outlives_earlier_reads:
  assumes cur: "peers_current n" "keys_distinct (connectedAt n)" and known: "HasPeer n i"
    and run: "meanwhile t i (setConnected t n i b) n'"
  shows "\<exists>p. map_of (Peers n') i = Some p \<and> Connected p = b"
proof -
  obtain q where q: "map_of (Peers n) i = Some q" using known by (auto simp: HasPeer_def)
  have "peers_current n' \<and> connection_is t i b n'"
    using run
  proof (induction "setConnected t n i b" n' rule: meanwhile.induct)
    case start
    show ?case using cur q by (simp add: setConnected_is peers_keep)
  qed (simp_all add: setConnected_other setPeerChannels_is refreshPeers_is peers_keep)
  then show ?thesis by (auto simp: connection_is_def)
qed

section \<open>A sample node\<close>

definition sample_updates :: Updates where
  "sample_updates = \<lparr>FeeBaseMsat = 1000, FeeProportionalMillionths = 100, CltvExpiryDelta = 40,
     upd_HtlcMinimumMsat = 1000, upd_HtlcMaximumMsat = 1900000000\<rparr>"

definition sample_peer_channel :: "scid \<Rightarrow> node_id \<Rightarrow> u64 \<Rightarrow> PeerChannel" where
  "sample_peer_channel scid peer ours =
     \<lparr>pc_ShortChannelId = scid, pc_PeerId = peer, State = NORMAL, PeerConnected = True, Private = False,
      ToUsMsat = ours, TotalMsat = 2000000000, SpendableMsat = ours, ReceivableMsat = 2000000000 - ours,
      Local = sample_updates, Remote = sample_updates, Htlcs = []\<rparr>"

definition sample_defaults :: Defaults where
  "sample_defaults = \<lparr>def_Attempts = 0, def_MaxHops = 0, def_MaxNodeFails = 0, def_MaxFailStreak = 0,
     def_MaxTime = 0, def_MaxFee = 0, def_FeeRatio = 0, def_EarnDays = 0\<rparr>"

definition new_node :: Node where
  "new_node = \<lparr>node_Id = ''us'', node_RiskPPM = 0, node_Defaults = sample_defaults, Peers = [],
     scidToPeer = [], peersReadAt = 0, channelsReadAt = [], connectedAt = [], node_Graph = NewGraph,
     Stopped = False, candidates = [], liquidityRefresh = 0, liquidityHalfLife = 0, new_addr = 0\<rparr>"

definition sample_node :: Node where
  "sample_node = fst (refreshPeers 100 new_node (Some [(''ann'', True), (''bob'', True)])
     (Some [sample_peer_channel ''1x1x1'' ''ann'' 1800000000, sample_peer_channel ''3x1x1'' ''bob'' 200000000]) 100)"

lemma new_node_current: "peers_current new_node"
  by (simp add: peers_current_def new_node_def)

lemma sample_node_current: "peers_current sample_node"
  unfolding sample_node_def by (rule refreshPeers_current [OF new_node_current])

theorem looked_up_channel_is_current_witness:
  "\<exists>p. map_of (Peers (setConnected 200 sample_node ''ann'' False)) (peer_Id p) = Some p \<and>
     sample_peer_channel ''1x1x1'' ''ann'' 1800000000 \<in> set (peer_Channels p)"
proof -
  let ?n = "setConnected 200 sample_node ''ann'' False"
  let ?c = "ConvertPeerChannelToGraphChannel 0 new_node (sample_peer_channel ''1x1x1'' ''ann'' 1800000000) True"
  have run: "peers_run new_node ?n"
    unfolding sample_node_def by (intro peers_run.intros)
  have "GetPeerChannelFromGraphChannel ?n ?c = Inr (sample_peer_channel ''1x1x1'' ''ann'' 1800000000)"
    by code_simp
  from looked_up_channel_is_current [OF run new_node_current this] show ?thesis by simp
qed

theorem notification_outlives_earlier_reads_witness:
  "\<exists>p. map_of (Peers (fst (refreshPeers 210 (setConnected 200 sample_node ''ann'' False)
      (Some [(''ann'', True), (''bob'', True)])
      (Some [sample_peer_channel ''1x1x1'' ''ann'' 1800000000]) 150))) ''ann'' = Some p
    \<and> \<not> Connected p"
proof -
  let ?n = "setConnected 200 sample_node ''ann'' False"
  have known: "HasPeer sample_node ''ann''" "keys_distinct (connectedAt sample_node)" by code_simp+
  have "meanwhile 200 ''ann'' ?n (fst (refreshPeers 210 ?n (Some [(''ann'', True), (''bob'', True)])
      (Some [sample_peer_channel ''1x1x1'' ''ann'' 1800000000]) 150))"
    by (rule meanwhile.refresh [OF meanwhile.start]) (simp_all add: answers_list_def lists_peer_def)
  from notification_outlives_earlier_reads [OF sample_node_current known(2,1) this] show ?thesis by simp
qed

end
