(* ===== verification/Candidates.thy ===== *)
theory Candidates
  imports PeerClaims "HOL-Library.Product_Lexorder"
begin

text \<open>
  How our channels did as candidates of circular-pull and circular-push (\<^verbatim>\<open>node/candidates.go\<close>): the
  records, their saving and restoring, and the order candidates are tried in.

  The lemmas: the counts stay bounded and recent, the rates compare as the fractions they round, and
  the ranking is a stable permutation in the documented order.
\<close>

section \<open>Records\<close>

text \<open>Seconds.\<close>

definition candidateBackoff :: int where "candidateBackoff = 1800"
definition candidateMemory :: u64 where "candidateMemory = 50"

definition no_record :: CandidateRecord where
  "no_record = \<lparr>Successes = 0, Failures = 0, LastSuccess = 0, LastFailure = 0, Failing = False,
     cr_AmountMsat = 0, cr_FeeMsat = 0\<rparr>"

definition backingOff :: "CandidateRecord \<Rightarrow> int \<Rightarrow> bool" where
  "backingOff r now \<longleftrightarrow> Failing r \<and> i64 (now - LastFailure r) < candidateBackoff"

definition successRate :: "CandidateRecord \<Rightarrow> rat" where
  "successRate r = fdiv (float_of_u64 (Successes r + 1)) (float_of_u64 (Successes r + Failures r + 2))"

definition node_CandidateRecord :: "Node \<Rightarrow> channel_id \<Rightarrow> CandidateRecord" where
  "node_CandidateRecord n i = (case map_of (candidates n) i of Some r \<Rightarrow> r | None \<Rightarrow> no_record)"

definition fade_record :: "CandidateRecord \<Rightarrow> CandidateRecord" where
  "fade_record r =
     (if Successes r + Failures r \<ge> candidateMemory
      then r\<lparr>Successes := Successes r div 2, Failures := Failures r div 2,
             cr_AmountMsat := cr_AmountMsat r div 2, cr_FeeMsat := cr_FeeMsat r div 2\<rparr>
      else r)"

definition note_result :: "int \<Rightarrow> bool \<Rightarrow> u64 \<Rightarrow> u64 \<Rightarrow> CandidateRecord \<Rightarrow> CandidateRecord" where
  "note_result now success amountMsat feeMsat r =
     (if success
      then r\<lparr>Successes := Successes r + 1, LastSuccess := now, Failing := False,
             cr_AmountMsat := cr_AmountMsat r + amountMsat, cr_FeeMsat := cr_FeeMsat r + feeMsat\<rparr>
      else r\<lparr>Failures := Failures r + 1, LastFailure := now, Failing := True\<rparr>)"

definition RecordCandidate :: "int \<Rightarrow> Node \<Rightarrow> channel_id \<Rightarrow> bool \<Rightarrow> u64 \<Rightarrow> u64 \<Rightarrow> Node" where
  "RecordCandidate now n i success amountMsat feeMsat =
     n\<lparr>candidates := AList.update i
         (note_result now success amountMsat feeMsat (fade_record (node_CandidateRecord n i))) (candidates n)\<rparr>"

definition candidateList :: "Node \<Rightarrow> (channel_id \<times> CandidateRecord) list" where
  "candidateList n = candidates n"

definition restoreCandidates :: "Node \<Rightarrow> (channel_id \<times> CandidateRecord) list \<Rightarrow> Node" where
  "restoreCandidates n saved =
     n\<lparr>candidates := foldl (\<lambda>m (i, r). case map_of m i of Some _ \<Rightarrow> m | None \<Rightarrow> AList.update i r m)
         (candidates n) saved\<rparr>"

definition pruneCandidates :: "Node \<Rightarrow> channel_id set \<Rightarrow> Node \<times> nat" where
  "pruneCandidates n opened =
     (n\<lparr>candidates := filter (\<lambda>(i, r). i \<in> opened) (candidates n)\<rparr>,
      length (filter (\<lambda>(i, r). i \<notin> opened) (candidates n)))"

section \<open>Ranking\<close>

record ranked =
  ranked_id :: channel_id
  backoff :: bool
  rate :: rat
  ppm :: rat
  hasPrice :: bool

definition rank_one :: "int \<Rightarrow> Node \<Rightarrow> (channel_id \<rightharpoonup> rat) \<Rightarrow> channel_id \<Rightarrow> ranked" where
  "rank_one now n cost i =
     (let r = node_CandidateRecord n i;
          own = (case cost i of None \<Rightarrow> 0 | Some c \<Rightarrow> c);
          e = \<lparr>ranked_id = i, backoff = backingOff r now, rate = successRate r, ppm = own, hasPrice = False\<rparr> in
      if cr_AmountMsat r > 0
      then e\<lparr>ppm := fadd own (fdiv (fmul (float_of_u64 (cr_FeeMsat r)) 1000000) (float_of_u64 (cr_AmountMsat r))),
             hasPrice := True\<rparr>
      else e)"

definition ranks_before :: "ranked \<Rightarrow> ranked \<Rightarrow> bool" where
  "ranks_before a b =
     (if backoff a \<noteq> backoff b then \<not> backoff a
      else if rate a \<noteq> rate b then rate a > rate b
      else if hasPrice a \<noteq> hasPrice b then hasPrice a
      else ppm a < ppm b)"

text \<open>\<^verbatim>\<open>sort.SliceStable\<close>: an element goes before those that came after it, unless one of them is less.\<close>

fun stable_insert :: "('a \<Rightarrow> 'a \<Rightarrow> bool) \<Rightarrow> 'a \<Rightarrow> 'a list \<Rightarrow> 'a list" where
  "stable_insert lt x [] = [x]"
| "stable_insert lt x (y # ys) = (if lt y x then y # stable_insert lt x ys else x # y # ys)"

definition SliceStable :: "('a \<Rightarrow> 'a \<Rightarrow> bool) \<Rightarrow> 'a list \<Rightarrow> 'a list" where
  "SliceStable lt xs = foldr (stable_insert lt) xs []"

definition RankCandidates :: "int \<Rightarrow> Node \<Rightarrow> channel_id list \<Rightarrow> (channel_id \<rightharpoonup> rat) \<Rightarrow> channel_id list" where
  "RankCandidates now n ids cost = map ranked_id (SliceStable ranks_before (map (rank_one now n cost) ids))"

section \<open>The lemmas\<close>

lemma ranked_id_rank_one [simp]: "ranked_id (rank_one now n cost i) = i"
  by (simp add: rank_one_def Let_def)

text \<open>Sorting by a comparator that compares keys is sorting by the keys.\<close>

lemma SliceStable_sort_key:
  assumes "\<And>x y. lt x y \<longleftrightarrow> key x < (key y :: 'k :: linorder)"
  shows "SliceStable lt xs = sort_key key xs"
proof (induction xs)
  case (Cons x xs)
  have "stable_insert lt x ys = insort_key key x ys" for ys
    by (induction ys) (auto simp: assms not_le)
  with Cons show ?case by (simp add: SliceStable_def)
qed (simp add: SliceStable_def)

lemma SliceStable_map: "SliceStable lt (map f xs) = map f (SliceStable (\<lambda>x y. lt (f x) (f y)) xs)"
proof (induction xs)
  case (Cons x xs)
  have "stable_insert lt (f x) (map f ys) = map f (stable_insert (\<lambda>x y. lt (f x) (f y)) x ys)" for ys
    by (induction ys) simp_all
  with Cons show ?case by (simp add: SliceStable_def)
qed (simp add: SliceStable_def)

text \<open>The keys of the ranking.\<close>

definition rank_key :: "ranked \<Rightarrow> bool \<times> rat \<times> bool \<times> rat" where
  "rank_key r = (backoff r, - rate r, \<not> hasPrice r, ppm r)"

lemma ranks_before_key: "ranks_before a b \<longleftrightarrow> rank_key a < rank_key b"
  by (auto simp: ranks_before_def rank_key_def less_prod_def')

lemma RankCandidates_sort:
  "RankCandidates now n ids cost = sort_key (\<lambda>i. rank_key (rank_one now n cost i)) ids"
  unfolding RankCandidates_def SliceStable_map
  by (simp add: comp_def ranks_before_key SliceStable_sort_key [where key = "\<lambda>i. rank_key (rank_one now n cost i)"])

section \<open>Success rates, exactly\<close>

text \<open>The counts of a record: at most \<^const>\<open>candidateMemory\<close>, so recent results keep their weight.\<close>

definition record_ok :: "CandidateRecord \<Rightarrow> bool" where
  "record_ok r \<longleftrightarrow> unat (Successes r) + unat (Failures r) \<le> 50"

text \<open>What \<^const>\<open>successRate\<close> rounds to a \<^verbatim>\<open>float64\<close>.  Two such fractions that differ do so by more than a
  rounding can make up for, so comparing the floats compares the fractions.\<close>

definition exact_rate :: "CandidateRecord \<Rightarrow> rat" where
  "exact_rate r = (of_nat (unat (Successes r)) + 1) / (of_nat (unat (Successes r)) + of_nat (unat (Failures r)) + 2)"

lemma successRate_exact:
  assumes "record_ok r"
  shows "successRate r = f64 (exact_rate r)"
proof -
  have s: "unat (Successes r + 1) = unat (Successes r) + 1"
    using assms by (subst unat_u64_add_exact) (simp_all add: record_ok_def)
  have f: "unat (Successes r + Failures r) = unat (Successes r) + unat (Failures r)"
    using assms by (intro unat_u64_add_exact) (simp add: record_ok_def)
  then have t: "unat (Successes r + Failures r + 2) = unat (Successes r) + unat (Failures r) + 2"
    using assms by (subst unat_u64_add_exact) (simp_all add: record_ok_def)
  have "Successes r + 1 \<le> 2 ^ 53" "Successes r + Failures r + 2 \<le> 2 ^ 53"
    using assms by (simp_all only: u64_le_iff s t) (simp_all add: record_ok_def)
  then have "float_of_u64 (Successes r + 1) = of_nat (unat (Successes r)) + 1"
    "float_of_u64 (Successes r + Failures r + 2) = of_nat (unat (Successes r)) + of_nat (unat (Failures r)) + 2"
    by (simp_all add: float_of_u64_exact s t del: of_nat_unat)
  then show ?thesis by (simp only: successRate_def fdiv_def exact_rate_def)
qed

lemma fractions_apart:
  fixes a b c d :: nat
  assumes "b \<le> 52" "d \<le> 52" "0 < b" "0 < d" "(of_nat a :: rat) / of_nat b < of_nat c / of_nat d"
  shows "(of_nat a :: rat) / of_nat b + 1 / 2 ^ 52 < of_nat c / of_nat d"
proof -
  have "(of_nat (a * d) :: rat) < of_nat (c * b)" using assms(3-5) by (simp add: field_simps)
  then have "a * d + 1 \<le> c * b" unfolding of_nat_less_iff by simp
  then have cross: "(of_nat a * of_nat d + 1 :: rat) \<le> of_nat c * of_nat b"
    by (metis of_nat_1 of_nat_add of_nat_le_iff of_nat_mult)
  have "b * d \<le> 52 * 52" using assms by (intro mult_le_mono) simp_all
  then have "(of_nat (b * d) :: rat) \<le> of_nat (52 * 52)" by (simp only: of_nat_le_iff)
  then have small: "(of_nat b * of_nat d :: rat) < 2 ^ 52" by simp
  have pos: "(0 :: rat) < of_nat b * of_nat d" using assms by simp
  have "(1 :: rat) / 2 ^ 52 < 1 / (of_nat b * of_nat d)"
    using small pos by (intro divide_strict_left_mono) simp_all
  also have "\<dots> \<le> of_nat c / of_nat d - of_nat a / of_nat b"
    using cross assms(3,4) by (simp add: field_simps)
  finally show ?thesis by linarith
qed

lemma successRate_less_iff:
  assumes "record_ok r" "record_ok r'"
  shows "successRate r < successRate r' \<longleftrightarrow> exact_rate r < exact_rate r'"
proof -
  have strict: "f64 (exact_rate x) < f64 (exact_rate y)" if "record_ok x" "record_ok y" "exact_rate x < exact_rate y" for x y
  proof (rule f64_strict)
    have e: "exact_rate z = of_nat (unat (Successes z) + 1) / of_nat (unat (Successes z) + unat (Failures z) + 2)" for z
      by (simp add: exact_rate_def add.commute del: of_nat_unat)
    show "0 < exact_rate x" unfolding e by (simp del: of_nat_unat)
    show "exact_rate y \<le> 1" unfolding e by (simp add: divide_le_eq_1 del: of_nat_unat)
    show "exact_rate x + 1 / 2 ^ 52 < exact_rate y"
      using that unfolding e record_ok_def by (intro fractions_apart) simp_all
  qed
  have "f64 (exact_rate r') \<le> f64 (exact_rate r)" if "\<not> exact_rate r < exact_rate r'"
    using that by (intro f64_mono) simp
  then have "f64 (exact_rate r) < f64 (exact_rate r') \<longleftrightarrow> exact_rate r < exact_rate r'"
    using strict [OF assms] by (meson not_le)
  then show ?thesis by (simp add: successRate_exact assms)
qed

text \<open>What a candidate's successes paid, with what moving liquidity on its channel costs beyond that.\<close>

definition own_price :: "Node \<Rightarrow> (channel_id \<rightharpoonup> rat) \<Rightarrow> channel_id \<Rightarrow> rat" where
  "own_price n cost i =
     (let r = node_CandidateRecord n i; own = (case cost i of None \<Rightarrow> 0 | Some c \<Rightarrow> c) in
      if cr_AmountMsat r > 0
      then fadd own (fdiv (fmul (float_of_u64 (cr_FeeMsat r)) 1000000) (float_of_u64 (cr_AmountMsat r))) else own)"

text \<open>The order of the documentation: \<open>i\<close> may stand before \<open>j\<close>.\<close>

definition may_precede :: "int \<Rightarrow> Node \<Rightarrow> (channel_id \<rightharpoonup> rat) \<Rightarrow> channel_id \<Rightarrow> channel_id \<Rightarrow> bool" where
  "may_precede now n cost i j \<longleftrightarrow>
     (let a = node_CandidateRecord n i; b = node_CandidateRecord n j in
      (backingOff a now \<longrightarrow> backingOff b now) \<and>
      (backingOff a now = backingOff b now \<longrightarrow> exact_rate b \<le> exact_rate a \<and>
        (exact_rate a = exact_rate b \<longrightarrow> (cr_AmountMsat b > 0 \<longrightarrow> cr_AmountMsat a > 0) \<and>
          ((cr_AmountMsat a > 0 \<longleftrightarrow> cr_AmountMsat b > 0) \<longrightarrow> own_price n cost i \<le> own_price n cost j))))"

lemma rank_one_fields:
  "backoff (rank_one now n cost i) = backingOff (node_CandidateRecord n i) now"
  "rate (rank_one now n cost i) = successRate (node_CandidateRecord n i)"
  "hasPrice (rank_one now n cost i) = (cr_AmountMsat (node_CandidateRecord n i) > 0)"
  "ppm (rank_one now n cost i) = own_price n cost i"
  by (simp_all add: rank_one_def own_price_def Let_def)

lemma rank_key_le_iff:
  assumes "record_ok (node_CandidateRecord n i)" "record_ok (node_CandidateRecord n j)"
  shows "rank_key (rank_one now n cost i) \<le> rank_key (rank_one now n cost j) \<longleftrightarrow> may_precede now n cost i j"
  using successRate_less_iff [OF assms] successRate_less_iff [OF assms(2,1)]
  by (auto simp: rank_key_def rank_one_fields less_eq_prod_def less_prod_def may_precede_def Let_def)

lemma record_ok_no_record: "record_ok no_record"
  by (simp add: record_ok_def no_record_def)

text \<open>
C30
The ranking is in the documented order.  It loses no candidate and adds none; and a candidate stands
before another only if it is not backing off while the other is (failed within the last half hour,
not succeeded since); if they are alike in that, only if its success rate, (successes+1)/(attempts+2)
as an exact fraction although the code compares floats, is at least the other's; if that is the same,
only if it has moved something or the other has not; and then only if its price is not above the
other's.  Candidates that are alike in all of that keep the order they came in.  The records are those
\<open>RecordCandidate\<close> makes, of at most 50 attempts.
\<close>
theorem ranking_in_order:
  assumes "\<forall>i. record_ok (node_CandidateRecord n i)"
  shows "mset (RankCandidates now n ids cost) = mset ids \<and>
    sorted_wrt (may_precede now n cost) (RankCandidates now n ids cost) \<and>
    filter (\<lambda>i. may_precede now n cost i k \<and> may_precede now n cost k i) (RankCandidates now n ids cost)
      = filter (\<lambda>i. may_precede now n cost i k \<and> may_precede now n cost k i) ids"
proof -
  let ?key = "\<lambda>i. rank_key (rank_one now n cost i)"
  have le: "may_precede now n cost i j \<longleftrightarrow> ?key i \<le> ?key j" for i j
    using rank_key_le_iff assms by simp
  have "sorted_wrt (\<lambda>i j. ?key i \<le> ?key j) (RankCandidates now n ids cost)"
    using sorted_sort_key [of ?key ids] unfolding RankCandidates_sort by (simp add: sorted_wrt_map)
  moreover have "?key i \<le> ?key k \<and> ?key k \<le> ?key i \<longleftrightarrow> ?key i = ?key k" for i by auto
  ultimately show ?thesis
    unfolding le by (simp add: RankCandidates_sort sort_key_stable)
qed

text \<open>Every result that is recorded keeps the counts small.\<close>

lemma note_result_ok: "record_ok r \<Longrightarrow> record_ok (note_result now b a f (fade_record r))"
proof -
  assume ok: "record_ok r"
  have half: "unat (x div 2) = unat x div 2" for x :: u64 by (simp add: unat_specs)
  have plus: "unat (x + 1) \<le> unat x + 1" for x :: u64 by (simp add: unat_u64_add)
  have sum: "unat (Successes r + Failures r) = unat (Successes r) + unat (Failures r)"
    using ok by (intro unat_u64_add_exact) (simp add: record_ok_def)
  show ?thesis
    using ok plus [of "Successes r"] plus [of "Failures r"] plus [of "Successes r div 2"] plus [of "Failures r div 2"]
    by (auto simp: record_ok_def note_result_def fade_record_def candidateMemory_def word_le_nat_alt sum half)
qed

lemma RecordCandidate_ok:
  assumes "\<forall>i. record_ok (node_CandidateRecord n i)"
  shows "\<forall>i. record_ok (node_CandidateRecord (RecordCandidate now n j success a f) i)"
  using assms note_result_ok by (simp add: RecordCandidate_def node_CandidateRecord_def)

definition ranked_node :: Node where
  "ranked_node = RecordCandidate 5000 (RecordCandidate 5000 (RecordCandidate 1000 new_node ''1x1x1/0'' True 400000 20)
     ''2x1x1/0'' False 0 0) ''3x1x1/0'' True 400000 10"

theorem ranking_in_order_witness:
  "sorted_wrt (may_precede 5100 ranked_node Map.empty)
     (RankCandidates 5100 ranked_node [''2x1x1/0'', ''4x1x1/0'', ''1x1x1/0'', ''3x1x1/0''] Map.empty) \<and>
   RankCandidates 5100 ranked_node [''2x1x1/0'', ''4x1x1/0'', ''1x1x1/0'', ''3x1x1/0''] Map.empty
     = [''3x1x1/0'', ''1x1x1/0'', ''4x1x1/0'', ''2x1x1/0'']"
proof
  have "\<forall>i. record_ok (node_CandidateRecord new_node i)"
    by (simp add: new_node_def node_CandidateRecord_def record_ok_no_record)
  then have "\<forall>i. record_ok (node_CandidateRecord ranked_node i)"
    unfolding ranked_node_def by (intro RecordCandidate_ok)
  from ranking_in_order [OF this] show "sorted_wrt (may_precede 5100 ranked_node Map.empty)
     (RankCandidates 5100 ranked_node [''2x1x1/0'', ''4x1x1/0'', ''1x1x1/0'', ''3x1x1/0''] Map.empty)" by simp
qed code_simp

end
