(* ===== verification/Failures.thy ===== *)
theory Failures
  imports Candidates Routes Gossip
begin

text \<open>
  A rebalance (\<^verbatim>\<open>Rebalance\<close> of \<^verbatim>\<open>rebalance/rebalance.go\<close>), the errors it ends with and which side of
  the route they blame (\<^verbatim>\<open>rebalance/side.go\<close>), and what it learns from a payment's outcome
  (\<^verbatim>\<open>rebalance/failure.go\<close>).

  The text of an error is reduced to which message it is; what \<^verbatim>\<open>errors.Is\<close> and \<^verbatim>\<open>errors.As\<close> see of
  it, its chain of wrapped errors, is kept.  What lightningd, the clock and the other goroutines do
  is an environment, indexed by the number of attempts made so far.
\<close>

section \<open>Errors\<close>

datatype Side = SideNone | SideRoute | SideOut | SideIn

datatype Retry = RetryNo | RetryWhenFree | RetryNow

text \<open>
  \<^verbatim>\<open>Wrap\<close> is \<^verbatim>\<open>fmt.Errorf\<close> with \<^verbatim>\<open>%w\<close>, \<^verbatim>\<open>Text\<close> without; \<^verbatim>\<open>RouteTooExpensive\<close> has \<^verbatim>\<open>FeePPM\<close>,
  \<^verbatim>\<open>MaxPPM\<close> and whether \<^verbatim>\<open>OwnLimit\<close> is set.
\<close>

datatype rb_error =
    Util util_error
  | RouteTooExpensive u64 u64 bool
  | errShortOfLiquidity
  | errOwnLimit
  | errRunStopped
  | Text string
  | Wrap string rb_error
  | inOverMax rb_error
  | sideError Side Retry rb_error

fun error_chain :: "rb_error \<Rightarrow> rb_error list" where
  "error_chain (Wrap t e) = Wrap t e # error_chain e"
| "error_chain (inOverMax e) = inOverMax e # error_chain e"
| "error_chain (sideError s r e) = sideError s r e # error_chain e"
| "error_chain errShortOfLiquidity = [errShortOfLiquidity, Util ErrTemporaryFailure]"
| "error_chain e = [e]"

definition errors_Is :: "rb_error option \<Rightarrow> rb_error \<Rightarrow> bool" where
  "errors_Is err target = (case err of None \<Rightarrow> False | Some e \<Rightarrow> target \<in> set (error_chain e))"

text \<open>\<^verbatim>\<open>errors.As\<close>: the first error of the chain of that type.\<close>

fun as_sideError :: "rb_error \<Rightarrow> (Side \<times> Retry) option" where
  "as_sideError (sideError s r e) = Some (s, r)"
| "as_sideError (Wrap t e) = as_sideError e"
| "as_sideError (inOverMax e) = as_sideError e"
| "as_sideError e = None"

fun as_tooExpensive :: "rb_error \<Rightarrow> u64 option" where
  "as_tooExpensive (RouteTooExpensive fee limit own) = Some fee"
| "as_tooExpensive (sideError s r e) = as_tooExpensive e"
| "as_tooExpensive (Wrap t e) = as_tooExpensive e"
| "as_tooExpensive (inOverMax e) = as_tooExpensive e"
| "as_tooExpensive e = None"

fun as_inOverMax :: "rb_error \<Rightarrow> bool" where
  "as_inOverMax (inOverMax e) = True"
| "as_inOverMax (sideError s r e) = as_inOverMax e"
| "as_inOverMax (Wrap t e) = as_inOverMax e"
| "as_inOverMax e = False"

definition onOut :: "rb_error \<Rightarrow> Retry \<Rightarrow> rb_error" where "onOut e retry = sideError SideOut retry e"
definition onIn :: "rb_error \<Rightarrow> Retry \<Rightarrow> rb_error" where "onIn e retry = sideError SideIn retry e"

definition failureSide :: "rb_error option \<Rightarrow> Side \<times> Retry" where
  "failureSide err =
     (case err of
        None \<Rightarrow> (SideNone, RetryNo)
      | Some e \<Rightarrow>
          case as_sideError e of
            Some se \<Rightarrow> se
          | None \<Rightarrow>
              if errors_Is err (Util ErrOutgoingChannelDepleted) then (SideOut, RetryWhenFree)
              else if errors_Is err (Util ErrIncomingChannelDepleted) then (SideIn, RetryWhenFree)
              else if errors_Is err (Util ErrOutgoingChannelNotInNormalState)
                \<or> errors_Is err (Util ErrOutgoingPeerDisconnected)
                \<or> errors_Is err (Util ErrNoOutgoingChannel) then (SideOut, RetryNo)
              else if errors_Is err (Util ErrIncomingChannelNotInNormalState)
                \<or> errors_Is err (Util ErrIncomingPeerDisconnected)
                \<or> errors_Is err (Util ErrNoIncomingChannel) then (SideIn, RetryNo)
              else if errors_Is err (Util ErrNoRoute) \<or> errors_Is err (Util ErrNoSuchNode)
                \<or> errors_Is err (Util ErrTemporaryFailure) \<or> as_tooExpensive e \<noteq> None then (SideRoute, RetryNo)
              else (SideNone, RetryNo))"

definition isPrecheck :: "rb_error option \<Rightarrow> bool" where
  "isPrecheck err =
     (case err of
        None \<Rightarrow> False
      | Some e \<Rightarrow>
          as_sideError e = None \<and>
          (errors_Is err (Util ErrOutgoingChannelDepleted) \<or> errors_Is err (Util ErrIncomingChannelDepleted)))"

section \<open>A rebalance\<close>

record Rebalance =
  OutChannel :: Channel
  InChannel :: Channel
  rb_Amount :: u64
  MaxPPM :: u64
  Attempts :: int
  MaxHops :: int
  rb_Node :: Node
  MinAmount :: u64
  rb_Route :: "channel_id list"
  MaxNodeFails :: int
  RiskPPM :: int
  RunMaxPPM :: u64
  nodeFailures :: "node_id \<Rightarrow> int"
  failedAt :: "(node_id \<times> int) list"
  payments :: int
  midFailures :: int
  tick :: nat

text \<open>The failure data of lightningd (\<^verbatim>\<open>glightning.PaymentErrorData\<close>), as far as it is read.\<close>

record PaymentErrorData =
  ErringIndex :: int
  ErringNode :: node_id
  ErringChannel :: scid
  ErringDirection :: int
  FailCode :: int

datatype pay_error = PaymentError PaymentErrorData | OtherError rb_error

text \<open>
  The environment at each attempt: the time (Unix), whether the run has halted, what the other
  goroutines (gossip, refreshes, other rebalances) have done to the node since the attempt before,
  the outcome of a payment, and the answers of listchannels for one channel and listpeerchannels
  for one peer.  \<open>e_log\<close> and \<open>e_pow\<close> are \<^verbatim>\<open>math.Log\<close> and \<^verbatim>\<open>math.Pow\<close>.
\<close>

record env =
  e_now :: "nat \<Rightarrow> int"
  e_halt :: "nat \<Rightarrow> bool"
  e_others :: "nat \<Rightarrow> Node \<Rightarrow> Node"
  e_pay :: "nat \<Rightarrow> Route \<Rightarrow> pay_error + PrettyRoute"
  e_listchannel :: "nat \<Rightarrow> scid \<Rightarrow> GlChannel list option"
  e_listpeer :: "nat \<Rightarrow> node_id \<Rightarrow> (PeerChannel list \<times> int) option"
  e_log :: "rat \<Rightarrow> rat"
  e_pow :: "rat \<Rightarrow> rat \<Rightarrow> rat"

abbreviation rb_graph :: "Rebalance \<Rightarrow> Graph" where
  "rb_graph r \<equiv> node_Graph (rb_Node r)"

abbreviation learn :: "(Graph \<Rightarrow> Graph) \<Rightarrow> Rebalance \<Rightarrow> Rebalance" where
  "learn f r \<equiv> r\<lparr>rb_Node := on_graph f (rb_Node r)\<rparr>"

definition DEFAULT_MAX_NODE_FAILS :: int where "DEFAULT_MAX_NODE_FAILS = 5"

definition OrDefault :: "int \<Rightarrow> int \<Rightarrow> int" where
  "OrDefault nodeDefault builtin = (if nodeDefault > 0 then nodeDefault else builtin)"

definition maxNodeFails :: "Rebalance \<Rightarrow> int" where
  "maxNodeFails r =
     (if MaxNodeFails r \<le> 0
      then OrDefault (def_MaxNodeFails (node_Defaults (rb_Node r))) DEFAULT_MAX_NODE_FAILS
      else MaxNodeFails r)"

section \<open>Avoiding\<close>

text \<open>Seconds.\<close>

definition AVOID_DURATION :: int where "AVOID_DURATION = 1800"

definition rb_avoid :: "int \<Rightarrow> Rebalance \<Rightarrow> string set \<Rightarrow> string \<Rightarrow> Rebalance \<times> string set" where
  "rb_avoid now r exclude key =
     (if key = Destination (OutChannel r) \<or> key = Source (InChannel r) then (r, insert key exclude)
      else (learn (\<lambda>g. avoid_key g key (now + AVOID_DURATION)) r, insert key exclude))"

definition retryWhenFreeIf :: "bool \<Rightarrow> Retry" where
  "retryWhenFreeIf busy = (if busy then RetryWhenFree else RetryNo)"

section \<open>Failure codes\<close>

definition failNodeBit :: int where "failNodeBit = 0x2000"
definition failTemporaryNodeFailure :: int where "failTemporaryNodeFailure = 0x2002"
definition failTemporaryChannelFailure :: int where "failTemporaryChannelFailure = 0x1007"
definition failAmountBelowMinimum :: int where "failAmountBelowMinimum = 0x100b"
definition failFeeInsufficient :: int where "failFeeInsufficient = 0x100c"
definition failIncorrectCltvExpiry :: int where "failIncorrectCltvExpiry = 0x100d"
definition failExpiryTooSoon :: int where "failExpiryTooSoon = 0x100e"
definition failChannelDisabled :: int where "failChannelDisabled = 0x1014"
definition failPermanentChannelFailure :: int where "failPermanentChannelFailure = 0x4008"
definition failUnknownNextPeer :: int where "failUnknownNextPeer = 0x400a"

lemmas fail_codes = failNodeBit_def failTemporaryNodeFailure_def failTemporaryChannelFailure_def
  failAmountBelowMinimum_def failFeeInsufficient_def failIncorrectCltvExpiry_def failExpiryTooSoon_def
  failChannelDisabled_def failPermanentChannelFailure_def failUnknownNextPeer_def

definition stale_policy_code :: "int \<Rightarrow> bool" where
  "stale_policy_code code \<longleftrightarrow>
     code \<in> {failFeeInsufficient, failIncorrectCltvExpiry, failAmountBelowMinimum, failExpiryTooSoon}"

definition failsTheNode :: "int \<Rightarrow> bool" where
  "failsTheNode code = (\<not> stale_policy_code code)"

definition is_node_failure :: "int \<Rightarrow> bool" where
  "is_node_failure code = (code AND failNodeBit \<noteq> 0)"

section \<open>Policies\<close>

definition policyChanged :: "Channel \<Rightarrow> Channel \<Rightarrow> bool" where
  "policyChanged old updated =
     (BaseFeeMillisatoshi updated \<noteq> BaseFeeMillisatoshi old \<or>
      FeePerMillionth updated \<noteq> FeePerMillionth old \<or>
      Delay updated \<noteq> Delay old \<or>
      HtlcMinimumMilliSatoshis updated \<noteq> HtlcMinimumMilliSatoshis old \<or>
      HtlcMaximumMilliSatoshis updated \<noteq> HtlcMaximumMilliSatoshis old)"

definition refreshPolicy :: "env \<Rightarrow> Rebalance \<Rightarrow> Channel \<Rightarrow> channel_id \<Rightarrow> Rebalance \<times> bool" where
  "refreshPolicy env r old i =
     (let r = r\<lparr>rb_Node := RefreshChannel (rb_Node r) (e_listchannel env (tick r) (ShortChannelId old))\<rparr> in
      case GetChannel (rb_graph r) i of
        Inl _ \<Rightarrow> (r, False)
      | Inr updated \<Rightarrow> (r, policyChanged old updated))"

definition rb_refreshPeers :: "env \<Rightarrow> Rebalance \<Rightarrow> node_id list \<Rightarrow> Rebalance \<times> bool" where
  "rb_refreshPeers env r peerIds =
     (let (n, ok) = RefreshPeerChannels (e_now env (tick r)) (rb_Node r)
                      (map (\<lambda>i. (i, e_listpeer env (tick r) i)) peerIds) in
      (r\<lparr>rb_Node := n\<rparr>, ok))"

section \<open>Learning from a failure\<close>

text \<open>For the run's worst nodes, and the scores kept across runs.\<close>

definition count_failure :: "env \<Rightarrow> Rebalance \<Rightarrow> PaymentErrorData \<Rightarrow> nat \<Rightarrow> Rebalance" where
  "count_failure env r failure k =
     (let node = ErringNode failure;
          r = r\<lparr>failedAt := AList.update node
                 ((case map_of (failedAt r) node of None \<Rightarrow> 0 | Some m \<Rightarrow> m) + 1) (failedAt r)\<rparr> in
      if k > 1 then
        let r = r\<lparr>midFailures := midFailures r + 1\<rparr> in
        if failsTheNode (FailCode failure)
        then learn (\<lambda>g. NodeFailed (e_pow env) (e_now env (tick r)) g node) r else r
      else r)"

text \<open>The channels before the one that failed carried the payment; hop 0 is our own.\<close>

definition learn_carried :: "int \<Rightarrow> Rebalance \<Rightarrow> RouteHop list \<Rightarrow> Rebalance" where
  "learn_carried now r hops =
     foldl (\<lambda>r h. learn (\<lambda>g. LearnLowerBound now g (channelId (hop_Channel h)) (MilliSatoshi h)) r) r hops"

text \<open>The cases of the switch on the failure code.\<close>

definition fail_temporary ::
  "env \<Rightarrow> Rebalance \<Rightarrow> RouteHop \<Rightarrow> nat \<Rightarrow> bool \<Rightarrow> PaymentErrorData \<Rightarrow> string set \<Rightarrow> Rebalance \<times> string set \<times> rb_error" where
  "fail_temporary env r hop k inChannel failure exclude =
     (if inChannel then (r, exclude, onIn (Text ''cannot send to us over our channel right now'') RetryWhenFree)
      else
        let i = channelId (hop_Channel hop); node = ErringNode failure;
            r = learn (\<lambda>g. LearnUpperBound (e_now env (tick r)) g i (MilliSatoshi hop)) r;
            exclude = insert i exclude;
            n = nodeFailures r node + 1;
            r = r\<lparr>nodeFailures := (nodeFailures r)(node := n)\<rparr> in
        if n \<ge> maxNodeFails r then
          (if k = 1 then (r, exclude, onOut (Text ''the out-peer has little outbound liquidity left'') RetryNo)
           else (r, insert node exclude, errShortOfLiquidity))
        else (r, exclude, errShortOfLiquidity))"

definition fail_policy ::
  "env \<Rightarrow> Rebalance \<Rightarrow> RouteHop \<Rightarrow> bool \<Rightarrow> PaymentErrorData \<Rightarrow> string set \<Rightarrow> Rebalance \<times> string set \<times> rb_error" where
  "fail_policy env r hop inChannel failure exclude =
     (let i = channelId (hop_Channel hop) in
      if inChannel then
        (if FailCode failure = failFeeInsufficient then
           let (r, ok) = rb_refreshPeers env r [Source (InChannel r)] in
           if \<not> ok then (r, exclude, onIn (Util ErrWireFeeInsufficient) RetryNo)
           else
             (case GetChannel (rb_graph r) i of
                Inl _ \<Rightarrow> (r, exclude, onIn (Util ErrWireFeeInsufficient) RetryNo)
              | Inr updated \<Rightarrow>
                  if \<not> policyChanged (hop_Channel hop) updated
                  then (r, exclude, onIn (Util ErrWireFeeInsufficient) RetryNo)
                  else (r, exclude, onIn (Util ErrWireFeeInsufficient) RetryNow))
         else (r, exclude, onIn (Text ''rejected the payment on our channel'') RetryNo))
      else
        let (r, changed) = refreshPolicy env r (hop_Channel hop) i in
        if \<not> changed then
          let (r, exclude) = rb_avoid (e_now env (tick r)) r exclude i in
          (r, exclude, Util ErrTemporaryFailure)
        else (r, exclude, Util ErrTemporaryFailure))"

definition fail_unusable ::
  "env \<Rightarrow> Rebalance \<Rightarrow> RouteHop \<Rightarrow> bool \<Rightarrow> string set \<Rightarrow> Rebalance \<times> string set \<times> rb_error" where
  "fail_unusable env r hop inChannel exclude =
     (if inChannel then (r, exclude, onIn (Text ''cannot use our channel'') RetryNo)
      else
        let i = channelId (hop_Channel hop) in
        (learn (\<lambda>g. MarkUnusable (e_now env (tick r)) g i) r, insert i exclude, Util ErrTemporaryFailure))"

definition fail_other ::
  "env \<Rightarrow> Rebalance \<Rightarrow> RouteHop \<Rightarrow> nat \<Rightarrow> bool \<Rightarrow> PaymentErrorData \<Rightarrow> string set \<Rightarrow> Rebalance \<times> string set \<times> rb_error" where
  "fail_other env r hop k inChannel failure exclude =
     (let retry = retryWhenFreeIf (FailCode failure = failTemporaryNodeFailure); node = ErringNode failure in
      if inChannel then (r, insert node exclude, onIn (Text ''failed the payment on our channel'') retry)
      else if k = 1 \<and> is_node_failure (FailCode failure)
      then (r, insert node exclude, onOut (Text ''failed the payment'') retry)
      else
        let (r, exclude) = rb_avoid (e_now env (tick r)) r exclude
              (if is_node_failure (FailCode failure) then node else channelId (hop_Channel hop)) in
        (r, exclude, Util ErrTemporaryFailure))"

definition learn_at_hop ::
  "env \<Rightarrow> Rebalance \<Rightarrow> Route \<Rightarrow> PaymentErrorData \<Rightarrow> nat \<Rightarrow> string set \<Rightarrow> Rebalance \<times> string set \<times> rb_error" where
  "learn_at_hop env r route failure k exclude =
     (let hop = Hops route ! k;
          inChannel = (k = length (Hops route) - 1);
          r = (if inChannel then r else count_failure env r failure k);
          r = learn_carried (e_now env (tick r)) r (slice 1 k (Hops route));
          code = FailCode failure in
      if code = failTemporaryChannelFailure then fail_temporary env r hop k inChannel failure exclude
      else if stale_policy_code code then fail_policy env r hop inChannel failure exclude
      else if code \<in> {failChannelDisabled, failPermanentChannelFailure, failUnknownNextPeer}
      then fail_unusable env r hop inChannel exclude
      else fail_other env r hop k inChannel failure exclude)"

definition learnFromFailure ::
  "env \<Rightarrow> Rebalance \<Rightarrow> Route \<Rightarrow> PaymentErrorData \<Rightarrow> string set \<Rightarrow> Rebalance \<times> string set \<times> rb_error" where
  "learnFromFailure env r route failure exclude =
     (let self = node_Id (rb_Node r); node = ErringNode failure in
      if node = self \<and> ErringIndex failure = 0 \<and> length (Hops route) > 0
      then (r, exclude, onOut (Text ''our channel could not send the payment'')
              (retryWhenFreeIf (FailCode failure = failTemporaryChannelFailure)))
      else if node = self then (r, exclude, Text ''our node failed the payment'')
      else
        let exclude = (if ErringChannel failure \<noteq> ''''
              then insert (ErringChannel failure @ ''/'' @ decimal (ErringDirection failure)) exclude else exclude) in
        case index_of node (map (\<lambda>h. Source (hop_Channel h)) (Hops route)) of
          None \<Rightarrow>
            let (r, exclude) = rb_avoid (e_now env (tick r)) r exclude node in
            (r, exclude, Util ErrTemporaryFailure)
        | Some k \<Rightarrow> learn_at_hop env r route failure k exclude)"

section \<open>Learning from a success\<close>

text \<open>The first loop leaves out our own channels, the second our own node.\<close>

definition learnFromSuccess :: "env \<Rightarrow> Rebalance \<Rightarrow> Route \<Rightarrow> Rebalance" where
  "learnFromSuccess env r route =
     (let now = e_now env (tick r);
          r = foldl (\<lambda>r h. learn (\<lambda>g. LearnPayment now g (channelId (hop_Channel h)) (MilliSatoshi h)) r)
                r (middle (Hops route)) in
      foldl (\<lambda>r h. learn (\<lambda>g. NodeForwarded (e_pow env) now g (Source (hop_Channel h))) r) r (drop 1 (Hops route)))"

end
