(* ===== verification/RebalanceRun.thy ===== *)
theory RebalanceRun
  imports Failures RouteSearch
begin

text \<open>
  One rebalance from start to end: its parameters and checks (\<^verbatim>\<open>rebalance/params.go\<close>), its search
  and payment (\<^verbatim>\<open>rebalance/route.go\<close>), its attempts (\<^verbatim>\<open>rebalance/rebalance.go\<close>), its result
  (\<^verbatim>\<open>rebalance/result.go\<close>), the quote (\<^verbatim>\<open>rebalance/quote.go\<close>) and the commands circular-node and
  circular (\<^verbatim>\<open>rebalance/bynode.go\<close>, \<^verbatim>\<open>rebalance/byscid.go\<close>).

  Log messages and the text of a result are not modelled.
\<close>

section \<open>Results\<close>

record Result =
  Status :: string
  res_Amount :: u64
  Out :: node_id
  In :: node_id
  res_Attempts :: u64
  res_Fee :: u64
  res_PPM :: u64
  res_Route :: "PrettyRoute option"
  AmountMsat_moved :: u64
  res_Channels :: "channel_id list"
  Requested :: u64
  Candidate :: channel_id
  FailedAt :: Side
  res_Retry :: Retry
  Precheck :: bool
  Halted :: bool
  CheapestPPM :: u64
  HeldByOwnLimit :: bool
  InOverMax :: bool
  OwnLimit :: bool
  FailedNodes :: "(node_id \<times> int) list"
  MiddleFailures :: int

definition NewResult :: "string \<Rightarrow> u64 \<Rightarrow> node_id \<Rightarrow> node_id \<Rightarrow> Result" where
  "NewResult status amount src dst =
     \<lparr>Status = status, res_Amount = amount, Out = src, In = dst, res_Attempts = 0, res_Fee = 0, res_PPM = 0,
      res_Route = None, AmountMsat_moved = 0, res_Channels = [], Requested = 0, Candidate = '''',
      FailedAt = SideNone, res_Retry = RetryNo, Precheck = False, Halted = False, CheapestPPM = 0,
      HeldByOwnLimit = False, InOverMax = False, OwnLimit = False, FailedNodes = [], MiddleFailures = 0\<rparr>"

section \<open>Parameters\<close>

definition DEFAULT_AMOUNT :: u64 where "DEFAULT_AMOUNT = 200000000"
definition DEFAULT_MAXPPM :: u64 where "DEFAULT_MAXPPM = 10"
definition DEFAULT_ATTEMPTS :: int where "DEFAULT_ATTEMPTS = 1"
definition DEFAULT_MAXHOPS :: int where "DEFAULT_MAXHOPS = 8"

definition NewRebalance :: "Node \<Rightarrow> Channel \<Rightarrow> Channel \<Rightarrow> u64 \<Rightarrow> u64 \<Rightarrow> int \<Rightarrow> int \<Rightarrow> Rebalance" where
  "NewRebalance n outChannel inChannel amount maxppm attempts hops =
     \<lparr>OutChannel = outChannel, InChannel = inChannel, rb_Amount = amount, MaxPPM = maxppm,
      Attempts = attempts, MaxHops = hops, rb_Node = n, MinAmount = 0, rb_Route = [],
      MaxNodeFails = 0, RiskPPM = 0, RunMaxPPM = 0, nodeFailures = (\<lambda>_. 0), failedAt = [],
      payments = 0, midFailures = 0, tick = 0\<rparr>"

definition setDefaults :: "Rebalance \<Rightarrow> Rebalance" where
  "setDefaults r =
     (let d = node_Defaults (rb_Node r);
          r = r\<lparr>rb_Amount := rb_Amount r * 1000\<rparr>;
          r = (if rb_Amount r = 0 then r\<lparr>rb_Amount := DEFAULT_AMOUNT\<rparr> else r);
          r = (if MaxPPM r = 0 then r\<lparr>MaxPPM := DEFAULT_MAXPPM\<rparr> else r);
          r = (if Attempts r \<le> 0 then r\<lparr>Attempts := OrDefault (def_Attempts d) DEFAULT_ATTEMPTS\<rparr> else r);
          r = (if MaxHops r \<le> 0 then r\<lparr>MaxHops := OrDefault (def_MaxHops d) DEFAULT_MAXHOPS\<rparr> else r) in
      r)"

definition riskPPM_of :: "Rebalance \<Rightarrow> u64" where
  "riskPPM_of r =
     (if RiskPPM r > 0 then word_of_int (RiskPPM r)
      else if RiskPPM r < 0 then 0
      else node_RiskPPM (rb_Node r))"

definition checkConnections :: "Rebalance \<Rightarrow> PeerChannel \<Rightarrow> PeerChannel \<Rightarrow> rb_error option" where
  "checkConnections r inChannel outChannel =
     (if State inChannel \<noteq> NORMAL then Some (Util ErrIncomingChannelNotInNormalState)
      else if State outChannel \<noteq> NORMAL then Some (Util ErrOutgoingChannelNotInNormalState)
      else if \<not> IsPeerConnected (rb_Node r) inChannel then Some (Util ErrIncomingPeerDisconnected)
      else if \<not> IsPeerConnected (rb_Node r) outChannel then Some (Util ErrOutgoingPeerDisconnected)
      else None)"

definition checkLiquidity :: "Rebalance \<Rightarrow> PeerChannel \<Rightarrow> PeerChannel \<Rightarrow> rb_error option" where
  "checkLiquidity r inChannel outChannel =
     (if ReceivableMsat inChannel < rb_Amount r then Some (Util ErrIncomingChannelDepleted)
      else if SpendableMsat outChannel < rb_Amount r then Some (Util ErrOutgoingChannelDepleted)
      else None)"

definition checkFirstHop :: "Rebalance \<Rightarrow> Route \<Rightarrow> rb_error option" where
  "checkFirstHop r route =
     (case GetPeerChannelFromGraphChannel (rb_Node r) (OutChannel r) of
        Inl e \<Rightarrow> Some (onOut (Util e) RetryNo)
      | Inr outChannel \<Rightarrow>
          if SpendableMsat outChannel < MilliSatoshi (hd (Hops route))
          then Some (Wrap ''it can send less than the route needs including fees'' (Util ErrOutgoingChannelDepleted))
          else None)"

definition validateLiquidityParameters :: "Rebalance \<Rightarrow> Channel \<Rightarrow> Channel \<Rightarrow> rb_error option" where
  "validateLiquidityParameters r out inc =
     (case GetPeerChannelFromGraphChannel (rb_Node r) inc of
        Inl e \<Rightarrow> Some (onIn (Util e) RetryNo)
      | Inr inChannel \<Rightarrow>
          (case GetPeerChannelFromGraphChannel (rb_Node r) out of
             Inl e \<Rightarrow> Some (onOut (Util e) RetryNo)
           | Inr outChannel \<Rightarrow>
               (case checkConnections r inChannel outChannel of
                  Some e \<Rightarrow> Some e
                | None \<Rightarrow> checkLiquidity r inChannel outChannel)))"

definition Setup :: "Rebalance \<Rightarrow> Rebalance \<times> rb_error option" where
  "Setup r = (let r = setDefaults r in (r, validateLiquidityParameters r (OutChannel r) (InChannel r)))"

section \<open>Searching and paying\<close>

definition tooExpensive :: "Rebalance \<Rightarrow> u64 \<Rightarrow> rb_error" where
  "tooExpensive r fee = RouteTooExpensive fee (MaxPPM r) (RunMaxPPM r > MaxPPM r)"

definition getRoute :: "env \<Rightarrow> Rebalance \<Rightarrow> string set \<Rightarrow> rb_error + Route" where
  "getRoute env r exclude =
     (let g = rb_graph r;
          maxFee = MaxFeeForPPM (rb_Amount r) (MaxPPM r);
          inFee = LeastForwardFee g (InChannel r) (Some (OutChannel r)) (rb_Amount r) in
      if inFee > maxFee then
        (if RunMaxPPM r > MaxPPM r \<and> inFee \<le> MaxFeeForPPM (rb_Amount r) (RunMaxPPM r)
         then Inl (Wrap ''the in-peer charges more than'' errOwnLimit)
         else Inl (onIn (inOverMax (Text ''the in-peer charges more than maxppm'')) RetryNo))
      else
        (case GetLikelyCircularRoute (e_log env) (e_pow env) (e_now env (tick r)) g (OutChannel r) (InChannel r)
                (rb_Amount r) exclude (MaxHops r) maxFee (riskPPM_of r) of
           Inl e \<Rightarrow>
             if e = ErrNoRoute then
               (case GetCheapestCircularRoute (e_log env) g (OutChannel r) (InChannel r) (rb_Amount r) exclude (MaxHops r) of
                  Inr cheapest \<Rightarrow> Inl (tooExpensive r (route_FeePPM cheapest))
                | Inl _ \<Rightarrow> Inl (Util e))
             else Inl (Util e)
         | Inr route \<Rightarrow>
             if route_FeePPM route > MaxPPM r then Inl (tooExpensive r (route_FeePPM route)) else Inr route))"

definition tryRoute ::
  "env \<Rightarrow> Rebalance \<Rightarrow> Route \<Rightarrow> string set \<Rightarrow> Rebalance \<times> string set \<times> (rb_error + PrettyRoute)" where
  "tryRoute env r route exclude =
     (case checkFirstHop r route of
        Some e \<Rightarrow> (r, exclude, Inl e)
      | None \<Rightarrow>
          let outcome = e_pay env (tick r) route;
              r = r\<lparr>payments := payments r + 1\<rparr> in
          case outcome of
            Inl (PaymentError failure) \<Rightarrow>
              let (r, exclude, e) = learnFromFailure env r route failure exclude in (r, exclude, Inl e)
          | Inl (OtherError e) \<Rightarrow> (r, exclude, Inl e)
          | Inr prettyRoute \<Rightarrow> (learnFromSuccess env r route, exclude, Inr prettyRoute))"

text \<open>An attempt ends with a result, or the route it sent, if any, and an error.\<close>

type_synonym attempt = "(Route option \<times> rb_error) + Result"

definition success_result :: "Rebalance \<Rightarrow> Route \<Rightarrow> PrettyRoute \<Rightarrow> Result" where
  "success_result r route prettyRoute =
     (NewResult ''success'' (Amount route div 1000) (Destination (OutChannel r)) (Source (InChannel r)))
        \<lparr>AmountMsat_moved := Amount route, res_Channels := ChannelIds route, res_Fee := pr_Fee prettyRoute,
         res_PPM := pr_FeePPM prettyRoute, res_Route := Some prettyRoute\<rparr>"

definition send_route :: "env \<Rightarrow> Rebalance \<Rightarrow> string set \<Rightarrow> Route \<Rightarrow> Rebalance \<times> string set \<times> attempt" where
  "send_route env r exclude route =
     (case tryRoute env r route exclude of
        (r, exclude, Inl e) \<Rightarrow> (r, exclude, Inl (Some route, e))
      | (r, exclude, Inr prettyRoute) \<Rightarrow> (r, exclude, Inr (success_result r route prettyRoute)))"

text \<open>Other goroutines run before an attempt; its number then goes up.\<close>

definition begin_attempt :: "env \<Rightarrow> Rebalance \<Rightarrow> Rebalance" where
  "begin_attempt env r = r\<lparr>tick := tick r + 1, rb_Node := e_others env (tick r + 1) (rb_Node r)\<rparr>"

definition runAttempt :: "env \<Rightarrow> Rebalance \<Rightarrow> string set \<Rightarrow> Route option \<Rightarrow> Rebalance \<times> string set \<times> attempt" where
  "runAttempt env r exclude route =
     (let r = begin_attempt env r in
      if Stopped (rb_Node r) then (r, exclude, Inl (None, Util ErrCircularStopped))
      else if e_halt env (tick r) then (r, exclude, Inl (None, errRunStopped))
      else
        (case validateLiquidityParameters r (OutChannel r) (InChannel r) of
           Some e \<Rightarrow> (r, exclude, Inl (None, e))
         | None \<Rightarrow>
             (case route of
                Some route \<Rightarrow> send_route env r exclude route
              | None \<Rightarrow>
                  (case getRoute env r exclude of
                     Inl e \<Rightarrow> (r, exclude, Inl (None, e))
                   | Inr route \<Rightarrow> send_route env r exclude route))))"

section \<open>Reusing routes\<close>

definition knownRoute :: "Rebalance \<Rightarrow> string set \<Rightarrow> Route option" where
  "knownRoute r exclude =
     (if rb_Route r = [] then None
      else
        (case GetRouteOverChannels (rb_graph r) (rb_Route r) (rb_Amount r) of
           Inl _ \<Rightarrow> None
         | Inr route \<Rightarrow>
             if route_FeePPM route > MaxPPM r \<or> \<not> CanCarry (rb_graph r) route exclude then None else Some route))"

definition excludedChannels :: "Route \<Rightarrow> string set \<Rightarrow> channel_id list" where
  "excludedChannels route exclude = filter (\<lambda>i. i \<in> exclude) (ChannelIds route)"

definition shrink :: "Rebalance \<Rightarrow> Route \<Rightarrow> string set \<Rightarrow> channel_id list \<Rightarrow> (Rebalance \<times> Route) option" where
  "shrink r route exclude shortIds =
     (if MinAmount r = 0 then None
      else
        let amount = rb_Amount r div 2 div 1000 * 1000 in
        if amount < MinAmount r \<or> amount = 0 then None
        else
          (case GetRouteOverChannels (rb_graph r) (ChannelIds route) amount of
             Inl _ \<Rightarrow> None
           | Inr shrunk \<Rightarrow>
               if Fee shrunk > MaxFeeForPPM amount (MaxPPM r) then None
               else if \<not> CanCarry (rb_graph r) shrunk (exclude - set shortIds) then None
               else Some (r\<lparr>rb_Amount := amount\<rparr>, shrunk)))"

section \<open>The attempts\<close>

record run_state =
  st_i :: int
  st_exclude :: "string set"
  st_short :: "Route option"
  st_shortIds :: "channel_id list"
  st_known :: "Route option"
  st_lastErr :: "rb_error option"

text \<open>No route: \<^verbatim>\<open>util.ErrNoRoute\<close>, or only routes that are too expensive.\<close>

definition no_route :: "rb_error \<Rightarrow> bool" where
  "no_route e \<longleftrightarrow> errors_Is (Some e) (Util ErrNoRoute) \<or> as_tooExpensive e \<noteq> None"

text \<open>The route that was just found short of liquidity, with the channels that ran short.\<close>

definition note_short :: "attempt \<Rightarrow> run_state \<Rightarrow> run_state" where
  "note_short out st =
     (case out of
        Inl (Some sent, e) \<Rightarrow>
          if errors_Is (Some e) errShortOfLiquidity
          then st\<lparr>st_short := Some sent, st_shortIds := excludedChannels sent (st_exclude st)\<rparr> else st
      | _ \<Rightarrow> st)"

text \<open>With no other route, the same attempt sends less over the short one.\<close>

definition retry_short :: "env \<Rightarrow> Rebalance \<Rightarrow> run_state \<Rightarrow> attempt \<Rightarrow> Rebalance \<times> run_state \<times> attempt" where
  "retry_short env r st out =
     (case (st_short st, out) of
        (Some short, Inl (_, e)) \<Rightarrow>
          if no_route e then
            (case shrink r short (st_exclude st) (st_shortIds st) of
               None \<Rightarrow> (r, st, out)
             | Some (r, shrunk) \<Rightarrow>
                 let (r, exclude, out) = runAttempt env r (st_exclude st) (Some shrunk);
                     st = st\<lparr>st_exclude := exclude\<rparr> in
                 (case out of
                    Inl (Some sent, e) \<Rightarrow>
                      if errors_Is (Some e) errShortOfLiquidity
                      then (r, st\<lparr>st_shortIds := st_shortIds st @ excludedChannels sent exclude\<rparr>, out)
                      else (r, st\<lparr>st_short := None\<rparr>, out)
                  | _ \<Rightarrow> (r, st\<lparr>st_short := None\<rparr>, out)))
          else (r, st, out)
      | _ \<Rightarrow> (r, st, out))"

text \<open>One pass of the loop up to the classification of the error; the boolean is \<^verbatim>\<open>continue\<close>.\<close>

definition run_pass :: "env \<Rightarrow> Rebalance \<Rightarrow> run_state \<Rightarrow> Rebalance \<times> run_state \<times> attempt \<times> bool" where
  "run_pass env r st =
     (let (r, exclude, out) = runAttempt env r (st_exclude st) (st_known st);
          reused = st_known st \<noteq> None;
          st = st\<lparr>st_exclude := exclude, st_known := None\<rparr> in
      if reused \<and> (case out of Inl (_, e) \<Rightarrow> errors_Is (Some e) (Util ErrTemporaryFailure) | Inr _ \<Rightarrow> False)
      then (r, st, out, True)
      else
        let st = note_short out st;
            (r, st, out) = retry_short env r st out in
        (r, st\<lparr>st_lastErr := (case out of Inl (_, e) \<Rightarrow> Some e | Inr _ \<Rightarrow> None)\<rparr>, out, False))"

text \<open>What ends the loop: every error but a temporary one.\<close>

definition ends_run :: "rb_error \<Rightarrow> bool" where
  "ends_run e \<longleftrightarrow>
     no_route e \<or> errors_Is (Some e) (Util ErrSendPayTimeout) \<or> errors_Is (Some e) (Util ErrWireFeeInsufficient) \<or>
     \<not> errors_Is (Some e) (Util ErrTemporaryFailure)"

definition complete_result :: "Rebalance \<Rightarrow> Result \<Rightarrow> Result" where
  "complete_result r result =
     result\<lparr>res_Attempts := word_of_int (payments r), FailedNodes := failedAt r, MiddleFailures := midFailures r\<rparr>"

text \<open>\<^verbatim>\<open>r.Attempts\<close> does not change during the loop.\<close>

lemma retry_short_known: "st_known (fst (snd (retry_short env r st out))) = st_known st"
  by (auto simp: retry_short_def Let_def split_beta split: option.split sum.split)

lemma note_short_same [simp]:
  "st_known (note_short out st) = st_known st" "st_i (note_short out st) = st_i st"
  "st_exclude (note_short out st) = st_exclude st"
  by (auto simp: note_short_def split: option.split sum.split)

lemma retry_short_i: "st_i (fst (snd (retry_short env r st out))) = st_i st"
  by (auto simp: retry_short_def Let_def split_beta split: option.split sum.split)

lemma run_pass_st:
  "run_pass env r st = (r', st', out, again) \<Longrightarrow> st_known st' = None \<and> st_i st' = st_i st \<and> (again \<longrightarrow> st_known st \<noteq> None)"
  by (auto simp: run_pass_def Let_def split_beta retry_short_known retry_short_i split: if_splits)

function run_loop :: "env \<Rightarrow> int \<Rightarrow> Rebalance \<Rightarrow> run_state \<Rightarrow> Rebalance \<times> run_state \<times> Result option" where
  "run_loop env attempts r st =
     (if st_i st > attempts then (r, st, None)
      else
        let (r, st, out, again) = run_pass env r st in
        if again then run_loop env attempts r st
        else
          (case out of
             Inr result \<Rightarrow> (r, st, Some (complete_result r result))
           | Inl (sent, e) \<Rightarrow>
               let st = st\<lparr>st_i := st_i st + 1\<rparr> in
               if ends_run e then (r, st, None) else run_loop env attempts r st))"
  by pat_completeness auto
termination
  by (relation "measure (\<lambda>(env, attempts, r, st). 2 * nat (attempts + 1 - st_i st) + (if st_known st = None then 0 else 1))")
    (auto dest!: run_pass_st [OF sym])

declare run_loop.simps [simp del]

definition startExclude :: "int \<Rightarrow> Rebalance \<Rightarrow> Rebalance \<times> string set" where
  "startExclude now r =
     (let (g, avoided) = Avoided (rb_graph r) now in
      (r\<lparr>rb_Node := (rb_Node r)\<lparr>node_Graph := g\<rparr>\<rparr>,
       insert (node_Id (rb_Node r)) (set avoided) - {Destination (OutChannel r), Source (InChannel r)}))"

definition failure_result :: "Rebalance \<Rightarrow> rb_error option \<Rightarrow> Result" where
  "failure_result r lastErr =
     (let failure = complete_result r (NewResult ''failure'' (rb_Amount r div 1000) (Destination (OutChannel r)) (Source (InChannel r)));
          (side, retry) = failureSide lastErr;
          failure = failure\<lparr>FailedAt := side, res_Retry := retry, Precheck := isPrecheck lastErr,
            Halted := errors_Is lastErr errRunStopped\<rparr>;
          failure = (case Option.bind lastErr as_tooExpensive of
              None \<Rightarrow> failure
            | Some cheapest \<Rightarrow>
                failure\<lparr>CheapestPPM := cheapest,
                  HeldByOwnLimit := (RunMaxPPM r > MaxPPM r \<and> cheapest \<le> RunMaxPPM r)\<rparr>);
          failure = (if errors_Is lastErr errOwnLimit then failure\<lparr>HeldByOwnLimit := True\<rparr> else failure) in
      failure\<lparr>InOverMax := (case lastErr of None \<Rightarrow> False | Some e \<Rightarrow> as_inOverMax e),
        OwnLimit := (RunMaxPPM r > MaxPPM r)\<rparr>)"

definition run_start :: "env \<Rightarrow> Rebalance \<Rightarrow> Rebalance \<times> run_state" where
  "run_start env r =
     (let (r, exclude) = startExclude (e_now env (tick r)) r;
          r = r\<lparr>nodeFailures := (\<lambda>_. 0), failedAt := [], payments := 0, midFailures := 0\<rparr> in
      (r, \<lparr>st_i = 1, st_exclude = exclude, st_short = None, st_shortIds = [],
           st_known = knownRoute r exclude, st_lastErr = None\<rparr>))"

definition Run :: "env \<Rightarrow> Rebalance \<Rightarrow> Rebalance \<times> Result" where
  "Run env r =
     (let requested = rb_Amount r;
          (r, st) = run_start env r;
          (r, st, result) = run_loop env (Attempts r) r st;
          r = r\<lparr>rb_Amount := requested\<rparr> in
      case result of
        Some result \<Rightarrow> (r, result)
      | None \<Rightarrow> (r, failure_result r (st_lastErr st)))"

section \<open>The quote\<close>

text \<open>A route may come with the error of \<^const>\<open>checkFirstHop\<close>.\<close>

definition Quote :: "env \<Rightarrow> Rebalance \<Rightarrow> Rebalance \<times> Route option \<times> rb_error option" where
  "Quote env r =
     (case validateLiquidityParameters r (OutChannel r) (InChannel r) of
        Some e \<Rightarrow> (r, None, Some e)
      | None \<Rightarrow>
          let (r, exclude) = startExclude (e_now env (tick r)) r in
          (case getRoute env r exclude of
             Inl e \<Rightarrow> (r, None, Some e)
           | Inr route \<Rightarrow> (r, Some route, checkFirstHop r route)))"

section \<open>The commands\<close>

definition out_score :: "int \<Rightarrow> Node \<Rightarrow> PeerChannel \<Rightarrow> u64" where
  "out_score now n ch =
     (let loc = SpendableMsat ch in
      if loc = 0 then 0
      else
        (case GetOutgoingChannelFromScid now n (pc_ShortChannelId ch) of
           Inl _ \<Rightarrow> loc
         | Inr gc \<Rightarrow> loc * 1000000 div (1000000 + FeePerMillionth gc)))"

definition getBestOutgoingChannel :: "int \<Rightarrow> Node \<Rightarrow> node_id \<Rightarrow> util_error + Channel" where
  "getBestOutgoingChannel now n outNode =
     (case GetBestPeerChannel n outNode (out_score now n) of
        None \<Rightarrow> Inl ErrNoPeerChannel
      | Some ch \<Rightarrow> GetOutgoingChannelFromScid now n (pc_ShortChannelId ch))"

definition getBestIncomingChannel :: "int \<Rightarrow> Node \<Rightarrow> node_id \<Rightarrow> util_error + Channel" where
  "getBestIncomingChannel now n inNode =
     (case GetBestPeerChannel n inNode ReceivableMsat of
        None \<Rightarrow> Inl ErrNoPeerChannel
      | Some ch \<Rightarrow> GetIncomingChannelFromScid now n (pc_ShortChannelId ch))"

definition validatePeers :: "Node \<Rightarrow> node_id \<Rightarrow> node_id \<Rightarrow> util_error option" where
  "validatePeers n inNode outNode =
     (if PeerCount n = 0 then Some ErrNoPeers
      else if inNode = node_Id n \<or> outNode = node_Id n then Some ErrSelfNode
      else if inNode = outNode then Some ErrSameIncomingAndOutgoingNode
      else if \<not> HasPeer n inNode \<or> \<not> HasPeer n outNode then Some ErrNoPeer
      else None)"

text \<open>The parameters both commands share.\<close>

record Call =
  c_Amount :: u64
  c_MaxPPM :: u64
  c_Attempts :: int
  c_MaxHops :: int
  c_MaxNodeFails :: int
  c_RiskPPM :: int

definition start_rebalance :: "env \<Rightarrow> Node \<Rightarrow> Call \<Rightarrow> Channel \<Rightarrow> Channel \<Rightarrow> Node \<times> (rb_error + Result)" where
  "start_rebalance env n c out inc =
     (let r = (NewRebalance n out inc (c_Amount c) (c_MaxPPM c) (c_Attempts c) (c_MaxHops c))
                \<lparr>MaxNodeFails := c_MaxNodeFails c, RiskPPM := c_RiskPPM c\<rparr> in
      case Setup r of
        (r, Some e) \<Rightarrow> (rb_Node r, Inl e)
      | (r, None) \<Rightarrow> let (r, result) = Run env r in (rb_Node r, Inr result))"

definition ByNode_Call :: "env \<Rightarrow> Node \<Rightarrow> node_id \<Rightarrow> node_id \<Rightarrow> Call \<Rightarrow> Node \<times> (rb_error + Result)" where
  "ByNode_Call env n outNode inNode c =
     (if inNode = '''' \<or> outNode = '''' then (n, Inl (Util ErrNoRequiredParameter))
      else
        (case validatePeers n inNode outNode of
           Some e \<Rightarrow> (n, Inl (Util e))
         | None \<Rightarrow>
             (case getBestOutgoingChannel (e_now env 0) n outNode of
                Inl e \<Rightarrow> (n, Inl (Util e))
              | Inr out \<Rightarrow>
                  (case getBestIncomingChannel (e_now env 0) n inNode of
                     Inl e \<Rightarrow> (n, Inl (Util e))
                   | Inr inc \<Rightarrow> start_rebalance env n c out inc))))"

definition ByScid_Call :: "env \<Rightarrow> Node \<Rightarrow> scid \<Rightarrow> scid \<Rightarrow> Call \<Rightarrow> Node \<times> (rb_error + Result)" where
  "ByScid_Call env n outScid inScid c =
     (if inScid = '''' \<or> outScid = '''' then (n, Inl (Util ErrNoRequiredParameter))
      else
        (case GetOutgoingChannelFromScid (e_now env 0) n outScid of
           Inl e \<Rightarrow> (n, Inl (Util e))
         | Inr out \<Rightarrow>
             (case GetIncomingChannelFromScid (e_now env 0) n inScid of
                Inl e \<Rightarrow> (n, Inl (Util e))
              | Inr inc \<Rightarrow> start_rebalance env n c out inc)))"

end
