(* ===== verification/FailureClaims.thy ===== *)
theory FailureClaims
  imports RebalanceRun RouteClaims
begin

text \<open>
  What a failed payment teaches: whom it blames, that it changes what the next search sees, and that
  what the graph learns from it is true of the real balances when the failure is.
\<close>

section \<open>Errors\<close>

lemma error_chain_self: "e \<in> set (error_chain e)"
  by (cases e) simp_all

lemma errors_Is_self [simp]: "errors_Is (Some e) e"
  by (simp add: errors_Is_def error_chain_self)

lemma failureSide_sideError [simp]: "failureSide (Some (sideError s r e)) = (s, r)"
  by (simp add: failureSide_def)

lemma failureSide_temporary [simp]:
  "failureSide (Some (Util ErrTemporaryFailure)) = (SideRoute, RetryNo)"
  "failureSide (Some errShortOfLiquidity) = (SideRoute, RetryNo)"
  by (simp_all add: failureSide_def errors_Is_def)

lemma failureSide_text [simp]: "failureSide (Some (Text t)) = (SideNone, RetryNo)"
  by (simp add: failureSide_def errors_Is_def)

lemmas fail_defs = fail_temporary_def fail_policy_def fail_unusable_def fail_other_def

section \<open>Whom a failure blames\<close>

text \<open>Where hop \<open>k\<close> of the route failed, each error says.\<close>

definition blamed :: "Rebalance \<Rightarrow> Route \<Rightarrow> PaymentErrorData \<Rightarrow> rb_error \<Rightarrow> bool" where
  "blamed r route f e =
     (case fst (failureSide (Some e)) of
        SideOut \<Rightarrow> ErringNode f = node_Id (rb_Node r)
          \<or> (1 < length (Hops route) \<and> ErringNode f = Source (hop_Channel (Hops route ! 1)))
      | SideIn \<Rightarrow> Hops route \<noteq> [] \<and> ErringNode f = Source (hop_Channel (last (Hops route)))
      | SideRoute \<Rightarrow> ErringNode f \<noteq> node_Id (rb_Node r) \<and> errors_Is (Some e) (Util ErrTemporaryFailure)
      | SideNone \<Rightarrow> ErringNode f = node_Id (rb_Node r))"

lemma hop_index_Some: "index_of x xs = Some k \<Longrightarrow> k < length xs \<and> xs ! k = x \<and> x \<notin> set (take k xs)"
proof (induction xs arbitrary: k)
  case (Cons y ys)
  then show ?case by (cases k) (auto split: if_splits)
qed simp

lemma learn_at_hop_blames:
  assumes k: "k < length (Hops route)" "Source (hop_Channel (Hops route ! k)) = ErringNode f"
    and other: "ErringNode f \<noteq> node_Id (rb_Node r)"
  shows "case learn_at_hop env r' route f k ex of (r'', ex', e) \<Rightarrow> blamed r route f e"
proof (cases "k = length (Hops route) - 1")
  case True
  then have "Hops route ! k = last (Hops route)" using k(1) by (subst last_conv_nth) auto
  with k have last: "Source (hop_Channel (last (Hops route))) = ErringNode f" "Hops route \<noteq> []" by auto
  show ?thesis
    using True last
    by (auto simp: learn_at_hop_def Let_def fail_defs onIn_def blamed_def split_beta split: sum.split)
next
  case False
  show ?thesis
    using False k other
    by (auto simp: learn_at_hop_def Let_def fail_defs onOut_def blamed_def split_beta errors_Is_def)
qed

text \<open>
C24
The side of the route that a failed payment blames is right: our out channel only when our own node
or the out-peer failed it, our in channel only when the in-peer did, and the route when another node
did, with an error that lets the rebalance try again.  A failure on neither comes from our own node.
\<close>
theorem failure_blames_the_right_side:
  "case learnFromFailure env r route f ex of (r', ex', e) \<Rightarrow> blamed r route f e"
proof (cases "ErringNode f = node_Id (rb_Node r)")
  case True
  then show ?thesis by (auto simp: learnFromFailure_def Let_def onOut_def blamed_def)
next
  case False
  show ?thesis
  proof (cases "index_of (ErringNode f) (map (\<lambda>h. Source (hop_Channel h)) (Hops route))")
    case None
    with False show ?thesis
      by (auto simp: learnFromFailure_def Let_def split_beta blamed_def)
  next
    case (Some k)
    from hop_index_Some [OF Some] have "k < length (Hops route)" "Source (hop_Channel (Hops route ! k)) = ErringNode f"
      by auto
    from learn_at_hop_blames [OF this False] False Some show ?thesis
      by (simp add: learnFromFailure_def Let_def)
  qed
qed

section \<open>The next search sees something else\<close>

text \<open>Something of hop \<open>k\<close> is excluded, or the policy it was priced with has changed.\<close>

definition hop_changed :: "Rebalance \<Rightarrow> string set \<Rightarrow> RouteHop \<Rightarrow> bool" where
  "hop_changed r ex hop \<longleftrightarrow>
     channelId (hop_Channel hop) \<in> ex \<or> Source (hop_Channel hop) \<in> ex \<or>
     (\<exists>c. GetChannel (rb_graph r) (channelId (hop_Channel hop)) = Inr c \<and> policyChanged (hop_Channel hop) c)"

lemma learn_at_hop_changes:
  assumes "learn_at_hop env r route f k ex = (r', ex', e)" "as_sideError e = None"
    and "Source (hop_Channel (Hops route ! k)) = ErringNode f"
  shows "hop_changed r' ex' (Hops route ! k) \<and> k \<noteq> length (Hops route) - 1"
  using assms
  by (auto simp: learn_at_hop_def Let_def fail_defs hop_changed_def onOut_def onIn_def rb_avoid_def refreshPolicy_def
      split: if_splits sum.splits prod.splits)

lemma find_index_of:
  "find (\<lambda>x. f x = y) xs = Some x \<Longrightarrow> \<exists>k. index_of y (map f xs) = Some k \<and> xs ! k = x"
proof (induction xs)
  case (Cons a xs)
  then show ?case by (cases "f a = y") auto
qed simp

text \<open>
C11
A rebalance makes progress: when another node of the route failed a payment and the rebalance may try
again, no route it finds next passes over the channel that failed, in that direction, unless that
channel's policy was out of date and has been read again and found changed.
\<close>
theorem failed_channel_not_tried_again:
  assumes fail: "learnFromFailure env r route f ex = (r', ex', e)"
    and retry: "as_sideError e = None" and other: "ErringNode f \<noteq> node_Id (rb_Node r)"
    and at: "find (\<lambda>h. Source (hop_Channel h) = ErringNode f) (Hops route) = Some hop"
    and ok: "graph_ok ends (rb_graph r')"
    and found: "GetLikelyCircularRoute mlog mpow now (rb_graph r') out inc amount ex' hops fee risk = Inr route'"
  shows "(\<forall>h \<in> set (middle (Hops route')). channelId (hop_Channel h) = channelId (hop_Channel hop) \<longrightarrow>
            Source (hop_Channel h) \<noteq> ErringNode f) \<or>
    (\<exists>c. channel_at (rb_graph r') (channelId (hop_Channel hop)) = Some c \<and> policyChanged (hop_Channel hop) c)"
proof -
  obtain k where k: "index_of (ErringNode f) (map (\<lambda>h. Source (hop_Channel h)) (Hops route)) = Some k" "Hops route ! k = hop"
    using find_index_of [OF at] by blast
  have src: "Source (hop_Channel hop) = ErringNode f" using hop_index_Some [OF k(1)] k(2) by auto
  obtain ex0 where "learn_at_hop env r route f k ex0 = (r', ex', e)"
    using fail other k(1) by (auto simp: learnFromFailure_def Let_def split: if_splits)
  from learn_at_hop_changes [OF this retry] have changed: "hop_changed r' ex' hop" using k(2) src by simp
  obtain req where "request_of out inc amount ex' hops fee req" "searchRoute mlog (rb_graph r') req = Inr route'"
    using GetLikelyCircularRoute_Inr [OF found] .
  from route_carries [OF ok this] have carry: "CanCarry (rb_graph r') route' ex'" .
  then have "\<forall>h \<in> set (middle (Hops route')). channelId (hop_Channel h) \<notin> ex' \<and> Source (hop_Channel h) \<notin> ex'"
    by (auto simp: CanCarry_def list_all_iff Let_def)
  with changed src show ?thesis
    by (auto simp: hop_changed_def GetChannel_def split: option.splits)
qed

section \<open>What is learned is true\<close>

text \<open>A failure is true of the real balances: the channels before the one that failed could carry what
  the payment sent over them, and one that failed for lack of liquidity could not.\<close>

definition failure_true :: "balances \<Rightarrow> Route \<Rightarrow> PaymentErrorData \<Rightarrow> bool" where
  "failure_true bal route f \<longleftrightarrow>
     (\<forall>k. index_of (ErringNode f) (map (\<lambda>h. Source (hop_Channel h)) (Hops route)) = Some k \<longrightarrow>
        (\<forall>h \<in> set (slice 1 k (Hops route)). unat (MilliSatoshi h) \<le> bal (channelId (hop_Channel h))) \<and>
        (FailCode f = failTemporaryChannelFailure \<and> k \<noteq> length (Hops route) - 1 \<longrightarrow>
           bal (channelId (hop_Channel (Hops route ! k))) < unat (MilliSatoshi (Hops route ! k))))"

text \<open>What lightningd reports of channels is true.\<close>

definition channel_true :: "(channel_id \<Rightarrow> node_id \<times> node_id) \<Rightarrow> balances \<Rightarrow> node_id \<Rightarrow> PeerChannel \<Rightarrow> bool" where
  "channel_true ends bal self ch \<longleftrightarrow>
     (\<forall>n now outgoing. node_Id n = self \<longrightarrow>
        (let c = ConvertPeerChannelToGraphChannel now n ch outgoing in
         fits_ends ends c \<and> shares_capacity bal (channelId c) (AmountMsat c)))"

definition answers_true :: "(channel_id \<Rightarrow> node_id \<times> node_id) \<Rightarrow> balances \<Rightarrow> node_id \<Rightarrow> env \<Rightarrow> bool" where
  "answers_true ends bal self env \<longleftrightarrow>
     (\<forall>t s cs. e_listchannel env t s = Some cs \<longrightarrow> listing_true bal ends cs) \<and>
     (\<forall>t i chs read. e_listpeer env t i = Some (chs, read) \<longrightarrow> list_all (channel_true ends bal self) chs)"

lemma world_ok_same:
  "Channels g' = Channels g \<Longrightarrow> Inbound g' = Inbound g \<Longrightarrow> world_ok ends (bal, g') = world_ok ends (bal, g)"
  using graph_ok_cong [of g' g ends] by (simp add: world_ok_def bounds_true_def capacity_true_def)

lemma world_ok_avoid [simp]: "world_ok ends (bal, avoid_key g key until) = world_ok ends (bal, g)"
  by (rule world_ok_same) (simp_all add: avoid_key_def)

lemma world_ok_NodeFailed [simp]: "world_ok ends (bal, NodeFailed mpow now g i) = world_ok ends (bal, g)"
  by (rule world_ok_same) (simp_all add: NodeFailed_def changeNode_def Let_def)

lemma Convert_upper [simp]: "\<not> Upper (ConvertPeerChannelToGraphChannel now n ch b)"
  by (simp add: ConvertPeerChannelToGraphChannel_def Let_def NewChannel_def GlChannel.defs Channel.defs split: prod.split)

lemma node_Id_add_local [simp]: "node_Id (add_local now n ch b) = node_Id n"
  by (simp add: add_local_def Let_def split_beta)

lemma add_local_world:
  assumes ok: "world_ok ends (bal, node_Graph n)" and "channel_true ends bal (node_Id n) ch"
  shows "world_ok ends (bal, node_Graph (add_local now n ch b))"
proof -
  let ?c = "ConvertPeerChannelToGraphChannel now n ch b"
  have c: "fits_ends ends ?c" "shares_capacity bal (channelId ?c) (AmountMsat ?c)"
    using assms(2) by (auto simp: channel_true_def Let_def)
  show ?thesis
    using graph_ok_add [OF world_okD(1) [OF ok] c(1)] ok c(2)
    by (simp add: add_local_def Let_def split_beta world_ok_def bounds_true_def capacity_true_def)
qed

lemma addLocal_world:
  assumes "world_ok ends (bal, node_Graph n)" "list_all (channel_true ends bal (node_Id n)) chs"
  shows "world_ok ends (bal, node_Graph (addLocalChannelsToGraph now n chs))"
  using assms unfolding addLocalChannelsToGraph_def
  by (induction chs arbitrary: n) (simp_all add: add_local_world)

lemma setPeerChannels_world:
  assumes "world_ok ends (bal, node_Graph n)" "list_all (channel_true ends bal (node_Id n)) chs"
  shows "world_ok ends (bal, node_Graph (setPeerChannels now n i chs readAt))"
proof -
  have "list_all (channel_true ends bal (node_Id n)) (filter P chs)" for P
    using assms(2) by (auto simp: list_all_iff)
  then show ?thesis using assms
    by (auto simp: setPeerChannels_def copy_peer_def replacePeer_def Let_def intro!: addLocal_world split: option.split)
qed

lemma refreshPolicy_world:
  assumes "world_ok ends (bal, rb_graph r)" "answers_true ends bal self env"
  shows "world_ok ends (bal, rb_graph (fst (refreshPolicy env r c i)))"
proof -
  have "world_ok ends (bal, node_Graph (RefreshChannel (rb_Node r) (e_listchannel env t s)))" for t s
    using assms refreshChannels_world by (cases "e_listchannel env t s") (auto simp: RefreshChannel_def answers_true_def)
  then show ?thesis by (simp add: refreshPolicy_def Let_def split: sum.split)
qed

lemma rb_refreshPeers_world:
  assumes "world_ok ends (bal, rb_graph r)" "answers_true ends bal (node_Id (rb_Node r)) env"
  shows "world_ok ends (bal, rb_graph (fst (rb_refreshPeers env r [i])))"
proof (cases "e_listpeer env (tick r) i")
  case (Some answer)
  obtain chs readAt where answer: "answer = (chs, readAt)" by (cases answer)
  with Some assms(2) have "list_all (channel_true ends bal (node_Id (rb_Node r))) chs"
    unfolding answers_true_def by blast
  from setPeerChannels_world [OF assms(1) this] Some answer show ?thesis
    by (simp add: rb_refreshPeers_def split_beta)
qed (simp add: rb_refreshPeers_def assms(1))

lemma rb_avoid_world [simp]:
  "world_ok ends (bal, rb_graph (fst (rb_avoid now r ex key))) = world_ok ends (bal, rb_graph r)"
  by (simp add: rb_avoid_def)

lemma count_failure_same [simp]:
  "world_ok ends (bal, rb_graph (count_failure env r f k)) = world_ok ends (bal, rb_graph r)"
  "node_Id (rb_Node (count_failure env r f k)) = node_Id (rb_Node r)"
  by (simp_all add: count_failure_def Let_def)

lemma learn_carried_world:
  assumes "world_ok ends (bal, rb_graph r)" "\<forall>h \<in> set hs. unat (MilliSatoshi h) \<le> bal (channelId (hop_Channel h))"
  shows "world_ok ends (bal, rb_graph (learn_carried now r hs)) \<and> node_Id (rb_Node (learn_carried now r hs)) = node_Id (rb_Node r)"
  using assms
proof (induction hs arbitrary: r)
  case (Cons h hs)
  have "world_ok ends (bal, LearnLowerBound now (rb_graph r) (channelId (hop_Channel h)) (MilliSatoshi h))"
    using Cons.prems by (intro world_step_ok [OF world_step.forwarded [where mpow = "\<lambda>_ _. 0"]]) (simp_all add: is_dir_id_channel)
  then show ?case using Cons.IH [of "learn (\<lambda>g. LearnLowerBound now g (channelId (hop_Channel h)) (MilliSatoshi h)) r"] Cons.prems
    by (simp add: learn_carried_def)
qed (simp add: learn_carried_def)

lemma fail_temporary_world:
  assumes ok: "world_ok ends (bal, rb_graph r)"
    and short: "\<not> inChannel \<Longrightarrow> bal (channelId (hop_Channel hop)) < unat (MilliSatoshi hop)"
  shows "world_ok ends (bal, rb_graph (fst (fail_temporary env r hop k inChannel f ex)))"
proof (cases inChannel)
  case False
  have "world_ok ends (bal, LearnUpperBound now (rb_graph r) (channelId (hop_Channel hop)) (MilliSatoshi hop))" for now
    using ok short [OF False]
    by (intro world_step_ok [OF world_step.failed [where mpow = "\<lambda>_ _. 0"]]) (simp_all add: is_dir_id_channel)
  with False show ?thesis by (simp add: fail_temporary_def Let_def)
qed (simp add: fail_temporary_def ok)

lemma fail_policy_world:
  assumes ok: "world_ok ends (bal, rb_graph r)" and ans: "answers_true ends bal (node_Id (rb_Node r)) env"
  shows "world_ok ends (bal, rb_graph (fst (fail_policy env r hop inChannel f ex)))"
  using rb_refreshPeers_world [OF ok ans, of "Source (InChannel r)"]
    refreshPolicy_world [OF ok ans, of "hop_Channel hop" "channelId (hop_Channel hop)"] ok
  by (simp add: fail_policy_def Let_def split_beta split: sum.split)

lemma fail_unusable_world:
  assumes "world_ok ends (bal, rb_graph r)"
  shows "world_ok ends (bal, rb_graph (fst (fail_unusable env r hop inChannel ex)))"
  using world_step_ok [OF world_step.unusable assms] assms by (simp add: fail_unusable_def Let_def)

lemma fail_other_world:
  assumes "world_ok ends (bal, rb_graph r)"
  shows "world_ok ends (bal, rb_graph (fst (fail_other env r hop k inChannel f ex)))"
  using assms by (simp add: fail_other_def Let_def split_beta)

lemma learn_at_hop_world:
  assumes ok: "world_ok ends (bal, rb_graph r)" and ans: "answers_true ends bal (node_Id (rb_Node r)) env"
    and before: "\<forall>h \<in> set (slice 1 k (Hops route)). unat (MilliSatoshi h) \<le> bal (channelId (hop_Channel h))"
    and short: "FailCode f = failTemporaryChannelFailure \<Longrightarrow> k \<noteq> length (Hops route) - 1 \<Longrightarrow>
           bal (channelId (hop_Channel (Hops route ! k))) < unat (MilliSatoshi (Hops route ! k))"
  shows "world_ok ends (bal, rb_graph (fst (learn_at_hop env r route f k ex)))"
proof -
  define r1 where "r1 = (if k = length (Hops route) - 1 then r else count_failure env r f k)"
  have t: "tick r1 = tick r" by (simp add: r1_def count_failure_def Let_def)
  define r2 where "r2 = learn_carried (e_now env (tick r1)) r1 (slice 1 k (Hops route))"
  have r2: "world_ok ends (bal, rb_graph r2)" "node_Id (rb_Node r2) = node_Id (rb_Node r)"
    using learn_carried_world [OF _ before, of ends r1 "e_now env (tick r1)"] ok
    by (simp_all add: r1_def r2_def)
  note ans2 = ans [folded r2(2)]
  show ?thesis
    using fail_temporary_world [OF r2(1), of "k = length (Hops route) - 1" "Hops route ! k"]
      fail_policy_world [OF r2(1) ans2] fail_unusable_world [OF r2(1)] fail_other_world [OF r2(1)] short
    unfolding learn_at_hop_def Let_def r1_def [symmetric] r2_def [symmetric] by simp
qed

lemma learnFromFailure_world:
  assumes "world_ok ends (bal, rb_graph r)" "failure_true bal route f"
    and "answers_true ends bal (node_Id (rb_Node r)) env"
  shows "world_ok ends (bal, rb_graph (fst (learnFromFailure env r route f ex)))"
  using assms
  by (auto simp: learnFromFailure_def Let_def split_beta failure_true_def
      intro!: learn_at_hop_world split: option.split)

text \<open>
C10
What a failed payment teaches the graph is true: when the failure is true of the real balances, and
so is what lightningd reports, the graph stays well formed and every bound in it stays at or above
the real balance, whatever the failure code and wherever on the route it happened.
\<close>
theorem failures_teach_the_truth:
  assumes "world_ok ends (bal, rb_graph r)" "failure_true bal route f"
    and "answers_true ends bal (node_Id (rb_Node r)) env"
    and "learnFromFailure env r route f ex = (r', ex', e)"
  shows "world_ok ends (bal, rb_graph r')"
  using learnFromFailure_world [OF assms(1-3), of ex] assms(4) by simp

section \<open>A sample failure\<close>

text \<open>The first payment over the sample route fails at the out-peer; later ones succeed.\<close>

definition sample_failure :: PaymentErrorData where
  "sample_failure = \<lparr>ErringIndex = 1, ErringNode = ''ann'', ErringChannel = ''2x2x2'', ErringDirection = 0,
     FailCode = failTemporaryChannelFailure\<rparr>"

definition sample_env :: env where
  "sample_env = \<lparr>e_now = (\<lambda>_. 1000), e_halt = (\<lambda>_. False), e_others = (\<lambda>_ n. n),
     e_pay = (\<lambda>t route. if t = 1 then Inl (PaymentError sample_failure)
                else Inr (NewPrettyRoute sample_graph route ''hash'')),
     e_listchannel = (\<lambda>_ _. None), e_listpeer = (\<lambda>_ _. None), e_log = (\<lambda>_. 0), e_pow = (\<lambda>_ _. 0)\<rparr>"

definition sample_rb :: Rebalance where
  "sample_rb = NewRebalance (sample_node\<lparr>node_Graph := sample_graph\<rparr>) sample_out sample_in 100000000 10000 3 4"

definition sample_after :: "Rebalance \<times> string set \<times> rb_error" where
  "sample_after = learnFromFailure sample_env sample_rb sample_route sample_failure {}"

lemma sample_rb_world: "world_ok sample_ends (\<lambda>_. 0, rb_graph sample_rb)"
  using sample_ok
  by (simp add: sample_rb_def NewRebalance_def world_ok_def bounds_true_def capacity_true_def shares_capacity_def)

lemma sample_failure_true: "failure_true (\<lambda>_. 0) sample_route sample_failure"
proof -
  have k: "index_of (ErringNode sample_failure) (map (\<lambda>h. Source (hop_Channel h)) (Hops sample_route)) = Some 1"
    by code_simp
  have "0 < MilliSatoshi (Hops sample_route ! 1)" by code_simp
  then show ?thesis unfolding failure_true_def k by (simp add: slice_def word_less_nat_alt)
qed

lemma sample_answers_true: "answers_true ends bal self sample_env"
  by (simp add: answers_true_def sample_env_def)

theorem failures_teach_the_truth_witness:
  "world_ok sample_ends (\<lambda>_. 0, rb_graph (fst sample_after))"
proof -
  obtain r' ex' e where "learnFromFailure sample_env sample_rb sample_route sample_failure {} = (r', ex', e)"
    by (rule prod_cases3)
  from failures_teach_the_truth [OF sample_rb_world sample_failure_true sample_answers_true this] this
  show ?thesis by (simp add: sample_after_def)
qed

definition sample_route2 :: Route where
  "sample_route2 = (case GetLikelyCircularRoute (\<lambda>_. 0) (\<lambda>_ _. 0) 0 (rb_graph (fst sample_after)) sample_out sample_in
     100000000 (fst (snd sample_after)) 4 1000000 0 of Inr r \<Rightarrow> r | Inl _ \<Rightarrow> NewRoute [] [] 0 [])"

lemma sample_found2:
  "GetLikelyCircularRoute (\<lambda>_. 0) (\<lambda>_ _. 0) 0 (rb_graph (fst sample_after)) sample_out sample_in
     100000000 (fst (snd sample_after)) 4 1000000 0 = Inr sample_route2"
proof -
  have "\<not> isl (GetLikelyCircularRoute (\<lambda>_. 0) (\<lambda>_ _. 0) 0 (rb_graph (fst sample_after)) sample_out sample_in
     100000000 (fst (snd sample_after)) 4 1000000 0)" by code_simp
  then show ?thesis by (auto simp: sample_route2_def split: sum.splits)
qed

theorem failed_channel_not_tried_again_witness:
  "list_all (\<lambda>h. channelId (hop_Channel h) \<noteq> ''2x2x2/0'') (middle (Hops sample_route2))"
proof -
  obtain r' ex' e where after: "learnFromFailure sample_env sample_rb sample_route sample_failure {} = (r', ex', e)"
    by (rule prod_cases3)
  then have sa: "sample_after = (r', ex', e)" by (simp add: sample_after_def)
  let ?hop = "Hops sample_route ! 1"
  have retry: "as_sideError e = None"
  proof -
    have "as_sideError (snd (snd sample_after)) = None" by code_simp
    then show ?thesis by (simp add: sa)
  qed
  have at: "find (\<lambda>h. Source (hop_Channel h) = ErringNode sample_failure) (Hops sample_route) = Some ?hop"
    by code_simp
  have ok: "graph_ok sample_ends (rb_graph r')"
    using learnFromFailure_world [OF sample_rb_world sample_failure_true sample_answers_true, of "{}"]
    by (simp add: after world_ok_def)
  have other: "ErringNode sample_failure \<noteq> node_Id (rb_Node sample_rb)" by code_simp
  have same: "channelId (hop_Channel ?hop) = ''2x2x2/0''" by code_simp
  have unchanged: "\<not> (case channel_at (rb_graph (fst sample_after)) ''2x2x2/0'' of
      None \<Rightarrow> False | Some c \<Rightarrow> policyChanged (hop_Channel ?hop) c)" by code_simp
  have src: "list_all (\<lambda>h. channelId (hop_Channel h) = ''2x2x2/0'' \<longrightarrow> Source (hop_Channel h) = ''ann'') (middle (Hops sample_route2))"
    by code_simp
  have "\<forall>h \<in> set (middle (Hops sample_route2)). channelId (hop_Channel h) = ''2x2x2/0'' \<longrightarrow> Source (hop_Channel h) \<noteq> ''ann''"
    using failed_channel_not_tried_again [OF after retry other at ok, of "\<lambda>_. 0" "\<lambda>_ _. 0" 0 sample_out sample_in
        100000000 4 1000000 0 sample_route2] sample_found2 unchanged same
    by (auto simp: sa sample_failure_def)
  with src show ?thesis by (auto simp: list_all_iff)
qed

end
