(* ===== verification/RunClaims.thy ===== *)
theory RunClaims
  imports FailureClaims
begin

text \<open>
  What a rebalance promises from its first attempt to its last: how many payments it sends, over
  which routes, for how much and at what price; and what its checks and its result say.
\<close>

section \<open>What an attempt leaves alone\<close>

text \<open>The parameters of a rebalance, and how many payments it sent.\<close>

definition settings :: "Rebalance \<Rightarrow> (Channel \<times> Channel \<times> u64 \<times> u64) \<times> u64 \<times> u64 \<times> int" where
  "settings r = ((OutChannel r, InChannel r, rb_Amount r, MaxPPM r), MinAmount r, RunMaxPPM r, payments r)"

named_theorems settings_same "operations that leave the settings alone"

lemma learn_settings [settings_same]: "settings (learn f r) = settings r"
  "settings (r\<lparr>rb_Node := n\<rparr>) = settings r" "settings (r\<lparr>nodeFailures := m\<rparr>) = settings r"
  "settings (r\<lparr>failedAt := a\<rparr>) = settings r" "settings (r\<lparr>midFailures := k\<rparr>) = settings r"
  by (simp_all add: settings_def)

lemma count_failure_settings [settings_same]: "settings (count_failure env r f k) = settings r"
  by (simp add: count_failure_def Let_def settings_same)

lemma learn_carried_settings [settings_same]: "settings (learn_carried now r hs) = settings r"
  unfolding learn_carried_def by (induction hs arbitrary: r) (simp_all add: settings_same)

lemma refreshPolicy_settings [settings_same]: "settings (fst (refreshPolicy env r c i)) = settings r"
  by (simp add: refreshPolicy_def Let_def settings_same split: sum.split)

lemma rb_refreshPeers_settings [settings_same]: "settings (fst (rb_refreshPeers env r is)) = settings r"
  by (simp add: rb_refreshPeers_def split_beta settings_same)

lemma rb_avoid_settings [settings_same]: "settings (fst (rb_avoid now r ex key)) = settings r"
  by (simp add: rb_avoid_def settings_same)

lemma fail_settings [settings_same]:
  "settings (fst (fail_temporary env r hop k inChannel f ex)) = settings r"
  "settings (fst (fail_policy env r hop inChannel f ex)) = settings r"
  "settings (fst (fail_unusable env r hop inChannel ex)) = settings r"
  "settings (fst (fail_other env r hop k inChannel f ex)) = settings r"
  by (simp_all add: fail_defs Let_def split_beta settings_same split: sum.split)

lemma learnFromFailure_settings [settings_same]:
  "settings (fst (learnFromFailure env r route f ex)) = settings r"
proof -
  have "settings (fst (learn_at_hop env r route f k ex)) = settings r" for k ex
    by (simp add: learn_at_hop_def Let_def settings_same)
  then show ?thesis
    by (simp add: learnFromFailure_def Let_def split_beta settings_same split: option.split)
qed

lemma learnFromSuccess_settings [settings_same]: "settings (learnFromSuccess env r route) = settings r"
  unfolding learnFromSuccess_def Let_def
  by (rule foldl_keeps [where P = "\<lambda>r'. settings r' = settings r"])
    (rule foldl_keeps [where P = "\<lambda>r'. settings r' = settings r"], simp_all add: settings_same)

text \<open>The fields one by one.\<close>

definition paid_more :: "Rebalance \<Rightarrow> int \<Rightarrow> (Channel \<times> Channel \<times> u64 \<times> u64) \<times> u64 \<times> u64 \<times> int" where
  "paid_more r k = ((OutChannel r, InChannel r, rb_Amount r, MaxPPM r), MinAmount r, RunMaxPPM r, payments r + k)"

section \<open>Payments are counted by the attempts\<close>

lemma no_route_simps [simp]:
  "\<not> no_route (Util ErrTemporaryFailure)" "\<not> no_route errShortOfLiquidity" "\<not> no_route (Text t)"
  "no_route (sideError s q e) = no_route e" "no_route (inOverMax e) = no_route e"
  "no_route (Wrap t e) = no_route e"
  "no_route (Util ErrWireFeeInsufficient) = False" "no_route (Util ErrOutgoingChannelDepleted) = False"
  "no_route (Util ErrNoPeerChannel) = False"
  by (auto simp: no_route_def errors_Is_def)

lemma learnFromFailure_error:
  "\<not> no_route (snd (snd (learnFromFailure env r route f ex)))"
proof -
  have "\<not> no_route (snd (snd (learn_at_hop env r route f k ex)))" for k ex
    by (simp add: learn_at_hop_def Let_def fail_defs onIn_def onOut_def split_beta split: sum.split)
  then show ?thesis
    by (simp add: learnFromFailure_def Let_def split_beta onOut_def split: option.split)
qed

lemma checkFirstHop_error: "checkFirstHop r route = Some e \<Longrightarrow> \<not> no_route e"
  by (auto simp: checkFirstHop_def onOut_def GetPeerChannelFromGraphChannel_def split: sum.splits option.splits if_splits)

text \<open>lightningd never answers a payment with one of our own errors about routes.\<close>

definition pay_answers_ok :: "env \<Rightarrow> bool" where
  "pay_answers_ok env \<longleftrightarrow> (\<forall>t route e. e_pay env t route = Inl (OtherError e) \<longrightarrow> \<not> no_route e)"

definition sends_one :: "Rebalance \<Rightarrow> Rebalance \<times> string set \<times> attempt \<Rightarrow> bool" where
  "sends_one r = (\<lambda>(r', ex, out).
     \<exists>k \<in> {0, 1}. settings r' = paid_more r k \<and> (k = 1 \<longrightarrow> (case out of Inl (_, e) \<Rightarrow> \<not> no_route e | Inr _ \<Rightarrow> True)))"

lemma settings_paid_more: "settings r = paid_more r 0" "settings (r\<lparr>payments := payments r + 1\<rparr>) = paid_more r 1"
  by (simp_all add: settings_def paid_more_def)

lemma send_route_sends_one:
  assumes "pay_answers_ok env"
  shows "sends_one r (send_route env r ex route)"
proof (cases "checkFirstHop r route")
  case (Some e)
  then show ?thesis
    by (simp add: send_route_def tryRoute_def sends_one_def settings_paid_more)
next
  case None
  show ?thesis
  proof (cases "e_pay env (tick r) route")
    case (Inr pretty)
    have "settings (learnFromSuccess env (r\<lparr>payments := payments r + 1\<rparr>) route) = paid_more r 1"
      by (simp only: learnFromSuccess_settings settings_paid_more(2))
    with Inr None show ?thesis
      by (simp add: send_route_def tryRoute_def sends_one_def Let_def)
  next
    case (Inl pe)
    show ?thesis
    proof (cases pe)
      case (PaymentError f)
      obtain r' ex' e where l: "learnFromFailure env (r\<lparr>payments := payments r + 1\<rparr>) route f ex = (r', ex', e)"
        by (rule prod_cases3)
      have "settings r' = paid_more r 1"
        using learnFromFailure_settings [of env "r\<lparr>payments := payments r + 1\<rparr>" route f ex]
        by (simp only: l fst_conv settings_paid_more(2))
      with l show ?thesis
        using learnFromFailure_error [of env "r\<lparr>payments := payments r + 1\<rparr>" route f ex] None Inl PaymentError
        by (simp add: send_route_def tryRoute_def sends_one_def Let_def)
    next
      case (OtherError e)
      then show ?thesis using None Inl assms
        by (simp add: send_route_def tryRoute_def sends_one_def Let_def settings_paid_more(2) pay_answers_ok_def)
    qed
  qed
qed

lemma begin_attempt_settings: "settings (begin_attempt env r) = settings r" "paid_more (begin_attempt env r) k = paid_more r k"
  by (simp_all add: begin_attempt_def settings_def paid_more_def)

lemma runAttempt_sends_one:
  assumes "pay_answers_ok env"
  shows "sends_one r (runAttempt env r ex route)"
proof -
  have "sends_one (begin_attempt env r) x \<Longrightarrow> sends_one r x" for x
    by (simp add: sends_one_def begin_attempt_settings split_beta)
  moreover have "sends_one r' (r', ex, out)" for r' out
    by (simp add: sends_one_def settings_paid_more)
  ultimately show ?thesis
    using send_route_sends_one [OF assms]
    by (simp add: runAttempt_def Let_def split: option.split sum.split)
qed

lemma payments_of_settings: "settings r' = paid_more r k \<Longrightarrow> payments r' = payments r + k"
  by (simp add: settings_def paid_more_def)

lemma sends_one_payments:
  assumes "sends_one r (r', ex, out)"
  shows "payments r' \<le> payments r + 1"
    "(case out of Inl (_, e) \<Rightarrow> no_route e | Inr _ \<Rightarrow> False) \<Longrightarrow> payments r' = payments r"
  using assms by (auto simp: sends_one_def dest!: payments_of_settings split: sum.splits)

lemma shrink_payments: "shrink r route ex ids = Some (r', shrunk) \<Longrightarrow> payments r' = payments r"
  by (auto simp: shrink_def Let_def split: if_splits sum.splits)

lemma run_pass_payments:
  assumes ok: "pay_answers_ok env" and pass: "run_pass env r st = (r', st', out, again)"
  shows "payments r' \<le> payments r + 1"
proof -
  obtain r1 ex1 out1 where a: "runAttempt env r (st_exclude st) (st_known st) = (r1, ex1, out1)" by (rule prod_cases3)
  note one = sends_one_payments [OF runAttempt_sends_one [OF ok, of r "st_exclude st" "st_known st", unfolded a]]
  have two: "payments (fst (retry_short env r1 st1 out1)) \<le> payments r + 1" for st1
  proof (cases "\<exists>short sent e r2 shrunk. st_short st1 = Some short \<and> out1 = Inl (sent, e) \<and> no_route e
      \<and> shrink r1 short (st_exclude st1) (st_shortIds st1) = Some (r2, shrunk)")
    case True
    then obtain short sent e r2 shrunk where t: "st_short st1 = Some short" "out1 = Inl (sent, e)" "no_route e"
      "shrink r1 short (st_exclude st1) (st_shortIds st1) = Some (r2, shrunk)" by blast
    obtain r3 ex3 out3 where b: "runAttempt env r2 (st_exclude st1) (Some shrunk) = (r3, ex3, out3)" by (rule prod_cases3)
    have "payments r1 = payments r" using one(2) t by simp
    then have "payments r3 \<le> payments r + 1"
      using sends_one_payments(1) [OF runAttempt_sends_one [OF ok, of r2 "st_exclude st1" "Some shrunk", unfolded b]]
        shrink_payments [OF t(4)] by simp
    then show ?thesis
      by (auto simp: retry_short_def t b Let_def split: sum.split option.split)
  next
    case False
    then have "fst (retry_short env r1 st1 out1) = r1"
      by (auto simp: retry_short_def split: option.split sum.split)
    then show ?thesis using one(1) by simp
  qed
  show ?thesis
    using pass one(1) two
    by (auto simp: run_pass_def a Let_def split_beta split: if_splits)
qed

lemma run_loop_payments:
  assumes ok: "pay_answers_ok env" and "run_loop env attempts r st = (r', st', res)" and "st_i st \<le> attempts + 1"
  shows "payments r' \<le> payments r + (attempts + 1 - st_i st) + (if st_known st = None then 0 else 1)"
  using assms
proof (induction env attempts r st rule: run_loop.induct)
  case (1 env attempts r st)
  show ?case
  proof (cases "st_i st > attempts")
    case True
    with "1.prems" show ?thesis by (simp add: run_loop.simps)
  next
    case False
    obtain r1 st1 out again where p: "run_pass env r st = (r1, st1, out, again)" by (rule prod_cases4)
    note one = run_pass_payments [OF "1.prems"(1) p] and same = run_pass_st [OF p]
    show ?thesis
    proof (cases again)
      case True
      with p have p': "run_pass env r st = (r1, st1, out, True)" by simp
      have "run_loop env attempts r1 st1 = (r', st', res)"
        using "1.prems"(2) False p' by (simp add: run_loop.simps [of env attempts r])
      from "1.IH"(1) [OF False refl p [symmetric] refl refl True "1.prems"(1) this] same one True "1.prems"(3)
      show ?thesis by auto
    next
      case fin: False
      show ?thesis
      proof (cases out)
        case (Inr result)
        then show ?thesis using "1.prems" False fin p one by (simp add: run_loop.simps [of env attempts r])
      next
        case (Inl se)
        obtain sent e where se: "se = (sent, e)" by (cases se)
        have p': "run_pass env r st = (r1, st1, Inl (sent, e), False)" using p fin Inl se by simp
        show ?thesis
        proof (cases "ends_run e")
          case True
          then show ?thesis using "1.prems" False p' one by (simp add: run_loop.simps [of env attempts r] Let_def)
        next
          case go: False
          have "run_loop env attempts r1 (st1\<lparr>st_i := st_i st1 + 1\<rparr>) = (r', st', res)"
            using "1.prems"(2) False p' go by (simp add: run_loop.simps [of env attempts r] Let_def)
          from "1.IH"(2) [OF False refl p [symmetric] refl refl fin Inl se [symmetric] refl go "1.prems"(1) this] same one "1.prems"(3) False
          show ?thesis by simp
        qed
      qed
    qed
  qed
qed

lemma run_start_simps [simp]:
  "payments (fst (run_start env r)) = 0" "st_i (snd (run_start env r)) = 1"
  "Attempts (fst (run_start env r)) = Attempts r"
  by (simp_all add: run_start_def startExclude_def split_beta Let_def)

lemma run_start_known: "st_known (snd (run_start env r)) \<noteq> None \<Longrightarrow> rb_Route r \<noteq> []"
  by (auto simp: run_start_def startExclude_def split_beta Let_def knownRoute_def)

text \<open>
C8
A rebalance never sends more payments than its attempts, plus one when it was given a route that
worked before, whatever fails and whatever the other goroutines do meanwhile.
\<close>
theorem payments_within_attempts:
  assumes "pay_answers_ok env"
  shows "payments (fst (Run env r)) \<le> max 0 (Attempts r) + (if rb_Route r = [] then 0 else 1)"
proof -
  obtain r1 st1 where start: "run_start env r = (r1, st1)" by (cases "run_start env r")
  obtain r2 st2 res where loop: "run_loop env (Attempts r) r1 st1 = (r2, st2, res)" by (rule prod_cases3)
  have p: "payments (fst (Run env r)) = payments r2"
    using run_start_simps(3) [of env r] by (simp add: Run_def start loop Let_def split: option.split)
  have s: "payments r1 = 0" "st_i st1 = 1" using run_start_simps [of env r] start by simp_all
  show ?thesis
  proof (cases "Attempts r < 1")
    case True
    then have "r2 = r1" using loop s by (simp add: run_loop.simps)
    then show ?thesis using p s by simp
  next
    case False
    from run_loop_payments [OF assms loop] False s
    have "payments r2 \<le> Attempts r + (if st_known st1 = None then 0 else 1)" by simp
    then show ?thesis using run_start_known [of env r] start p False by (cases "rb_Route r = []") (auto split: if_splits)
  qed
qed

lemma sample_env_ok: "pay_answers_ok sample_env"
  by (simp add: pay_answers_ok_def sample_env_def)

theorem payments_within_attempts_witness: "payments (fst (Run sample_env sample_rb)) \<le> 3"
proof -
  have "Attempts sample_rb = 3" "rb_Route sample_rb = []" by (simp_all add: sample_rb_def NewRebalance_def)
  then show ?thesis using payments_within_attempts [OF sample_env_ok, of sample_rb] by simp
qed

section \<open>Only routes within the limits are paid\<close>

lemma rate_within:
  assumes "feePPM fee msat \<le> limit"
  shows "fee \<le> MaxFeeForPPM msat limit"
proof (cases "msat = 0 \<or> limit = MaxUint64 \<or> fst (Mul64 (limit + 1) msat) \<noteq> 0")
  case True
  then show ?thesis by (auto simp: MaxFeeForPPM_def split_beta)
next
  case False
  then have limit: "unat (limit + 1) = unat limit + 1"
    by (subst unat_u64_add_exact) (simp_all add: u64_neq_Max_iff)
  have "(unat limit + 1) * unat msat < 2 ^ 64"
    using False limit by (simp add: u64_eq_iff unat_specs div_eq_0_iff)
  moreover have "fee \<noteq> MaxUint64"
  proof
    assume "fee = MaxUint64"
    with assms False have "MaxUint64 \<le> limit" using feePPM_saturated [of msat] by simp
    with False show False using u64_le_Max [of limit] by (simp add: order_antisym)
  qed
  ultimately show ?thesis using False assms by (simp add: MaxFeeForPPM_adjoint feePPM_eq)
qed

definition within_limits :: "Rebalance \<Rightarrow> Route \<Rightarrow> bool" where
  "within_limits r route \<longleftrightarrow>
     Fee route \<le> MaxFeeForPPM (Amount route) (MaxPPM r) \<and>
     (Amount route = rb_Amount r \<or>
      MinAmount r \<noteq> 0 \<and> MinAmount r \<le> Amount route \<and> Amount route < rb_Amount r)"

text \<open>A rebalance in progress: the amount may have been halved, the limits are the same.\<close>

definition in_progress :: "Rebalance \<Rightarrow> Rebalance \<Rightarrow> bool" where
  "in_progress r0 r \<longleftrightarrow> MaxPPM r = MaxPPM r0 \<and> MinAmount r = MinAmount r0 \<and>
     (rb_Amount r = rb_Amount r0 \<or> MinAmount r0 \<noteq> 0 \<and> MinAmount r0 \<le> rb_Amount r \<and> rb_Amount r < rb_Amount r0)"

lemma in_progress_limits:
  "in_progress r0 r \<Longrightarrow> Amount route = rb_Amount r \<Longrightarrow> Fee route \<le> MaxFeeForPPM (Amount route) (MaxPPM r) \<Longrightarrow>
     within_limits r0 route"
  by (auto simp: in_progress_def within_limits_def)

lemma in_progress_cong: "settings r' = settings r \<Longrightarrow> in_progress r0 r' = in_progress r0 r"
  by (simp add: settings_def in_progress_def)

lemma in_progress_payments [simp]: "in_progress r0 (r\<lparr>payments := k\<rparr>) = in_progress r0 r"
  by (simp add: in_progress_def)

lemma Amount_found:
  assumes "GetLikelyCircularRoute mlog mpow now g out inc a ex hops fee risk = Inr route"
  shows "Amount route = a"
proof -
  obtain req where req: "request_of out inc a ex hops fee req" "searchRoute mlog g req = Inr route"
    using GetLikelyCircularRoute_Inr [OF assms] .
  then show ?thesis by (auto simp: searchRoute_def request_of_def split: sum.splits)
qed

lemma Amount_over: "GetRouteOverChannels g ids a = Inr route \<Longrightarrow> Amount route = a"
  by (auto simp: GetRouteOverChannels_def Let_def split: if_splits)

lemma getRoute_found:
  assumes "getRoute env r ex = Inr route"
  shows "GetLikelyCircularRoute (e_log env) (e_pow env) (e_now env (tick r)) (rb_graph r) (OutChannel r) (InChannel r)
      (rb_Amount r) ex (MaxHops r) (MaxFeeForPPM (rb_Amount r) (MaxPPM r)) (riskPPM_of r) = Inr route"
    "route_FeePPM route \<le> MaxPPM r"
proof -
  let ?found = "GetLikelyCircularRoute (e_log env) (e_pow env) (e_now env (tick r)) (rb_graph r) (OutChannel r) (InChannel r)
      (rb_Amount r) ex (MaxHops r) (MaxFeeForPPM (rb_Amount r) (MaxPPM r)) (riskPPM_of r)"
  have "?found = Inr route \<and> route_FeePPM route \<le> MaxPPM r"
  proof (cases ?found)
    case (Inl e)
    then show ?thesis using assms by (simp add: getRoute_def Let_def split: if_splits sum.splits)
  next
    case (Inr x)
    then show ?thesis using assms by (simp add: getRoute_def Let_def not_less split: if_splits)
  qed
  then show "?found = Inr route" "route_FeePPM route \<le> MaxPPM r" by blast+
qed

lemma getRoute_limits:
  assumes "getRoute env r ex = Inr route"
  shows "Amount route = rb_Amount r" "Fee route \<le> MaxFeeForPPM (Amount route) (MaxPPM r)"
  using Amount_found [OF getRoute_found(1) [OF assms]] rate_within [OF getRoute_found(2) [OF assms, unfolded route_FeePPM_def]]
  by simp_all

lemma knownRoute_limits:
  assumes "knownRoute r ex = Some route"
  shows "Amount route = rb_Amount r" "Fee route \<le> MaxFeeForPPM (Amount route) (MaxPPM r)"
  using assms rate_within
  by (auto simp: knownRoute_def route_FeePPM_def not_less dest: Amount_over split: if_splits sum.splits)

lemma shrink_limits:
  assumes "shrink r short ex ids = Some (r', route)" "in_progress r0 r"
  shows "in_progress r0 r'" "Amount route = rb_Amount r'" "Fee route \<le> MaxFeeForPPM (Amount route) (MaxPPM r')"
proof -
  let ?a = "rb_Amount r div 2 div 1000 * 1000"
  have a: "MinAmount r \<noteq> 0" "MinAmount r \<le> ?a" "?a \<noteq> 0" "r' = r\<lparr>rb_Amount := ?a\<rparr>"
    "GetRouteOverChannels (rb_graph r) (ChannelIds short) ?a = Inr route" "Fee route \<le> MaxFeeForPPM ?a (MaxPPM r)"
    using assms(1) by (auto simp: shrink_def Let_def not_less split: if_splits sum.splits)
  have "unat ?a = unat (rb_Amount r) div 2 div 1000 * 1000"
  proof -
    have "unat (rb_Amount r) div 2 div 1000 * 1000 \<le> unat (rb_Amount r)" by linarith
    then have "unat (rb_Amount r) div 2 div 1000 * 1000 < 2 ^ 64"
      using unat_u64_lt_pow [of "rb_Amount r"] by linarith
    then show ?thesis by (simp add: unat_u64_mult unat_u64_div)
  qed
  then have "unat ?a \<noteq> 0 \<Longrightarrow> unat ?a < unat (rb_Amount r)" by linarith
  then have "?a < rb_Amount r" using a(3) by (simp add: u64_less_iff u64_eq_iff)
  then show "in_progress r0 r'" using assms(2) a(1,2,4) by (auto simp: in_progress_def)
  show "Amount route = rb_Amount r'" "Fee route \<le> MaxFeeForPPM (Amount route) (MaxPPM r')"
    using a(4,6) Amount_over [OF a(5)] by simp_all
qed

text \<open>Two environments that differ only in the answers to payments.\<close>

lemma same_search [simp]: "getRoute (env\<lparr>e_pay := p\<rparr>) r ex = getRoute env r ex"
  by (simp add: getRoute_def Let_def cong: sum.case_cong if_cong)

lemma same_refresh [simp]:
  "count_failure (env\<lparr>e_pay := p\<rparr>) r f k = count_failure env r f k"
  "refreshPolicy (env\<lparr>e_pay := p\<rparr>) r c i = refreshPolicy env r c i"
  "rb_refreshPeers (env\<lparr>e_pay := p\<rparr>) r is = rb_refreshPeers env r is"
  by (simp_all add: count_failure_def refreshPolicy_def rb_refreshPeers_def Let_def)

lemma same_fail [simp]:
  "fail_temporary (env\<lparr>e_pay := p\<rparr>) r hop k inc f ex = fail_temporary env r hop k inc f ex"
  "fail_policy (env\<lparr>e_pay := p\<rparr>) r hop inc f ex = fail_policy env r hop inc f ex"
  "fail_unusable (env\<lparr>e_pay := p\<rparr>) r hop inc ex = fail_unusable env r hop inc ex"
  "fail_other (env\<lparr>e_pay := p\<rparr>) r hop k inc f ex = fail_other env r hop k inc f ex"
  by (simp_all add: fail_defs Let_def split_beta)

lemma same_learning [simp]:
  "learn_at_hop (env\<lparr>e_pay := p\<rparr>) r route f k ex = learn_at_hop env r route f k ex"
  "learnFromFailure (env\<lparr>e_pay := p\<rparr>) r route f ex = learnFromFailure env r route f ex"
  "learnFromSuccess (env\<lparr>e_pay := p\<rparr>) r route = learnFromSuccess env r route"
  "begin_attempt (env\<lparr>e_pay := p\<rparr>) r = begin_attempt env r"
proof -
  show at: "learn_at_hop (env\<lparr>e_pay := p\<rparr>) r route f k ex = learn_at_hop env r route f k ex" for r route f k ex
    by (simp add: learn_at_hop_def Let_def)
  show "learnFromFailure (env\<lparr>e_pay := p\<rparr>) r route f ex = learnFromFailure env r route f ex"
    by (simp add: learnFromFailure_def at Let_def cong: option.case_cong if_cong)
  show "learnFromSuccess (env\<lparr>e_pay := p\<rparr>) r route = learnFromSuccess env r route"
    by (simp add: learnFromSuccess_def)
  show "begin_attempt (env\<lparr>e_pay := p\<rparr>) r = begin_attempt env r"
    by (simp add: begin_attempt_def)
qed

text \<open>Whatever happens, a rebalance in progress stays so.\<close>

lemma runAttempt_in_progress:
  assumes "in_progress r0 r"
  shows "in_progress r0 (fst (runAttempt env r ex route))"
proof -
  have paid: "in_progress r0 (fst (tryRoute env r ex route))" if "in_progress r0 r" for r ex route
    using that
    by (simp add: tryRoute_def Let_def split_beta in_progress_cong [OF learnFromFailure_settings]
        in_progress_cong [OF learnFromSuccess_settings] split: option.split sum.split pay_error.split)
  have send: "in_progress r0 (fst (send_route env r ex route))" if "in_progress r0 r" for r ex route
    using paid [OF that, of route ex] by (auto simp: send_route_def split: prod.split sum.split)
  show ?thesis using assms send in_progress_cong [OF begin_attempt_settings(1)]
    by (simp add: runAttempt_def Let_def split: option.split sum.split)
qed

lemma retry_short_in_progress:
  assumes "in_progress r0 r"
  shows "in_progress r0 (fst (retry_short env r st out))"
proof -
  have "in_progress r0 (fst (runAttempt env r' (st_exclude st) (Some shrunk)))"
    if "shrink r short (st_exclude st) (st_shortIds st) = Some (r', shrunk)" for short r' shrunk
    using runAttempt_in_progress [OF shrink_limits(1) [OF that assms]] .
  then show ?thesis using assms
    by (auto simp: retry_short_def Let_def split_beta split: option.split sum.split)
qed

lemma run_pass_in_progress:
  assumes "in_progress r0 r"
  shows "in_progress r0 (fst (run_pass env r st))"
  using runAttempt_in_progress [OF assms] retry_short_in_progress
  by (simp add: run_pass_def Let_def split_beta)

lemma run_start_in_progress: "in_progress r (fst (run_start env r))"
  by (simp add: run_start_def startExclude_def split_beta Let_def in_progress_def)

locale limited_payments =
  fixes env :: env and p :: "nat \<Rightarrow> Route \<Rightarrow> pay_error + PrettyRoute" and r0 :: Rebalance
  assumes same: "within_limits r0 route \<Longrightarrow> p t route = e_pay env t route"
begin

lemma tryRoute_same:
  "within_limits r0 route \<Longrightarrow> tryRoute (env\<lparr>e_pay := p\<rparr>) r route ex = tryRoute env r route ex"
  by (simp add: tryRoute_def same Let_def cong: option.case_cong sum.case_cong pay_error.case_cong)

lemma send_route_same:
  "within_limits r0 route \<Longrightarrow> send_route (env\<lparr>e_pay := p\<rparr>) r ex route = send_route env r ex route"
  by (simp add: send_route_def tryRoute_same)

lemma runAttempt_same:
  assumes "in_progress r0 r" "\<And>k. route = Some k \<Longrightarrow> within_limits r0 k"
  shows "runAttempt (env\<lparr>e_pay := p\<rparr>) r ex route = runAttempt env r ex route"
proof -
  let ?r = "begin_attempt env r"
  have "in_progress r0 ?r" using assms(1) in_progress_cong [OF begin_attempt_settings(1)] by simp
  then have "getRoute env ?r ex = Inr k \<Longrightarrow> within_limits r0 k" for k
    using getRoute_limits in_progress_limits by blast
  then show ?thesis using assms(2)
    by (simp add: runAttempt_def Let_def send_route_same split: option.split sum.split)
qed

lemma retry_short_same:
  assumes "in_progress r0 r"
  shows "retry_short (env\<lparr>e_pay := p\<rparr>) r st out = retry_short env r st out"
proof -
  have "runAttempt (env\<lparr>e_pay := p\<rparr>) r' (st_exclude st) (Some shrunk) = runAttempt env r' (st_exclude st) (Some shrunk)"
    if "shrink r short (st_exclude st) (st_shortIds st) = Some (r', shrunk)" for short r' shrunk
    using shrink_limits [OF that assms] in_progress_limits [of r0 r' shrunk] by (intro runAttempt_same) simp_all
  then show ?thesis
    by (auto simp: retry_short_def split: option.split sum.split)
qed

lemma run_pass_same:
  assumes "in_progress r0 r" "\<And>k. st_known st = Some k \<Longrightarrow> within_limits r0 k"
  shows "run_pass (env\<lparr>e_pay := p\<rparr>) r st = run_pass env r st"
proof -
  obtain r1 ex1 out1 where a: "runAttempt env r (st_exclude st) (st_known st) = (r1, ex1, out1)" by (rule prod_cases3)
  have "in_progress r0 r1" using runAttempt_in_progress [OF assms(1), of env "st_exclude st" "st_known st"] a by simp
  then show ?thesis
    by (simp add: run_pass_def runAttempt_same [OF assms] a Let_def retry_short_same)
qed

lemma run_loop_same:
  assumes "in_progress r0 r" "\<And>k. st_known st = Some k \<Longrightarrow> within_limits r0 k"
  shows "run_loop (env\<lparr>e_pay := p\<rparr>) attempts r st = run_loop env attempts r st"
  using assms
proof (induction env\<equiv>env attempts r st rule: run_loop.induct)
  case (1 attempts r st)
  obtain r1 st1 out again where pass: "run_pass env r st = (r1, st1, out, again)" by (rule prod_cases4)
  have keep: "in_progress r0 r1" using run_pass_in_progress [OF "1.prems"(1), of env st] pass by simp
  have known: "st_known st1 = None" using run_pass_st [OF pass] by simp
  show ?case
  proof (cases "st_i st > attempts")
    case True
    then show ?thesis by (simp add: run_loop.simps)
  next
    case False
    have again: "run_loop (env\<lparr>e_pay := p\<rparr>) attempts r1 st1 = run_loop env attempts r1 st1" if again
      using "1.hyps"(1) [OF False refl pass [symmetric] refl refl that keep] known by simp
    have more: "run_loop (env\<lparr>e_pay := p\<rparr>) attempts r1 (st1\<lparr>st_i := st_i st1 + 1\<rparr>) =
        run_loop env attempts r1 (st1\<lparr>st_i := st_i st1 + 1\<rparr>)"
      if "\<not> again" "out = Inl (sent, e)" "\<not> ends_run e" for sent e
      using "1.hyps"(2) [OF False refl pass [symmetric] refl refl that(1,2) refl refl that(3) keep] known by simp
    show ?thesis
      using again more
      by (simp add: run_loop.simps [of _ attempts r] run_pass_same [OF "1.prems"] pass Let_def split: sum.split)
  qed
qed

lemma Run_same: "Run (env\<lparr>e_pay := p\<rparr>) r0 = Run env r0"
proof -
  obtain r1 st1 where start: "run_start env r0 = (r1, st1)" by (cases "run_start env r0")
  have "run_start (env\<lparr>e_pay := p\<rparr>) r0 = run_start env r0" by (simp add: run_start_def)
  moreover have r1: "in_progress r0 r1" using run_start_in_progress [of r0 env] start by simp
  moreover have "within_limits r0 k" if "st_known st1 = Some k" for k
  proof -
    have "knownRoute r1 (st_exclude st1) = Some k"
      using that start by (auto simp: run_start_def Let_def split_beta)
    from knownRoute_limits [OF this] show ?thesis by (intro in_progress_limits [OF r1])
  qed
  ultimately show ?thesis
    by (simp add: Run_def start Let_def run_loop_same)
qed

end

text \<open>
C7
A rebalance asks lightningd to pay only over routes of its amount, or of a smaller one no smaller
than its least amount, whose fee is within its rate: what lightningd would answer for any other
route has no influence on the run, its payments, what it learns or its result.
\<close>
theorem only_pays_within_limits:
  assumes "\<And>t route. within_limits r route \<Longrightarrow> p t route = e_pay env t route"
  shows "Run (env\<lparr>e_pay := p\<rparr>) r = Run env r"
  by (rule limited_payments.Run_same) (unfold_locales, rule assms)

text \<open>A lightningd that refuses every route over the limits.\<close>

definition refusing :: "env \<Rightarrow> Rebalance \<Rightarrow> nat \<Rightarrow> Route \<Rightarrow> pay_error + PrettyRoute" where
  "refusing env r t route =
     (if within_limits r route then e_pay env t route else Inl (OtherError (Text ''over the limits'')))"

interpretation refused: limited_payments env "refusing env r" r for env r
  by unfold_locales (simp add: refusing_def)

theorem only_pays_within_limits_witness:
  "Run (sample_env\<lparr>e_pay := refusing sample_env sample_rb\<rparr>) sample_rb = Run sample_env sample_rb"
  by (rule only_pays_within_limits) (simp add: refusing_def)

end
