(* ===== verification/ParallelState.thy ===== *)
theory ParallelState
  imports RebalanceRun
begin

text \<open>
  The state of circular-pull and circular-push (\<^verbatim>\<open>AbstractRebalance\<close> of
  \<^verbatim>\<open>rebalance/parallel/parallel.go\<close>), its parameters and their defaults (\<^verbatim>\<open>params.go\<close>, \<^verbatim>\<open>pull.go\<close>,
  \<^verbatim>\<open>push.go\<close>), the fee budget (\<^verbatim>\<open>candidates.go\<close>), and what a split may pay for what it earns
  (\<^verbatim>\<open>economics.go\<close>).

  Texts are reduced to which message it is, as in \<^theory_text>\<open>Failures\<close>.  What listforwards and
  listpeerchannels answer is an environment.
\<close>

section \<open>The state\<close>

datatype kind = Pull | Push

text \<open>Why a run fired no more splits, and why a candidate left the queue.\<close>

datatype stop =
    StopStreak int int | StopTarget | StopFee | StopTime | StopHeld | StopGaveUp int u64
  | RanOut nat nat nat | ProbeMoved u64

datatype gone_why = goneFailed | goneRefused | goneSkipped util_error | notWorthIt

text \<open>\<^verbatim>\<open>e_earned\<close> is whether the rate comes from forwards (\<^verbatim>\<open>"earned"\<close>) or is our current fee.\<close>

record earning =
  e_ppm :: u64
  e_earned :: bool

record economics =
  ec_limit :: u64
  ec_earn :: earning
  ec_drain :: u64
  ec_most :: u64

record Success =
  suc_Alias :: "string option"
  suc_NodeId :: node_id
  ByPPM :: "(u64 \<times> u64) list"
  Involving :: "node_id list"

record RoundInfo =
  ri_Round :: int
  ri_MaxPPM :: u64
  Asked :: u64
  Moved :: u64
  PaidPPM :: u64
  MaxPaidPPM :: u64
  Probe :: bool
  LimitPPM :: u64

record FailingNode =
  fn_Alias :: "string option"
  fn_NodeId :: node_id
  FailedPayments :: int

record RunResult =
  RebalanceTarget :: u64
  RebalancedAmount :: u64
  run_Attempts :: u64
  FeesPaidMsat :: u64
  AvgPPM :: u64
  SplitsSucceeded :: int
  SplitsFailed :: int
  run_Successes :: "(scid \<times> Success) list"
  CheapestPPMOverMax :: u64
  FeeratioSkipped :: nat
  FeeratioHeld :: int
  Rounds :: int
  LastRound :: "stop option"
  RoundHistory :: "RoundInfo list"
  WorstNodes :: "FailingNode list"
  StoppedWhy :: "stop option"

definition NewRunResult :: "u64 \<Rightarrow> RunResult" where
  "NewRunResult target =
     \<lparr>RebalanceTarget = target div 1000, RebalancedAmount = 0, run_Attempts = 0, FeesPaidMsat = 0, AvgPPM = 0,
      SplitsSucceeded = 0, SplitsFailed = 0, run_Successes = [], CheapestPPMOverMax = 0, FeeratioSkipped = 0,
      FeeratioHeld = 0, Rounds = 0, LastRound = None, RoundHistory = [], WorstNodes = [], StoppedWhy = None\<rparr>"

text \<open>
  \<open>flights\<close> are the splits in flight: the goroutines of \<^verbatim>\<open>launch\<close> and the results that wait in
  \<^verbatim>\<open>RebalanceResultChan\<close>, each with its candidate's id, the amount it asked for and the rebalance it
  runs.  \<open>outcome\<close> is \<^verbatim>\<open>Result\<close>, nil until the run waits for results.
\<close>

record Par =
  kind :: kind
  p_Node :: Node
  Target :: Channel
  Queue :: "Channel list"
  flights :: "(channel_id \<times> u64 \<times> Rebalance) list"
  TotalAttempts :: u64
  AmountRebalanced :: u64
  InFlightAmount :: u64
  outcome :: "RunResult option"
  amount :: u64
  maxPPM :: u64
  splits :: int
  splitAmount :: u64
  minSplit :: u64
  p_attempts :: int
  p_maxHops :: int
  p_maxNodeFails :: int
  p_riskPPM :: int
  maxFailStreak :: int
  failStreak :: int
  streakStopped :: bool
  halt :: bool
  movedMsat :: u64
  p_failedAt :: "(node_id \<times> int) list"
  gone :: "(channel_id \<times> gone_why) list"
  heldByStop :: bool
  maxTime :: int
  timeStopped :: bool
  firstStop :: "stop option"
  maxFeeMsat :: u64
  feeReserved :: u64
  feeStopped :: bool
  feeRatio :: rat
  earnSince :: int
  earnings :: "scid \<rightharpoonup> earning"
  feeratioSkipped :: "channel_id list"
  splitsInFlight :: int
  routes :: "scid \<rightharpoonup> channel_id list"
  candidateSide :: Side
  launched :: "channel_id \<rightharpoonup> Channel"
  retried :: "channel_id set"
  targetCap :: int
  capSuccesses :: int
  capSetAt :: int
  probing :: bool
  probeSeq :: int
  capBackoff :: int
  fireSeq :: int
  firedAt :: "channel_id \<rightharpoonup> int"
  busyRefusals :: "channel_id \<rightharpoonup> int"
  targetRechecked :: bool
  refusedAlone :: channel_id
  targetStopped :: bool
  retryEvery :: int
  rounds :: int
  excludePeer :: node_id
  CandidatesList :: "node_id list option"
  stepPPM :: u64
  capPPM :: u64
  probeMsat :: u64
  roundGoalMsat :: u64
  stepProbe :: bool
  roundStartMoved :: u64
  roundStartFees :: u64
  roundMaxPaid :: u64
  history :: "RoundInfo list"
  roundTopLimit :: u64
  roundMost :: u64
  roundLeftOut :: bool
  maxIdleRounds :: int
  idleRounds :: int
  probeFailStreak :: int
  roundCheapest :: u64
  roundPriced :: bool
  MaxOutPPM :: u64
  DepleteUpToPercent :: rat
  DepleteUpToAmount :: u64
  MinOutPPM :: u64
  FillUpToPercent :: rat
  FillUpToAmount :: u64

abbreviation p_graph :: "Par \<Rightarrow> Graph" where
  "p_graph p \<equiv> node_Graph (p_Node p)"

abbreviation on_outcome :: "(RunResult \<Rightarrow> RunResult) \<Rightarrow> Par \<Rightarrow> Par" where
  "on_outcome f p \<equiv> p\<lparr>outcome := map_option f (outcome p)\<rparr>"

text \<open>
  What lightningd answers during a run: the forwards of a channel in a round (rate and volume;
  \<^const>\<open>None\<close> an error), and listpeerchannels for a peer after so many fired splits; and how many
  results wait in the channel then.
\<close>

record penv =
  pe_now :: "int \<Rightarrow> int"
  pe_forwards :: "int \<Rightarrow> scid \<Rightarrow> (u64 \<times> u64) option"
  pe_listpeer :: "int \<Rightarrow> node_id \<Rightarrow> (PeerChannel list \<times> int) option"
  pe_waiting :: "int \<Rightarrow> int"

section \<open>Parameters\<close>

definition par_DEFAULT_AMOUNT :: u64 where "par_DEFAULT_AMOUNT = 400000"
definition DEFAULT_SPLITS :: int where "DEFAULT_SPLITS = 4"
definition DEFAULT_SPLIT_AMOUNT :: u64 where "DEFAULT_SPLIT_AMOUNT = 100000"

definition setGenericDefaults :: "Par \<Rightarrow> Par" where
  "setGenericDefaults p =
     (let d = node_Defaults (p_Node p);
          p = (if amount p = 0 then p\<lparr>amount := par_DEFAULT_AMOUNT\<rparr> else p);
          p = (if splits p = 0 then p\<lparr>splits := DEFAULT_SPLITS\<rparr> else p);
          p = (if splitAmount p = 0 then p\<lparr>splitAmount := DEFAULT_SPLIT_AMOUNT\<rparr> else p);
          p = (if minSplit p = 0 \<or> minSplit p > splitAmount p then p\<lparr>minSplit := splitAmount p\<rparr> else p);
          p = (if maxPPM p = 0 then p\<lparr>maxPPM := DEFAULT_MAXPPM\<rparr> else p);
          p = (if p_attempts p \<le> 0 then p\<lparr>p_attempts := OrDefault (def_Attempts d) DEFAULT_ATTEMPTS\<rparr> else p);
          p = (if p_maxHops p \<le> 0 then p\<lparr>p_maxHops := OrDefault (def_MaxHops d) DEFAULT_MAXHOPS\<rparr> else p) in
      p\<lparr>AmountRebalanced := 0, InFlightAmount := 0, amount := amount p * 1000,
        splitAmount := splitAmount p * 1000, minSplit := minSplit p * 1000\<rparr>)"

text \<open>\<^const>\<open>None\<close> is the panic of \<^verbatim>\<open>make(chan ..., r.splits)\<close> for a negative size.\<close>

definition Init :: "Par \<Rightarrow> Par option" where
  "Init p =
     (let p = setGenericDefaults (p\<lparr>TotalAttempts := 0, routes := Map.empty, launched := Map.empty, retried := {}\<rparr>) in
      if splits p < 0 then None else Some p)"

text \<open>
  A division by zero panics: a split amount can be 0 here, when its conversion to msat wrapped around.
\<close>

datatype checked = Panics | Refused util_error | Accepted

definition validateGenericParameters :: "Par \<Rightarrow> checked" where
  "validateGenericParameters p =
     (if amount p < splitAmount p then Refused ErrAmountLessThanSplitAmount
      else if splitAmount p = 0 then Panics
      else if amount p mod splitAmount p \<noteq> 0 then Refused ErrAmountNotMultipleOfSplitAmount
      else Accepted)"

definition htlcsInFlight :: "PeerChannel \<Rightarrow> string \<Rightarrow> u64" where
  "htlcsInFlight ch direction =
     foldl (\<lambda>total htlc. if Direction htlc = direction then addSaturating_parallel total (htlc_AmountMsat htlc) else total)
       0 (Htlcs ch)"

definition localBalance :: "PeerChannel \<Rightarrow> u64" where
  "localBalance ch = subSaturating (ToUsMsat ch) (htlcsInFlight ch ''out'')"

definition remoteBalance :: "PeerChannel \<Rightarrow> u64" where
  "remoteBalance ch = subSaturating (subSaturating (TotalMsat ch) (ToUsMsat ch)) (htlcsInFlight ch ''in'')"

definition DEFAULT_MAX_OUT_PPM :: u64 where "DEFAULT_MAX_OUT_PPM = 50"
definition DEFAULT_DEPLETE_UP_TO_PERCENT :: rat where "DEFAULT_DEPLETE_UP_TO_PERCENT = f64 (1 / 5)"
definition DEFAULT_DEPLETE_UP_TO_AMOUNT :: u64 where "DEFAULT_DEPLETE_UP_TO_AMOUNT = 1000000"
definition DEFAULT_MIN_OUT_PPM :: u64 where "DEFAULT_MIN_OUT_PPM = 50"
definition DEFAULT_FILL_UP_TO_PERCENT :: rat where "DEFAULT_FILL_UP_TO_PERCENT = f64 (4 / 5)"
definition DEFAULT_FILL_UP_TO_AMOUNT :: u64 where "DEFAULT_FILL_UP_TO_AMOUNT = 10000000"

definition pull_setDefaults :: "Par \<Rightarrow> Par" where
  "pull_setDefaults p =
     (let p = (if DepleteUpToPercent p \<le> 0 then p\<lparr>DepleteUpToPercent := DEFAULT_DEPLETE_UP_TO_PERCENT\<rparr> else p);
          p = (if DepleteUpToAmount p = 0 then p\<lparr>DepleteUpToAmount := DEFAULT_DEPLETE_UP_TO_AMOUNT\<rparr> else p);
          p = (if MaxOutPPM p = 0 then p\<lparr>MaxOutPPM := DEFAULT_MAX_OUT_PPM\<rparr> else p) in
      p\<lparr>DepleteUpToAmount := DepleteUpToAmount p * 1000\<rparr>)"

definition push_setDefaults :: "Par \<Rightarrow> Par" where
  "push_setDefaults p =
     (let p = (if MinOutPPM p = 0 then p\<lparr>MinOutPPM := DEFAULT_MIN_OUT_PPM\<rparr> else p);
          p = (if FillUpToPercent p \<le> 0 then p\<lparr>FillUpToPercent := DEFAULT_FILL_UP_TO_PERCENT\<rparr> else p);
          p = (if FillUpToAmount p = 0 then p\<lparr>FillUpToAmount := DEFAULT_FILL_UP_TO_AMOUNT\<rparr> else p) in
      p\<lparr>FillUpToAmount := FillUpToAmount p * 1000\<rparr>)"

definition validateParameters :: "Par \<Rightarrow> checked" where
  "validateParameters p =
     (case validateGenericParameters p of
        Accepted \<Rightarrow>
          let percent = (case kind p of Pull \<Rightarrow> DepleteUpToPercent p | Push \<Rightarrow> FillUpToPercent p) in
          if percent > 1 \<or> percent < 0 then Refused ErrDepleteUpToPercentInvalid else Accepted
      | failed \<Rightarrow> failed)"

text \<open>
  Durations are in seconds, without a bound.  In the code they are 64-bit nanoseconds, which are exact up to
  9223372036 seconds, some 292 years; beyond that the product wraps (theory EdgeCases).
\<close>

definition setMaxTime :: "int \<Rightarrow> Par \<Rightarrow> Par" where
  "setMaxTime seconds p =
     (let seconds = (if seconds = 0 then def_MaxTime (node_Defaults (p_Node p)) else seconds) in
      p\<lparr>maxTime := (if seconds > 0 then seconds else 0)\<rparr>)"

definition setMaxFee :: "int \<Rightarrow> Par \<Rightarrow> Par" where
  "setMaxFee sats p =
     (let sats = (if sats = 0 then def_MaxFee (node_Defaults (p_Node p)) else sats) in
      p\<lparr>maxFeeMsat := (if sats > 0 then
           (if (word_of_int sats :: u64) > MaxUint64 div 1000 then MaxUint64 else word_of_int sats * 1000) else 0)\<rparr>)"

definition DEFAULT_SLOW_MAXTIME :: int where "DEFAULT_SLOW_MAXTIME = 21600"
definition MIN_RETRY_EVERY :: int where "MIN_RETRY_EVERY = 60"
definition DEFAULT_STEP_RETRY_EVERY :: int where "DEFAULT_STEP_RETRY_EVERY = 600"
definition DEFAULT_MAX_IDLE_ROUNDS :: int where "DEFAULT_MAX_IDLE_ROUNDS = 3"
definition DEFAULT_MAX_FAIL_STREAK :: int where "DEFAULT_MAX_FAIL_STREAK = 300"
definition DEFAULT_PROBE_FAIL_STREAK :: int where "DEFAULT_PROBE_FAIL_STREAK = 100"

definition setRetryEvery :: "int \<Rightarrow> Par \<Rightarrow> Par" where
  "setRetryEvery seconds p =
     (if seconds \<le> 0 then p\<lparr>retryEvery := 0\<rparr>
      else
        let p = p\<lparr>retryEvery := max seconds MIN_RETRY_EVERY\<rparr> in
        if maxTime p \<le> 0 then p\<lparr>maxTime := DEFAULT_SLOW_MAXTIME\<rparr> else p)"

text \<open>\<^const>\<open>None\<close>: stepppm without a capppm of at least maxppm.\<close>

definition setStepping :: "int \<Rightarrow> int \<Rightarrow> int \<Rightarrow> Par \<Rightarrow> Par option" where
  "setStepping step cap probe p =
     (let p = p\<lparr>stepPPM := 0, capPPM := 0, probeMsat := 0\<rparr> in
      if step \<le> 0 then Some p
      else if cap \<le> 0 \<or> word_of_int cap < maxPPM p then None
      else
        let p = p\<lparr>stepPPM := word_of_int step, capPPM := word_of_int cap\<rparr>;
            p = (if probe > 0 then p\<lparr>probeMsat := word_of_int probe * 1000\<rparr> else p) in
        Some (if retryEvery p \<le> 0 then setRetryEvery DEFAULT_STEP_RETRY_EVERY p else p))"

definition setMaxIdleRounds :: "int \<Rightarrow> Par \<Rightarrow> Par" where
  "setMaxIdleRounds n p =
     (let p = p\<lparr>maxIdleRounds := n, idleRounds := 0\<rparr> in
      if n < 0 then p\<lparr>maxIdleRounds := 0\<rparr>
      else if n = 0 \<and> stepPPM p > 0 then p\<lparr>maxIdleRounds := DEFAULT_MAX_IDLE_ROUNDS\<rparr> else p)"

definition setProbeFailStreak :: "int \<Rightarrow> Par \<Rightarrow> Par" where
  "setProbeFailStreak n p =
     p\<lparr>probeFailStreak := (if n < 0 then 0 else if n = 0 \<and> stepPPM p > 0 then DEFAULT_PROBE_FAIL_STREAK else n)\<rparr>"

section \<open>The fee budget\<close>

definition worstFee :: "Par \<Rightarrow> u64 \<Rightarrow> u64" where
  "worstFee p a = MaxFeeForPPM a (maxPPM p)"

definition feesPaid :: "Par \<Rightarrow> u64" where
  "feesPaid p = (case outcome p of None \<Rightarrow> 0 | Some res \<Rightarrow> FeesPaidMsat res)"

definition withinBudget :: "Par \<Rightarrow> u64 \<Rightarrow> bool" where
  "withinBudget p a =
     (maxFeeMsat p = 0 \<or>
      addSaturating_parallel (addSaturating_parallel (feesPaid p) (feeReserved p)) (worstFee p a) \<le> maxFeeMsat p)"

definition reserveFee :: "u64 \<Rightarrow> Par \<Rightarrow> Par" where
  "reserveFee a p =
     (if maxFeeMsat p > 0 then p\<lparr>feeReserved := addSaturating_parallel (feeReserved p) (worstFee p a)\<rparr> else p)"

definition releaseFee :: "u64 \<Rightarrow> Par \<Rightarrow> Par" where
  "releaseFee a p =
     (if maxFeeMsat p = 0 then p
      else p\<lparr>feeReserved := (if worstFee p a < feeReserved p then feeReserved p - worstFee p a else 0)\<rparr>)"

section \<open>What a split may pay\<close>

definition MAX_PPM_LIMIT :: u64 where "MAX_PPM_LIMIT = 1000000000"
definition EARN_MIN_VOLUME_MSAT :: u64 where "EARN_MIN_VOLUME_MSAT = 100000000"
definition DEFAULT_EARN_DAYS :: int where "DEFAULT_EARN_DAYS = 30"

text \<open>Floats here are finite: a \<open>+Inf\<close> ratio, which the code refuses, has no value.\<close>

definition setFeeRatio :: "int \<Rightarrow> rat \<Rightarrow> Par \<Rightarrow> Par" where
  "setFeeRatio now ratio p =
     (let d = node_Defaults (p_Node p);
          ratio = (if ratio = 0 then def_FeeRatio d else ratio);
          days = (if def_EarnDays d \<le> 0 then DEFAULT_EARN_DAYS else def_EarnDays d) in
      p\<lparr>feeRatio := (if ratio > 0 then ratio else 0), earnSince := now - days * 86400\<rparr>)"

definition ourFeePPM :: "Par \<Rightarrow> scid \<Rightarrow> node_id \<Rightarrow> u64 option" where
  "ourFeePPM p scid peer =
     (case GetChannel (p_graph p) (dir_id scid (node_Id (p_Node p)) peer) of
        Inl _ \<Rightarrow> None | Inr ours \<Rightarrow> Some (ComputeFeePPM ours (splitAmount p)))"

definition keepEarning :: "Par \<Rightarrow> scid \<Rightarrow> node_id \<Rightarrow> (u64 \<times> u64) option \<Rightarrow> Par \<times> earning" where
  "keepEarning p scid peer answer =
     (let current = \<lparr>e_ppm = (case ourFeePPM p scid peer of None \<Rightarrow> 0 | Some x \<Rightarrow> x), e_earned = False\<rparr>;
          e = (case answer of
                 None \<Rightarrow> current
               | Some (x, volume) \<Rightarrow> if volume \<ge> EARN_MIN_VOLUME_MSAT then \<lparr>e_ppm = x, e_earned = True\<rparr> else current) in
      (p\<lparr>earnings := (earnings p)(scid \<mapsto> e)\<rparr>, e))"

definition earns :: "penv \<Rightarrow> Par \<Rightarrow> scid \<Rightarrow> node_id \<Rightarrow> Par \<times> earning" where
  "earns pe p scid peer =
     (case earnings p scid of
        Some e \<Rightarrow> (p, e)
      | None \<Rightarrow> keepEarning p scid peer (pe_forwards pe (rounds p) scid))"

text \<open>The filled channel, to us, and the drained one, from us.\<close>

definition filled_drained :: "Par \<Rightarrow> Channel \<Rightarrow> Channel \<times> Channel" where
  "filled_drained p candidate =
     (if Source candidate \<noteq> node_Id (p_Node p) then (candidate, Target p) else (Target p, candidate))"

definition splitEconomics :: "penv \<Rightarrow> Par \<Rightarrow> Channel \<Rightarrow> Par \<times> economics" where
  "splitEconomics pe p candidate =
     (if feeRatio p \<le> 0
      then (p, \<lparr>ec_limit = maxPPM p, ec_earn = \<lparr>e_ppm = 0, e_earned = False\<rparr>, ec_drain = 0, ec_most = 0\<rparr>)
      else
        let (filled, drained) = filled_drained p candidate;
            (p, earn) = earns pe p (ShortChannelId filled) (Source filled);
            drain = (case ourFeePPM p (ShortChannelId drained) (Destination drained) of None \<Rightarrow> 0 | Some x \<Rightarrow> x);
            limit = fsub (fmul (feeRatio p) (float_of_u64 (e_ppm earn))) (float_of_u64 drain);
            most = (if limit > of_int (uint MAX_PPM_LIMIT) then MAX_PPM_LIMIT else u64_of_float limit) in
        if \<not> limit \<ge> 1 then (p, \<lparr>ec_limit = 0, ec_earn = earn, ec_drain = drain, ec_most = 0\<rparr>)
        else (p, \<lparr>ec_limit = (if most > maxPPM p then maxPPM p else most), ec_earn = earn, ec_drain = drain,
                  ec_most = most\<rparr>))"

definition notWorth :: "penv \<Rightarrow> Par \<Rightarrow> Channel \<Rightarrow> Par \<times> bool" where
  "notWorth pe p candidate =
     (let (p, e) = splitEconomics pe p candidate in
      if feeRatio p \<le> 0 then (p, False)
      else if ec_limit e = 0 then (p, True)
      else if ec_limit e < maxPPM p then
        let (inc, out) = filled_drained p candidate;
            inFee = LeastForwardFee (p_graph p) inc (Some out) (splitAmount p) in
        (p, inFee > MaxFeeForPPM (splitAmount p) (ec_limit e) \<and> inFee \<le> MaxFeeForPPM (splitAmount p) (maxPPM p))
      else (p, False))"

definition prefetchEarnings :: "penv \<Rightarrow> Par \<Rightarrow> Par" where
  "prefetchEarnings pe p =
     (if feeRatio p \<le> 0 then p
      else
        let reads = (if Destination (Target p) = node_Id (p_Node p)
                     then [(ShortChannelId (Target p), Source (Target p))]
                     else map (\<lambda>c. (ShortChannelId c, Source c)) (Queue p)) in
        foldl (\<lambda>p (scid, peer). fst (keepEarning p scid peer (pe_forwards pe (rounds p) scid))) p reads)"

text \<open>\<^verbatim>\<open>EarnedPPM\<close> of \<^verbatim>\<open>node/earned.go\<close>: what settled forwards earned; times are floats.\<close>

record Forwarding =
  fw_Status :: string
  ResolvedTime :: rat
  ReceivedTime :: rat
  fw_FeeMsat :: u64
  fw_OutMsat :: u64

definition EarnedPPM :: "Forwarding list \<Rightarrow> int \<Rightarrow> u64 \<times> u64" where
  "EarnedPPM forwards since =
     (let cut = f64 (of_int since);
          counted = filter (\<lambda>f. fw_Status f = ''settled'' \<and>
              \<not> (if ResolvedTime f = 0 then ReceivedTime f else ResolvedTime f) < cut) forwards;
          fees = sum_list (map fw_FeeMsat counted); volume = sum_list (map fw_OutMsat counted) in
      if volume = 0 then (0, 0)
      else
        let (hi, lo) = Mul64 fees 1000000 in
        if hi \<ge> volume then (MaxUint64, volume) else (fst (the (Div64 hi lo volume)), volume))"

end
