(* ===== verification/ParallelFire.thy ===== *)
theory ParallelFire
  imports ParallelState "HOL-Library.List_Lexorder" "HOL-Library.Char_ord"
begin

text \<open>
  How a run finds its candidates (\<^verbatim>\<open>rebalance/parallel/candidates.go\<close>), which of them it can use and
  what they have room for (\<^verbatim>\<open>pull.go\<close>, \<^verbatim>\<open>push.go\<close>), and how it fires splits over them
  (\<^verbatim>\<open>FireCandidates\<close>, and \<^verbatim>\<open>launch\<close> and \<^verbatim>\<open>newSplit\<close> of \<^verbatim>\<open>parallel.go\<close>).

  The methods of \<^verbatim>\<open>RebalanceMethods\<close>, which circular-pull and circular-push implement, branch on
  the kind of the run.
\<close>

definition candidateId :: "Channel \<Rightarrow> channel_id" where
  "candidateId c = dir_id (ShortChannelId c) (Source c) (Destination c)"

section \<open>Stopping\<close>

text \<open>Circular-stop holds the run back.\<close>

definition held :: "Par \<Rightarrow> bool" where
  "held p = (heldByStop p \<and> Stopped (p_Node p))"

definition noteStop :: "stop \<Rightarrow> Par \<Rightarrow> Par" where
  "noteStop why p =
     (let p = (if firstStop p = None then p\<lparr>firstStop := Some why\<rparr> else p) in
      if \<not> held p
      then on_outcome (\<lambda>res. if StoppedWhy res = None then res\<lparr>StoppedWhy := firstStop p\<rparr> else res) p
      else p)"

definition leftQueue :: "channel_id \<Rightarrow> gone_why \<Rightarrow> Par \<Rightarrow> Par" where
  "leftQueue i why p = p\<lparr>gone := AList.update i why (gone p)\<rparr>"

definition roundGoal :: "Par \<Rightarrow> u64" where
  "roundGoal p = (if roundGoalMsat p = 0 \<or> roundGoalMsat p > amount p then amount p else roundGoalMsat p)"

section \<open>Candidates\<close>

definition inPeerFeeFits :: "Channel \<Rightarrow> Par \<Rightarrow> Par \<times> bool" where
  "inPeerFeeFits inc p =
     (if LeastForwardFee (p_graph p) inc (Some (Target p)) (splitAmount p) \<le> MaxFeeForPPM (splitAmount p) (maxPPM p)
      then (p, True)
      else (p\<lparr>roundPriced := True, roundLeftOut := True\<rparr>, False))"

definition pull_IsGoodCandidate :: "int \<Rightarrow> PeerChannel \<Rightarrow> Par \<Rightarrow> bool" where
  "pull_IsGoodCandidate now ch p =
     (if State ch \<noteq> NORMAL \<or> \<not> IsPeerConnected (p_Node p) ch then False
      else
        (case GetOutgoingChannelFromScid now (p_Node p) (pc_ShortChannelId ch) of
           Inl _ \<Rightarrow> False
         | Inr outgoing \<Rightarrow> ComputeFeePPM outgoing (splitAmount p) \<le> MaxOutPPM p))"

definition push_IsGoodCandidate :: "int \<Rightarrow> PeerChannel \<Rightarrow> Par \<Rightarrow> Par \<times> bool" where
  "push_IsGoodCandidate now ch p =
     (case GetIncomingChannelFromScid now (p_Node p) (pc_ShortChannelId ch) of
        Inl _ \<Rightarrow> (p, False)
      | Inr incoming \<Rightarrow>
          let (p, fits) = inPeerFeeFits incoming p in
          if \<not> fits then (p, False)
          else
            (case GetOutgoingChannelFromScid now (p_Node p) (pc_ShortChannelId ch) of
               Inl _ \<Rightarrow> (p, False)
             | Inr outgoing \<Rightarrow> (p, ComputeFeePPM outgoing (splitAmount p) > MinOutPPM p)))"

definition IsGoodCandidate :: "int \<Rightarrow> PeerChannel \<Rightarrow> Par \<Rightarrow> Par \<times> bool" where
  "IsGoodCandidate now ch p =
     (case kind p of
        Pull \<Rightarrow> (p, pull_IsGoodCandidate now ch p)
      | Push \<Rightarrow> push_IsGoodCandidate now ch p)"

definition GetCandidateDirection :: "node_id \<Rightarrow> Par \<Rightarrow> string" where
  "GetCandidateDirection i p =
     (case kind p of
        Pull \<Rightarrow> GetDirection (node_Id (p_Node p)) i
      | Push \<Rightarrow> GetDirection i (node_Id (p_Node p)))"

definition GetCandidatesList :: "Par \<Rightarrow> Peer list" where
  "GetCandidatesList p =
     (case CandidatesList p of
        None \<Rightarrow> map snd (Peers (p_Node p))
      | Some ids \<Rightarrow> List.map_filter (map_of (Peers (p_Node p))) ids)"

definition ownFeeCost :: "Par \<Rightarrow> Channel \<Rightarrow> rat" where
  "ownFeeCost p candidate =
     (let (sign, peer) = (if Source candidate \<noteq> node_Id (p_Node p) then (-1, Source candidate)
                          else (1, Destination candidate)) in
      case GetChannel (p_graph p) (dir_id (ShortChannelId candidate) (node_Id (p_Node p)) peer) of
        Inl _ \<Rightarrow> 0
      | Inr ours \<Rightarrow> sign * float_of_u64 (ComputeFeePPM ours (splitAmount p)))"

text \<open>One channel of one peer; \<open>found\<close> is by candidate id.\<close>

definition consider_channel :: "int \<Rightarrow> Peer \<Rightarrow> Par \<times> (channel_id \<times> Channel) list \<Rightarrow> PeerChannel \<Rightarrow> Par \<times> (channel_id \<times> Channel) list" where
  "consider_channel now peer = (\<lambda>(p, found) ch.
     let (p, good) = IsGoodCandidate now ch p in
     if good then
       let candidate = GetGraphChannelFromPeerChannel now (p_Node p) ch (GetCandidateDirection (peer_Id peer) p) in
       (p, if map_of found (candidateId candidate) = None
           then found @ [(candidateId candidate, candidate)] else found)
     else (p, found))"

definition FindCandidates :: "int \<Rightarrow> node_id \<Rightarrow> Par \<Rightarrow> Par \<times> util_error option" where
  "FindCandidates now exclude p =
     (let peers = filter (\<lambda>q. peer_Id q \<noteq> exclude) (GetCandidatesList p);
          (p, found) = foldl (\<lambda>acc peer. foldl (consider_channel now peer) acc (peer_Channels peer)) (p, []) peers;
          ids = sort (map fst found);
          cost = (\<lambda>i. map_option (ownFeeCost p) (map_of found i));
          p = p\<lparr>Queue := map (\<lambda>i. the (map_of found i)) (RankCandidates now (p_Node p) ids cost)\<rparr> in
      (p, if Queue p = [] then Some ErrNoCandidates else None))"

section \<open>Room\<close>

definition wholeSplits :: "u64 \<Rightarrow> u64 \<Rightarrow> u64 \<Rightarrow> u64" where
  "wholeSplits room split each = (if split = 0 \<or> each = 0 then room else room div each * split)"

definition depleteAmount :: "Par \<Rightarrow> PeerChannel \<Rightarrow> u64" where
  "depleteAmount p ch =
     util_Min (DepleteUpToAmount p) (u64_of_float (fmul (float_of_u64 (TotalMsat ch)) (DepleteUpToPercent p)))"

definition fillAmount :: "Par \<Rightarrow> PeerChannel \<Rightarrow> u64" where
  "fillAmount p ch =
     util_Min (FillUpToAmount p) (u64_of_float (fmul (float_of_u64 (TotalMsat ch)) (FillUpToPercent p)))"

definition pull_CanUseChannel :: "Par \<Rightarrow> PeerChannel \<Rightarrow> util_error option" where
  "pull_CanUseChannel p ch =
     (let split = addSaturating_parallel (splitAmount p) (MaxFeeForPPM (splitAmount p) (maxPPM p)) in
      if localBalance ch < addSaturating_parallel (depleteAmount p ch) split \<or> SpendableMsat ch < split
      then Some ErrChannelDepleted
      else if State ch \<noteq> NORMAL then Some ErrChannelNotInNormalState
      else if \<not> IsPeerConnected (p_Node p) ch then Some ErrOutgoingPeerDisconnected
      else None)"

definition push_CanUseChannel :: "Par \<Rightarrow> PeerChannel \<Rightarrow> util_error option" where
  "push_CanUseChannel p ch =
     (if remoteBalance ch < addSaturating_parallel (fillAmount p ch) (splitAmount p) \<or> ReceivableMsat ch < splitAmount p
      then Some ErrChannelFilled
      else if State ch \<noteq> NORMAL then Some ErrChannelNotInNormalState
      else if \<not> IsPeerConnected (p_Node p) ch then Some ErrIncomingPeerDisconnected
      else None)"

definition CanUseChannel :: "Par \<Rightarrow> PeerChannel \<Rightarrow> util_error option" where
  "CanUseChannel p ch = (case kind p of Pull \<Rightarrow> pull_CanUseChannel p ch | Push \<Rightarrow> push_CanUseChannel p ch)"

definition pull_room :: "Par \<Rightarrow> PeerChannel \<Rightarrow> u64" where
  "pull_room p ch =
     wholeSplits (subSaturating (localBalance ch) (depleteAmount p ch)) (splitAmount p)
       (addSaturating_parallel (splitAmount p) (MaxFeeForPPM (splitAmount p) (maxPPM p)))"

definition push_room :: "Par \<Rightarrow> PeerChannel \<Rightarrow> u64" where
  "push_room p ch =
     wholeSplits (subSaturating (remoteBalance ch) (fillAmount p ch)) (splitAmount p) (splitAmount p)"

section \<open>The next candidate\<close>

text \<open>The queue is the argument: nothing in the loop puts a candidate back.\<close>

fun next_candidate :: "penv \<Rightarrow> Channel list \<Rightarrow> Par \<Rightarrow> Par \<times> Channel option" where
  "next_candidate pe [] p = (p\<lparr>Queue := []\<rparr>, None)"
| "next_candidate pe (c # rest) p =
     (let p = p\<lparr>Queue := rest\<rparr> in
      case GetPeerChannelFromGraphChannel (p_Node p) c of
        Inl e \<Rightarrow> next_candidate pe rest (leftQueue (candidateId c) (goneSkipped e) p)
      | Inr ch \<Rightarrow>
          (case CanUseChannel p ch of
             Some e \<Rightarrow> next_candidate pe rest (leftQueue (candidateId c) (goneSkipped e) p)
           | None \<Rightarrow>
               let (p, skip) = notWorth pe p c in
               if skip then
                 let p = leftQueue (candidateId c) notWorthIt p in
                 next_candidate pe rest (p\<lparr>feeratioSkipped := List.insert (candidateId c) (feeratioSkipped p)\<rparr>)
               else (p, Some c)))"

definition GetNextCandidate :: "penv \<Rightarrow> Par \<Rightarrow> Par \<times> Channel option" where
  "GetNextCandidate pe p = next_candidate pe (Queue p) p"

section \<open>Firing\<close>

definition isProbe :: "channel_id \<Rightarrow> Par \<Rightarrow> bool" where
  "isProbe i p = (probing p \<and> probeSeq p \<noteq> 0 \<and> (case firedAt p i of None \<Rightarrow> 0 | Some k \<Rightarrow> k) = probeSeq p)"

definition noteFired :: "penv \<Rightarrow> Channel \<Rightarrow> Par \<Rightarrow> Par" where
  "noteFired pe candidate p =
     (let p = p\<lparr>fireSeq := fireSeq p + 1\<rparr>;
          p = p\<lparr>firedAt := (firedAt p)(candidateId candidate \<mapsto> fireSeq p)\<rparr>;
          atTarget = splitsInFlight p - pe_waiting pe (fireSeq p) in
      if probing p \<and> probeSeq p = 0 \<and> atTarget + 1 \<ge> targetCap p then p\<lparr>probeSeq := fireSeq p\<rparr> else p)"

definition newSplit :: "penv \<Rightarrow> Channel \<Rightarrow> Channel \<Rightarrow> Channel \<Rightarrow> u64 \<Rightarrow> Par \<Rightarrow> Par \<times> Rebalance" where
  "newSplit pe out inc candidate a p =
     (let (p, e) = splitEconomics pe p candidate;
          limit = ec_limit e;
          p = (if limit > roundTopLimit p then p\<lparr>roundTopLimit := limit\<rparr> else p);
          p = (if ec_most e > roundMost p then p\<lparr>roundMost := ec_most e\<rparr> else p);
          tries = (if stepProbe p \<and> probeFailStreak p > 0 \<and> probeFailStreak p < p_attempts p
                   then probeFailStreak p else p_attempts p);
          r = NewRebalance (p_Node p) out inc a limit tries (p_maxHops p);
          r = (if feeRatio p > 0 \<and> limit < maxPPM p then r\<lparr>RunMaxPPM := maxPPM p\<rparr> else r) in
      (p, r\<lparr>MaxNodeFails := p_maxNodeFails p, RiskPPM := p_riskPPM p,
            MinAmount := (if minSplit p > a then a else minSplit p),
            rb_Route := (case routes p (ShortChannelId candidate) of None \<Rightarrow> [] | Some ids \<Rightarrow> ids)\<rparr>))"

definition fresh_channel :: "Par \<Rightarrow> Channel \<Rightarrow> Channel" where
  "fresh_channel p c = (case GetChannel (p_graph p) (candidateId c) of Inr fresh \<Rightarrow> fresh | Inl _ \<Rightarrow> c)"

text \<open>
  The candidate is the out channel of a circular-pull (\<^verbatim>\<open>candidate == out\<close>).  The goroutine is noted in
  \<open>flights\<close>; the split's result comes in a later step.
\<close>

definition launch :: "penv \<Rightarrow> Channel \<Rightarrow> Channel \<Rightarrow> Channel \<Rightarrow> u64 \<Rightarrow> Par \<Rightarrow> Par" where
  "launch pe out inc candidate a p =
     (let p = p\<lparr>candidateSide := (case kind p of Pull \<Rightarrow> SideOut | Push \<Rightarrow> SideIn)\<rparr>;
          p = p\<lparr>launched := (launched p)(candidateId candidate \<mapsto> candidate)\<rparr>;
          (p, r) = newSplit pe (fresh_channel p out) (fresh_channel p inc) candidate a p in
      p\<lparr>flights := flights p @ [(candidateId candidate, a, r)]\<rparr>)"

definition Fire :: "penv \<Rightarrow> Channel \<Rightarrow> u64 \<Rightarrow> Par \<Rightarrow> Par" where
  "Fire pe candidate a p =
     (case kind p of
        Pull \<Rightarrow> launch pe candidate (Target p) candidate a p
      | Push \<Rightarrow> launch pe (Target p) candidate candidate a p)"

definition may_fire :: "Par \<Rightarrow> bool" where
  "may_fire p \<longleftrightarrow>
     AmountRebalanced p + InFlightAmount p < roundGoal p \<and> splitsInFlight p < splits p \<and>
     \<not> targetStopped p \<and> \<not> streakStopped p \<and> \<not> timeStopped p \<and> \<not> feeStopped p \<and>
     (targetCap p = 0 \<or> splitsInFlight p < targetCap p)"

text \<open>The body of the loop of \<^verbatim>\<open>FireCandidates\<close>; the boolean says whether it fired, \<^const>\<open>False\<close> is \<^verbatim>\<open>break\<close>.\<close>

definition split_size :: "Par \<Rightarrow> u64" where
  "split_size p =
     (let a = roundGoal p - AmountRebalanced p - InFlightAmount p in
      if a > splitAmount p then splitAmount p else a)"

definition fire_once :: "penv \<Rightarrow> Par \<Rightarrow> Par \<times> bool" where
  "fire_once pe p =
     (if Stopped (p_Node p) then (p\<lparr>heldByStop := True\<rparr>, False)
      else
        let a = split_size p in
        if \<not> withinBudget p a then
          (if splitsInFlight p = 0 then (noteStop StopFee (p\<lparr>feeStopped := True\<rparr>), False) else (p, False))
        else
          (case GetNextCandidate pe p of
             (p, None) \<Rightarrow> (p, False)
           | (p, Some candidate) \<Rightarrow>
               let p = noteFired pe candidate p;
                   p = p\<lparr>heldByStop := False\<rparr>;
                   p = reserveFee a p;
                   p = Fire pe candidate a p in
               (p\<lparr>InFlightAmount := InFlightAmount p + a, splitsInFlight := splitsInFlight p + 1\<rparr>, True)))"

section \<open>What firing leaves alone\<close>

text \<open>The parameters of a run, and its account: what moved, what is in flight, what was paid.\<close>

definition parameters :: "Par \<Rightarrow> (kind \<times> u64 \<times> int \<times> u64 \<times> u64) \<times> u64 \<times> (int \<times> u64 \<times> u64) \<times> (u64 \<times> u64 \<times> int \<times> int)" where
  "parameters p = ((kind p, amount p, splits p, splitAmount p, maxFeeMsat p), maxPPM p,
     (retryEvery p, stepPPM p, capPPM p), (roundGoalMsat p, roundStartMoved p, maxIdleRounds p, idleRounds p))"

definition account :: "Par \<Rightarrow> (u64 \<times> u64 \<times> int) \<times> (u64 \<times> u64) \<times> (channel_id \<times> u64 \<times> Rebalance) list" where
  "account p = ((AmountRebalanced p, InFlightAmount p, splitsInFlight p), (feeReserved p, feesPaid p), flights p)"

named_theorems frame "operations that leave the parameters or the account alone"

lemma field_frame [frame, simp]:
  "parameters (p\<lparr>Queue := q\<rparr>) = parameters p" "account (p\<lparr>Queue := q\<rparr>) = account p"
  "parameters (p\<lparr>gone := g\<rparr>) = parameters p" "account (p\<lparr>gone := g\<rparr>) = account p"
  "parameters (p\<lparr>feeratioSkipped := ss\<rparr>) = parameters p" "account (p\<lparr>feeratioSkipped := ss\<rparr>) = account p"
  "parameters (p\<lparr>earnings := es\<rparr>) = parameters p" "account (p\<lparr>earnings := es\<rparr>) = account p"
  "parameters (p\<lparr>heldByStop := b\<rparr>) = parameters p" "account (p\<lparr>heldByStop := b\<rparr>) = account p"
  "parameters (p\<lparr>feeStopped := b\<rparr>) = parameters p" "account (p\<lparr>feeStopped := b\<rparr>) = account p"
  "parameters (p\<lparr>roundTopLimit := w\<rparr>) = parameters p" "account (p\<lparr>roundTopLimit := w\<rparr>) = account p"
  "parameters (p\<lparr>roundMost := w\<rparr>) = parameters p" "account (p\<lparr>roundMost := w\<rparr>) = account p"
  "parameters (p\<lparr>candidateSide := sd\<rparr>) = parameters p" "account (p\<lparr>candidateSide := sd\<rparr>) = account p"
  "parameters (p\<lparr>launched := ls\<rparr>) = parameters p" "account (p\<lparr>launched := ls\<rparr>) = account p"
  "parameters (p\<lparr>firstStop := fs\<rparr>) = parameters p" "account (p\<lparr>firstStop := fs\<rparr>) = account p"
  "parameters (p\<lparr>p_Node := n\<rparr>) = parameters p" "account (p\<lparr>p_Node := n\<rparr>) = account p"
  "parameters (p\<lparr>roundPriced := b\<rparr>) = parameters p" "account (p\<lparr>roundPriced := b\<rparr>) = account p"
  "parameters (p\<lparr>roundLeftOut := b\<rparr>) = parameters p" "account (p\<lparr>roundLeftOut := b\<rparr>) = account p"
  by (simp_all add: parameters_def account_def feesPaid_def)

lemma leftQueue_frame [frame, simp]:
  "parameters (leftQueue i why p) = parameters p" "account (leftQueue i why p) = account p"
  by (simp_all add: leftQueue_def)

lemma noteStop_frame [frame, simp]:
  "parameters (noteStop why p) = parameters p" "account (noteStop why p) = account p"
  by (auto simp: noteStop_def Let_def parameters_def account_def feesPaid_def split: option.split)

lemma keepEarning_frame [frame, simp]:
  "parameters (fst (keepEarning p scid peer a)) = parameters p" "account (fst (keepEarning p scid peer a)) = account p"
  by (simp_all add: keepEarning_def Let_def)

lemma splitEconomics_frame [frame, simp]:
  "parameters (fst (splitEconomics pe p c)) = parameters p" "account (fst (splitEconomics pe p c)) = account p"
  by (simp_all add: splitEconomics_def earns_def Let_def split_beta split: option.split)

lemma notWorth_frame [frame, simp]:
  "parameters (fst (notWorth pe p c)) = parameters p" "account (fst (notWorth pe p c)) = account p"
  by (simp_all add: notWorth_def Let_def split_beta)

lemma next_candidate_frame [frame, simp]:
  "parameters (fst (next_candidate pe cs p)) = parameters p \<and> account (fst (next_candidate pe cs p)) = account p"
  by (induction cs arbitrary: p) (simp_all add: Let_def split_beta split: sum.split option.split)

lemma GetNextCandidate_frame [frame, simp]:
  "parameters (fst (GetNextCandidate pe p)) = parameters p" "account (fst (GetNextCandidate pe p)) = account p"
  by (simp_all add: GetNextCandidate_def next_candidate_frame)

lemma noteFired_frame [frame, simp]:
  "parameters (noteFired pe c p) = parameters p" "account (noteFired pe c p) = account p"
  by (simp_all add: noteFired_def Let_def parameters_def account_def feesPaid_def)

lemma newSplit_frame [frame, simp]:
  "parameters (fst (newSplit pe out inc c a p)) = parameters p" "account (fst (newSplit pe out inc c a p)) = account p"
  by (simp_all add: newSplit_def Let_def split_beta)

text \<open>A split asks for its amount, at a rate within that of the run.\<close>

definition split_of :: "u64 \<Rightarrow> u64 \<Rightarrow> Rebalance \<Rightarrow> bool" where
  "split_of a limit r \<longleftrightarrow> rb_Amount r = a \<and> MaxPPM r \<le> limit"

lemma splitEconomics_limit: "ec_limit (snd (splitEconomics pe p c)) \<le> maxPPM p"
proof -
  have "maxPPM (fst (earns pe p scid peer)) = maxPPM p" for scid peer
    by (simp add: earns_def keepEarning_def Let_def split: option.split)
  then show ?thesis by (auto simp: splitEconomics_def Let_def split_beta not_less)
qed

lemma newSplit_split_of: "split_of a (maxPPM p) (snd (newSplit pe out inc c a p))"
  using splitEconomics_limit [of pe p c]
  by (simp add: newSplit_def Let_def split_beta split_of_def NewRebalance_def)

text \<open>A fired split is noted in the account, and nowhere else.\<close>

definition fired_account where
  "fired_account i a r acc =
     (case acc of ((moved, inflight, n), fees, fs) \<Rightarrow> ((moved, inflight, n), fees, fs @ [(i, a, r)]))"

lemma Fire_frame [frame]:
  "parameters (Fire pe c a p) = parameters p"
  "\<exists>r. split_of a (maxPPM p) r \<and> account (Fire pe c a p) = fired_account (candidateId c) a r (account p)"
proof -
  have l: "parameters (launch pe out inc c a p) = parameters p"
    "\<exists>r. split_of a (maxPPM p) r \<and> account (launch pe out inc c a p) = fired_account (candidateId c) a r (account p)" for out inc
  proof -
    let ?q = "p\<lparr>candidateSide := (case kind p of Pull \<Rightarrow> SideOut | Push \<Rightarrow> SideIn),
        launched := (launched p)(candidateId c \<mapsto> c)\<rparr>"
    obtain q r where n: "newSplit pe (fresh_channel ?q out) (fresh_channel ?q inc) c a ?q = (q, r)" by fastforce
    have q: "parameters q = parameters p" "account q = account p"
      using newSplit_frame [of pe "fresh_channel ?q out" "fresh_channel ?q inc" c a ?q] n by simp_all
    have e: "launch pe out inc c a p = q\<lparr>flights := flights q @ [(candidateId c, a, r)]\<rparr>"
      using n by (simp add: launch_def Let_def)
    show "parameters (launch pe out inc c a p) = parameters p"
      using q(1) by (simp add: e parameters_def)
    have "split_of a (maxPPM p) r" using newSplit_split_of [of a ?q pe "fresh_channel ?q out" "fresh_channel ?q inc" c] n by simp
    then show "\<exists>r. split_of a (maxPPM p) r \<and> account (launch pe out inc c a p) = fired_account (candidateId c) a r (account p)"
      using q(2) by (auto simp: e account_def fired_account_def feesPaid_def)
  qed
  show "parameters (Fire pe c a p) = parameters p"
    "\<exists>r. split_of a (maxPPM p) r \<and> account (Fire pe c a p) = fired_account (candidateId c) a r (account p)"
    using l by (simp_all add: Fire_def split: kind.split)
qed

text \<open>What a split that was fired did to the account.\<close>

lemma fire_once_account:
  assumes "fire_once pe p = (p', fired)"
  shows "parameters p' = parameters p" "\<not> fired \<Longrightarrow> account p' = account p"
    "fired \<Longrightarrow> withinBudget p (split_size p) \<and>
       (\<exists>i r. split_of (split_size p) (maxPPM p) r \<and> account p' = ((AmountRebalanced p, InFlightAmount p + split_size p, splitsInFlight p + 1),
         (if maxFeeMsat p > 0 then addSaturating_parallel (feeReserved p) (worstFee p (split_size p)) else feeReserved p, feesPaid p),
         flights p @ [(i, split_size p, r)]))"
proof -
  let ?a = "split_size p"
  obtain p1 c where n: "GetNextCandidate pe p = (p1, c)" by fastforce
  have p1: "parameters p1 = parameters p" "account p1 = account p"
    using GetNextCandidate_frame [of pe p] n by simp_all
  have "parameters p' = parameters p \<and> (\<not> fired \<longrightarrow> account p' = account p) \<and> (fired \<longrightarrow> withinBudget p ?a \<and>
       (\<exists>i r. split_of ?a (maxPPM p) r \<and> account p' = ((AmountRebalanced p, InFlightAmount p + ?a, splitsInFlight p + 1),
         (if maxFeeMsat p > 0 then addSaturating_parallel (feeReserved p) (worstFee p ?a) else feeReserved p, feesPaid p),
         flights p @ [(i, ?a, r)])))"
  proof (cases "Stopped (p_Node p) \<or> \<not> withinBudget p ?a \<or> c = None")
    case True
    then show ?thesis using assms p1 n
      by (auto simp: fire_once_def Let_def split: if_splits option.splits)
  next
    case False
    then obtain cand where c: "c = Some cand" by auto
    let ?q = "(noteFired pe cand p1)\<lparr>heldByStop := False\<rparr>"
    have q: "parameters ?q = parameters p" "account ?q = account p" using p1 by simp_all
    have p': "fired" "p' = (Fire pe cand ?a (reserveFee ?a ?q))\<lparr>InFlightAmount := InFlightAmount (Fire pe cand ?a (reserveFee ?a ?q)) + ?a,
        splitsInFlight := splitsInFlight (Fire pe cand ?a (reserveFee ?a ?q)) + 1\<rparr>"
      using assms False n c by (auto simp: fire_once_def Let_def)
    obtain r where r: "split_of ?a (maxPPM (reserveFee ?a ?q)) r" and f: "account (Fire pe cand ?a (reserveFee ?a ?q)) = fired_account (candidateId cand) ?a r (account (reserveFee ?a ?q))"
      using Fire_frame(2) by blast
    have same: "maxFeeMsat ?q = maxFeeMsat p" "worstFee ?q ?a = worstFee p ?a" "feeReserved ?q = feeReserved p"
      "feesPaid ?q = feesPaid p" "AmountRebalanced ?q = AmountRebalanced p" "InFlightAmount ?q = InFlightAmount p"
      "splitsInFlight ?q = splitsInFlight p" "flights ?q = flights p"
      using q unfolding parameters_def account_def worstFee_def by simp_all
    have "split_of ?a (maxPPM p) r" using r q(1) by (simp add: reserveFee_def parameters_def split: if_splits)
    moreover have "parameters p' = parameters p"
      using Fire_frame(1) [of pe cand ?a "reserveFee ?a ?q"] q(1)
      by (simp add: p'(2) parameters_def reserveFee_def split: if_splits)
    moreover have "account p' = ((AmountRebalanced p, InFlightAmount p + ?a, splitsInFlight p + 1),
        (if maxFeeMsat p > 0 then addSaturating_parallel (feeReserved p) (worstFee p ?a) else feeReserved p, feesPaid p),
        flights p @ [(candidateId cand, ?a, r)])"
      using f same unfolding account_def fired_account_def p'(2)
      by (auto simp: reserveFee_def feesPaid_def split: if_splits)
    ultimately show ?thesis using False p'(1) by blast
  qed
  then show "parameters p' = parameters p" "\<not> fired \<Longrightarrow> account p' = account p"
    "fired \<Longrightarrow> withinBudget p ?a \<and>
       (\<exists>i r. split_of ?a (maxPPM p) r \<and> account p' = ((AmountRebalanced p, InFlightAmount p + ?a, splitsInFlight p + 1),
         (if maxFeeMsat p > 0 then addSaturating_parallel (feeReserved p) (worstFee p ?a) else feeReserved p, feesPaid p),
         flights p @ [(i, ?a, r)]))" by blast+
qed

text \<open>The loop ends: each split fired takes one of the free slots.\<close>

function FireCandidates :: "penv \<Rightarrow> Par \<Rightarrow> Par" where
  "FireCandidates pe p =
     (if may_fire p then
        let (p, fired) = fire_once pe p in
        if fired then FireCandidates pe p else p
      else p)"
  by pat_completeness auto
termination
proof (relation "measure (\<lambda>(pe, p). nat (splits p - splitsInFlight p))", simp)
  fix pe p x p' fired
  assume may: "may_fire p" and step: "x = fire_once pe p" "(p', fired) = x" and fired: fired
  then have once: "fire_once pe p = (p', fired)" by simp
  have "splits p' = splits p" using fire_once_account(1) [OF once] by (simp add: parameters_def)
  moreover have "splitsInFlight p' = splitsInFlight p + 1"
    using fire_once_account(3) [OF once fired] by (auto simp: account_def)
  ultimately show "((pe, p'), pe, p) \<in> measure (\<lambda>(pe, p). nat (splits p - splitsInFlight p))"
    using may by (simp add: may_fire_def)
qed

declare FireCandidates.simps [simp del]

end
