(* ===== verification/ParallelResult.thy ===== *)
theory ParallelResult
  imports ParallelFire
begin

text \<open>
  What a run does with the result of a split (\<^verbatim>\<open>rebalance/parallel/result.go\<close>, with \<^verbatim>\<open>EnqueueCandidate\<close>
  and \<^verbatim>\<open>AddSuccess\<close> of \<^verbatim>\<open>pull.go\<close> and \<^verbatim>\<open>push.go\<close>): the totals it keeps, the fail streak, how the
  candidate and the target did, and the amounts; then the end of the run.

  \<^verbatim>\<open>LastError\<close>, the progress lines and the hint about the fee ratio are texts and not modelled.
\<close>

section \<open>Totals\<close>

definition success_entry :: "Par \<Rightarrow> node_id \<Rightarrow> Success" where
  "success_entry p nodeId =
     \<lparr>suc_Alias = Aliases (p_graph p) nodeId, suc_NodeId = nodeId, ByPPM = [], Involving = []\<rparr>"

definition AddSuccessGeneric :: "scid \<Rightarrow> node_id \<Rightarrow> u64 \<Rightarrow> u64 \<Rightarrow> Par \<Rightarrow> Par" where
  "AddSuccessGeneric scid nodeId paid a p =
     on_outcome (\<lambda>res.
       let success = (case map_of (run_Successes res) scid of Some s \<Rightarrow> s | None \<Rightarrow> success_entry p nodeId);
           before = (case map_of (ByPPM success) paid of Some x \<Rightarrow> x | None \<Rightarrow> 0) in
       res\<lparr>RebalancedAmount := RebalancedAmount res + a,
           run_Successes := AList.update scid (success\<lparr>ByPPM := AList.update paid (before + a) (ByPPM success)\<rparr>)
             (run_Successes res)\<rparr>) p"

definition involve :: "Par \<Rightarrow> node_id \<Rightarrow> Success \<Rightarrow> PrettyRouteHop \<Rightarrow> Success" where
  "involve p peer s hop =
     (if ph_Id hop = '''' \<or> ph_Id hop = node_Id (p_Node p) \<or> ph_Id hop = peer \<or> ph_Id hop \<in> set (Involving s)
      then s else s\<lparr>Involving := Involving s @ [ph_Id hop]\<rparr>)"

definition addInvolving :: "scid \<Rightarrow> node_id \<Rightarrow> PrettyRoute option \<Rightarrow> Par \<Rightarrow> Par" where
  "addInvolving scid peer route p =
     on_outcome (\<lambda>res.
       case (map_of (run_Successes res) scid, route) of
         (Some success, Some route) \<Rightarrow>
           res\<lparr>run_Successes := AList.update scid (foldl (involve p peer) success (pr_Hops route)) (run_Successes res)\<rparr>
       | _ \<Rightarrow> res) p"

text \<open>The channel that a success drained (circular-pull) or filled (circular-push).\<close>

definition moved_hop :: "Par \<Rightarrow> PrettyRoute \<Rightarrow> PrettyRouteHop" where
  "moved_hop p route = (case kind p of Pull \<Rightarrow> hd (pr_Hops route) | Push \<Rightarrow> last (pr_Hops route))"

definition AddSuccess :: "Result \<Rightarrow> Par \<Rightarrow> Par" where
  "AddSuccess res p =
     (let scid = (case res_Route res of
                    Some route \<Rightarrow> if pr_Hops route \<noteq> [] then ph_ShortChannelId (moved_hop p route) else ''''
                  | None \<Rightarrow> '''');
          peer = (case kind p of Pull \<Rightarrow> Out res | Push \<Rightarrow> In res) in
      addInvolving scid peer (res_Route res) (AddSuccessGeneric scid peer (res_PPM res) (res_Amount res) p))"

definition EnqueueCandidate :: "int \<Rightarrow> Result \<Rightarrow> Par \<Rightarrow> Par" where
  "EnqueueCandidate now res p =
     (let scid = ph_ShortChannelId (moved_hop p (the (res_Route res)));
          candidate = (case kind p of
              Pull \<Rightarrow> GetOutgoingChannelFromScid now (p_Node p) scid
            | Push \<Rightarrow> GetIncomingChannelFromScid now (p_Node p) scid) in
      case candidate of
        Inl e \<Rightarrow> leftQueue (Candidate res) (goneSkipped e) p
      | Inr c \<Rightarrow> p\<lparr>routes := (routes p)(scid \<mapsto> res_Channels res), Queue := c # Queue p\<rparr>)"

definition countFailedNodes :: "Result \<Rightarrow> Par \<Rightarrow> Par" where
  "countFailedNodes res p =
     foldl (\<lambda>p (i, n).
        p\<lparr>p_failedAt := AList.update i
            ((case map_of (p_failedAt p) i of None \<Rightarrow> 0 | Some m \<Rightarrow> m) + n) (p_failedAt p)\<rparr>) p (FailedNodes res)"

definition WORST_NODES :: nat where "WORST_NODES = 5"

definition worstNodes :: "Par \<Rightarrow> FailingNode list" where
  "worstNodes p =
     map (\<lambda>(i, n). \<lparr>fn_Alias = Aliases (p_graph p) i, fn_NodeId = i, FailedPayments = n\<rparr>)
       (take WORST_NODES (sort_key (\<lambda>(i, n). (- n, i)) (p_failedAt p)))"

section \<open>The fail streak\<close>

text \<open>The limit and whether it is \<^verbatim>\<open>probefailstreak\<close>; below 0 there is none.\<close>

definition streak_limit :: "Par \<Rightarrow> int" where
  "streak_limit p =
     (let limit = maxFailStreak p;
          limit = (if limit = 0 then def_MaxFailStreak (node_Defaults (p_Node p)) else limit);
          limit = (if limit = 0 then DEFAULT_MAX_FAIL_STREAK else limit) in
      if stepProbe p \<and> probeFailStreak p > 0 \<and> (limit < 0 \<or> probeFailStreak p < limit)
      then probeFailStreak p else limit)"

definition countFailStreak :: "Result \<Rightarrow> Par \<Rightarrow> Par" where
  "countFailStreak res p =
     (if Status res = ''success'' then p\<lparr>failStreak := 0\<rparr>
      else
        let p = p\<lparr>failStreak := failStreak p + sint (res_Attempts res)\<rparr>;
            limit = streak_limit p in
        if limit < 0 \<or> failStreak p < limit \<or> streakStopped p then p
        else noteStop (StopStreak (failStreak p) limit) (p\<lparr>streakStopped := True, halt := True\<rparr>))"

section \<open>What the target takes\<close>

definition maxBusyRefusals :: int where "maxBusyRefusals = 3"
definition maxCapBackoff :: int where "maxCapBackoff = 64"

definition cap_backoff :: "Par \<Rightarrow> int" where
  "cap_backoff p = (if capBackoff p < 1 then 1 else capBackoff p)"

definition setTargetCap :: "int \<Rightarrow> Par \<Rightarrow> Par" where
  "setTargetCap cap p = p\<lparr>targetCap := cap, capSetAt := fireSeq p, capSuccesses := 0\<rparr>"

definition requeue :: "channel_id \<Rightarrow> bool \<Rightarrow> Par \<Rightarrow> Par" where
  "requeue i front p =
     (case launched p i of
        None \<Rightarrow> p
      | Some c \<Rightarrow> p\<lparr>Queue := (if front then c # Queue p else Queue p @ [c])\<rparr>)"

definition targetSucceeded :: "channel_id \<Rightarrow> Par \<Rightarrow> Par" where
  "targetSucceeded i p =
     (if targetCap p = 0 then p
      else
        let p = p\<lparr>capSuccesses := capSuccesses p + 1\<rparr>;
            p = (if isProbe i p
                 then p\<lparr>probing := False, probeSeq := 0,
                        capBackoff := (if capBackoff p > 1 then capBackoff p div 2 else capBackoff p)\<rparr> else p) in
        if \<not> probing p \<and> targetCap p < splits p \<and> capSuccesses p \<ge> targetCap p * cap_backoff p
        then (setTargetCap (targetCap p + 1) p)\<lparr>probing := True, probeSeq := 0\<rparr>
        else p)"

definition targetBusy :: "channel_id \<Rightarrow> int \<Rightarrow> Par \<Rightarrow> Par" where
  "targetBusy i others p =
     (let explained = (targetCap p = 0 \<or> (case firedAt p i of None \<Rightarrow> 0 | Some k \<Rightarrow> k) \<le> capSetAt p \<or> probing p);
          p = (if targetCap p = 0 \<or> others < targetCap p then
                 setTargetCap others
                   (if probing p
                    then p\<lparr>probing := False, probeSeq := 0,
                           capBackoff := (if capBackoff p < maxCapBackoff then cap_backoff p * 2 else capBackoff p)\<rparr>
                    else p)
               else p) in
      if \<not> explained then
        let p = p\<lparr>busyRefusals := (busyRefusals p)(i \<mapsto> (case busyRefusals p i of None \<Rightarrow> 0 | Some k \<Rightarrow> k) + 1)\<rparr> in
        requeue i (\<not> the (busyRefusals p i) > maxBusyRefusals) p
      else requeue i True p)"

definition par_refreshPeers :: "penv \<Rightarrow> node_id list \<Rightarrow> Par \<Rightarrow> Par \<times> bool" where
  "par_refreshPeers pe peers p =
     (let (n, ok) = RefreshPeerChannels (pe_now pe (fireSeq p)) (p_Node p)
                      (map (\<lambda>i. (i, pe_listpeer pe (fireSeq p) i)) peers) in
      (p\<lparr>p_Node := n\<rparr>, ok))"

definition targetRefusedAlone :: "penv \<Rightarrow> Result \<Rightarrow> Par \<Rightarrow> Par \<times> bool" where
  "targetRefusedAlone pe res p =
     (let peer = (if FailedAt res = SideOut then Out res else In res) in
      if Precheck res \<and> \<not> targetRechecked p then
        let (p, ok) = par_refreshPeers pe [peer] (p\<lparr>targetRechecked := True\<rparr>) in
        if \<not> ok then (p, False) else (requeue (Candidate res) True p, True)
      else if refusedAlone p \<noteq> '''' \<and> refusedAlone p \<noteq> Candidate res then (p, False)
      else
        let p = p\<lparr>refusedAlone := Candidate res\<rparr> in
        if Precheck res then par_refreshPeers pe [peer] p else (p, True))"

section \<open>Judging a candidate\<close>

definition judge_side :: "penv \<Rightarrow> Result \<Rightarrow> Par \<Rightarrow> Par" where
  "judge_side pe res p =
     (if FailedAt res = candidateSide p \<or> FailedAt res = SideRoute
      then p\<lparr>p_Node := RecordCandidate (pe_now pe (fireSeq p)) (p_Node p) (Candidate res) False 0 0\<rparr>
      else if FailedAt res = SideNone then p
      else
        let others = splitsInFlight p - 1 in
        if res_Retry res = RetryWhenFree \<and> others > 0 then targetBusy (Candidate res) others p
        else
          let (p, go_on) = (if res_Retry res = RetryWhenFree then targetRefusedAlone pe res p else (p, False)) in
          if go_on then p
          else noteStop StopTarget (p\<lparr>targetStopped := True, halt := True\<rparr>))"

definition judge_failure :: "penv \<Rightarrow> Result \<Rightarrow> Par \<Rightarrow> Par" where
  "judge_failure pe res p =
     (if res_Retry res = RetryNow \<and> FailedAt res \<noteq> SideNone \<and> FailedAt res \<noteq> SideRoute \<and> Candidate res \<notin> retried p
      then requeue (Candidate res) True (p\<lparr>retried := insert (Candidate res) (retried p)\<rparr>)
      else judge_side pe res p)"

text \<open>The deferred reset of the probe runs after the rest.\<close>

definition judgeCandidate :: "penv \<Rightarrow> Result \<Rightarrow> Par \<Rightarrow> Par" where
  "judgeCandidate pe res p =
     (if Candidate res = '''' then p
      else if Status res = ''success'' then
        targetSucceeded (Candidate res)
          (p\<lparr>p_Node := RecordCandidate (pe_now pe (fireSeq p)) (p_Node p) (Candidate res) True (AmountMsat_moved res) (res_Fee res),
             targetRechecked := False, refusedAlone := ''''\<rparr>)
      else
        let probe = isProbe (Candidate res) p;
            p = judge_failure pe res p in
        if probe \<and> isProbe (Candidate res) p then p\<lparr>probeSeq := 0\<rparr> else p)"

section \<open>A result arrives\<close>

definition howItFailed :: "Result \<Rightarrow> Par \<Rightarrow> gone_why" where
  "howItFailed res p =
     (if FailedAt res = candidateSide p \<or> FailedAt res = SideRoute \<or> FailedAt res = SideNone then goneFailed
      else goneRefused)"

definition priceHeld :: "Result \<Rightarrow> bool" where
  "priceHeld res = (if OwnLimit res then False else CheapestPPM res > 0 \<or> InOverMax res \<or> MiddleFailures res > 0)"

definition cheaper :: "u64 \<Rightarrow> u64 \<Rightarrow> u64" where
  "cheaper x least = (if x > 0 \<and> (least = 0 \<or> x < least) then x else least)"

definition note_success :: "penv \<Rightarrow> Result \<Rightarrow> Par \<Rightarrow> Par" where
  "note_success pe res p =
     (let p = AddSuccess res p;
          p = on_outcome (\<lambda>o'. o'\<lparr>SplitsSucceeded := SplitsSucceeded o' + 1, FeesPaidMsat := FeesPaidMsat o' + res_Fee res\<rparr>) p;
          p = (if res_PPM res > roundMaxPaid p then p\<lparr>roundMaxPaid := res_PPM res\<rparr> else p);
          p = p\<lparr>movedMsat := movedMsat p + AmountMsat_moved res\<rparr> in
      EnqueueCandidate (pe_now pe (fireSeq p)) res p)"

definition note_failure :: "Result \<Rightarrow> Par \<Rightarrow> Par" where
  "note_failure res p =
     (let p = on_outcome (\<lambda>o'. o'\<lparr>SplitsFailed := (if Halted res then SplitsFailed o' else SplitsFailed o' + 1),
                FeeratioHeld := (if HeldByOwnLimit res then FeeratioHeld o' + 1 else FeeratioHeld o'),
                CheapestPPMOverMax := cheaper (CheapestPPM res) (CheapestPPMOverMax o')\<rparr>) p in
      p\<lparr>roundPriced := (roundPriced p \<or> priceHeld res), roundCheapest := cheaper (CheapestPPM res) (roundCheapest p)\<rparr>)"

definition UpdateAmounts :: "penv \<Rightarrow> Result \<Rightarrow> Par \<Rightarrow> Par" where
  "UpdateAmounts pe res p =
     (let p = (if Status res = ''success'' then fst (par_refreshPeers pe [Out res, In res] p) else p);
          p = p\<lparr>InFlightAmount := InFlightAmount p - Requested res\<rparr>;
          p = releaseFee (Requested res) p;
          p = p\<lparr>splitsInFlight := splitsInFlight p - 1\<rparr> in
      if Status res = ''success'' then p\<lparr>AmountRebalanced := AmountRebalanced p + AmountMsat_moved res\<rparr> else p)"

text \<open>The body of the loop of \<^verbatim>\<open>waitForRound\<close>, up to \<open>FireCandidates\<close>, then all of it.\<close>

definition note_result_of :: "penv \<Rightarrow> Result \<Rightarrow> Par \<Rightarrow> Par" where
  "note_result_of pe res p =
     (let p = p\<lparr>TotalAttempts := TotalAttempts p + res_Attempts res\<rparr>;
          p = countFailedNodes res p;
          p = countFailStreak res p;
          p = judgeCandidate pe res p;
          p = (if Status res \<noteq> ''success'' \<and> Candidate res \<noteq> ''''
               then leftQueue (Candidate res) (howItFailed res p) p else p);
          p = (if Status res = ''success'' then note_success pe res p else note_failure res p) in
      UpdateAmounts pe res p)"

definition handle_result :: "penv \<Rightarrow> Result \<Rightarrow> Par \<Rightarrow> Par" where
  "handle_result pe res p = FireCandidates pe (note_result_of pe res p)"

section \<open>The time limit\<close>

definition timeUp :: "Par \<Rightarrow> Par" where
  "timeUp p =
     (if timeStopped p then p
      else
        let p = p\<lparr>timeStopped := True, halt := True\<rparr>;
            p = (if retryEvery p > 0 \<and> firstStop p \<noteq> None
                 then (on_outcome (\<lambda>o'. o'\<lparr>LastRound := firstStop p, StoppedWhy := None\<rparr>) p)\<lparr>firstStop := None\<rparr>
                 else p) in
        noteStop StopTime p)"

section \<open>The end of a run\<close>

definition is_skipped :: "gone_why \<Rightarrow> bool" where
  "is_skipped why \<longleftrightarrow> why \<noteq> goneFailed \<and> why \<noteq> goneRefused"

definition ranOut :: "Par \<Rightarrow> stop" where
  "ranOut p =
     (let whys = map snd (gone p) in
      RanOut (length (filter (\<lambda>w. w = goneFailed) whys)) (length (filter (\<lambda>w. w = goneRefused) whys))
        (length (filter is_skipped whys)))"

definition why_short :: "Par \<Rightarrow> stop option" where
  "why_short p =
     (if held p then Some StopHeld
      else if firstStop p \<noteq> None then firstStop p
      else if \<not> targetStopped p \<and> \<not> streakStopped p \<and> \<not> timeStopped p \<and> \<not> feeStopped p then Some (ranOut p)
      else None)"

definition endRun :: "Par \<Rightarrow> Par" where
  "endRun p =
     on_outcome (\<lambda>res.
       let res = res\<lparr>run_Attempts := TotalAttempts p\<rparr>;
           res = (if retryEvery p > 0 then res\<lparr>Rounds := rounds p, RoundHistory := history p\<rparr> else res);
           res = res\<lparr>AvgPPM := avgPPM (FeesPaidMsat res) (movedMsat p), WorstNodes := worstNodes p,
                     FeeratioSkipped := length (feeratioSkipped p)\<rparr>;
           res = (if AmountRebalanced p < amount p \<and> StoppedWhy res = None then res\<lparr>StoppedWhy := why_short p\<rparr> else res) in
       if AmountRebalanced p \<ge> amount p then res\<lparr>StoppedWhy := None\<rparr> else res) p"

end
