(* ===== verification/Rounds.thy ===== *)
theory Rounds
  imports ParallelResult
begin

text \<open>
  Slow mode and stepping (the rounds of \<^verbatim>\<open>rebalance/parallel/result.go\<close>), the calls of circular-pull
  and circular-push from their parameters to their first splits (\<^verbatim>\<open>prepare\<close> of \<^verbatim>\<open>pull.go\<close> and
  \<^verbatim>\<open>push.go\<close>), a run's steps, and the list of runs (\<^verbatim>\<open>runs.go\<close>).
\<close>

section \<open>Prices\<close>

definition stepCap :: "Par \<Rightarrow> u64" where
  "stepCap p = (if roundMost p > 0 \<and> roundMost p < capPPM p \<and> \<not> roundLeftOut p then roundMost p else capPPM p)"

definition heldLimit :: "Par \<Rightarrow> u64" where
  "heldLimit p = (if roundTopLimit p > 0 \<and> roundTopLimit p < maxPPM p then roundTopLimit p else 0)"

definition atTop :: "Par \<Rightarrow> bool" where
  "atTop p = (stepPPM p = 0 \<or> maxPPM p \<ge> stepCap p)"

definition idleAtTop :: "Par \<Rightarrow> bool" where
  "idleAtTop p =
     (if AmountRebalanced p > roundStartMoved p \<or> \<not> (roundPriced p \<or> heldLimit p > 0) then False else atTop p)"

definition countIdle :: "Par \<Rightarrow> Par" where
  "countIdle p =
     (if idleAtTop p then p\<lparr>idleRounds := idleRounds p + 1\<rparr>
      else if AmountRebalanced p > roundStartMoved p then p\<lparr>idleRounds := 0\<rparr>
      else if roundTopLimit p = 0 \<and> \<not> roundLeftOut p then p
      else if \<not> atTop p then p\<lparr>idleRounds := 0\<rparr>
      else p)"

definition probeSize :: "Par \<Rightarrow> u64" where
  "probeSize p =
     (let left = amount p - AmountRebalanced p;
          size = (if probeMsat p = 0 then left div 5 else probeMsat p);
          size = (if size < splitAmount p then splitAmount p else size) in
      if size > left then left else size)"

text \<open>The next round's limit, whether it is a probe, and whether to wait first.\<close>

definition nextStep :: "Par \<Rightarrow> u64 \<times> bool \<times> bool" where
  "nextStep p =
     (if stepPPM p = 0 then (maxPPM p, False, True)
      else
        let moved = AmountRebalanced p - roundStartMoved p; limit = stepCap p in
        if moved > 0 \<and> stepProbe p then
          let newppm = roundMaxPaid p + stepPPM p div 2;
              newppm = (if newppm > limit then limit else newppm);
              newppm = (if newppm = 0 then maxPPM p else newppm) in
          (newppm, False, False)
        else if moved > 0 then (maxPPM p, False, True)
        else if \<not> roundPriced p then (maxPPM p, stepProbe p, True)
        else if maxPPM p < limit then
          let newppm = maxPPM p + stepPPM p in
          (if newppm > limit then limit else newppm, True, False)
        else (maxPPM p, True, True))"

section \<open>From one round to the next\<close>

definition closeRound :: "Par \<Rightarrow> Par" where
  "closeRound p =
     (if retryEvery p \<le> 0 then p
      else
        let moved = AmountRebalanced p - roundStartMoved p in
        p\<lparr>history := history p @
           [\<lparr>ri_Round = rounds p, ri_MaxPPM = maxPPM p, Asked = (roundGoal p - roundStartMoved p) div 1000,
             Moved = moved div 1000, PaidPPM = avgPPM (feesPaid p - roundStartFees p) moved,
             MaxPaidPPM = roundMaxPaid p, Probe = stepProbe p, LimitPPM = heldLimit p\<rparr>]\<rparr>)"

definition clear_stop :: "Par \<Rightarrow> Par" where
  "clear_stop p = on_outcome (\<lambda>res. res\<lparr>StoppedWhy := None\<rparr>) (p\<lparr>firstStop := None\<rparr>)"

definition giveUp :: "Par \<Rightarrow> Par" where
  "giveUp p = noteStop (StopGaveUp (idleRounds p) (maxPPM p)) (clear_stop p)"

text \<open>How the wait for another round ends: it is over, the time limit, or circular-stop.\<close>

datatype waited = WaitOver | WaitDeadline | WaitStopped

definition waitRetry :: "waited \<Rightarrow> Par \<Rightarrow> Par \<times> bool" where
  "waitRetry w p =
     (case w of
        WaitOver \<Rightarrow> (p, True)
      | WaitDeadline \<Rightarrow> (timeUp (clear_stop p), False)
      | WaitStopped \<Rightarrow> ((clear_stop p)\<lparr>heldByStop := True\<rparr>, False))"

text \<open>What a round decided about the run is cleared; what moved, was paid and was learned is kept.\<close>

definition begin_round :: "u64 \<Rightarrow> bool \<Rightarrow> Par \<Rightarrow> Par" where
  "begin_round newppm probe p =
     (let p = p\<lparr>maxPPM := newppm, stepProbe := probe, roundGoalMsat := 0\<rparr>;
          p = (if probe then p\<lparr>roundGoalMsat := AmountRebalanced p + probeSize p\<rparr> else p);
          p = p\<lparr>roundStartMoved := AmountRebalanced p, roundStartFees := feesPaid p, roundMaxPaid := 0,
                roundTopLimit := 0, roundMost := 0, roundCheapest := 0, roundPriced := False, roundLeftOut := False,
                failStreak := 0, streakStopped := False, targetStopped := False, halt := False\<rparr>;
          p = clear_stop p in
      p\<lparr>gone := [], retried := {}, targetCap := 0, capSuccesses := 0, capSetAt := 0, probing := False, probeSeq := 0,
        capBackoff := 0, busyRefusals := Map.empty, targetRechecked := False, refusedAlone := '''',
        earnings := Map.empty, Target := fresh_channel p (Target p)\<rparr>)"

definition newRound :: "penv \<Rightarrow> u64 \<Rightarrow> bool \<Rightarrow> Par \<Rightarrow> Par" where
  "newRound pe newppm probe p =
     (let p = begin_round newppm probe p;
          p = fst (FindCandidates (pe_now pe (fireSeq p)) (excludePeer p) p) in
      FireCandidates pe (prefetchEarnings pe p))"

definition round_over :: "Par \<Rightarrow> bool" where
  "round_over p \<longleftrightarrow>
     retryEvery p \<le> 0 \<or> AmountRebalanced p \<ge> amount p \<or> timeStopped p \<or> feeStopped p \<or> held p \<or> Stopped (p_Node p)"

definition why_round :: "Par \<Rightarrow> Par" where
  "why_round p =
     (if roundGoalMsat p \<noteq> 0 \<and> AmountRebalanced p \<ge> roundGoal p then p
      else on_outcome (\<lambda>res. res\<lparr>LastRound := (case firstStop p of None \<Rightarrow> Some (ranOut p) | Some why \<Rightarrow> Some why)\<rparr>) p)"

definition anotherRound :: "penv \<Rightarrow> waited \<Rightarrow> Par \<Rightarrow> Par \<times> bool" where
  "anotherRound pe w p =
     (if round_over p then (p, False)
      else
        let p = countIdle (why_round p) in
        if maxIdleRounds p > 0 \<and> idleRounds p \<ge> maxIdleRounds p then (giveUp p, False)
        else
          let (newppm, probe, wait) = nextStep p;
              (p, go_on) = (if wait then waitRetry w p else (p, True)) in
          if \<not> go_on then (p, False) else (newRound pe newppm probe p, True))"

section \<open>A call\<close>

text \<open>The parameters of circular-pull and circular-push; \<open>k_lists\<close> is outlist, or inlist.\<close>

record ParCall =
  k_kind :: kind
  k_scid :: scid
  k_list :: "node_id list option"
  k_outppm :: u64
  k_Amount :: u64
  k_MaxPPM :: u64
  k_Splits :: int
  k_SplitAmount :: u64
  k_MinSplit :: u64
  k_percent :: rat
  k_upto :: u64
  k_Attempts :: int
  k_MaxHops :: int
  k_MaxNodeFails :: int
  k_MaxFailStreak :: int
  k_RiskPPM :: int
  k_MaxTime :: int
  k_MaxFee :: int
  k_FeeRatio :: rat
  k_RetryEvery :: int
  k_StepPPM :: int
  k_CapPPM :: int
  k_Probe :: int
  k_MaxIdleRounds :: int
  k_ProbeFailStreak :: int

text \<open>The struct of a call, before \<^verbatim>\<open>Init\<close>: what it does not set is zero.\<close>

definition zero_channel :: Channel where
  "zero_channel = NewChannel
     \<lparr>Source = '''', Destination = '''', ShortChannelId = '''', IsPublic = False, Satoshis = 0, AmountMsat = 0,
      MessageFlags = 0, ChannelFlags = 0, IsActive = False, LastUpdate = 0, BaseFeeMillisatoshi = 0, FeePerMillionth = 0,
      Delay = 0, HtlcMinimumMilliSatoshis = 0, HtlcMaximumMilliSatoshis = 0\<rparr> 0 0"

definition new_run :: "ParCall \<Rightarrow> Node \<Rightarrow> Par" where
  "new_run k n =
     \<lparr>kind = k_kind k, p_Node = n, Target = zero_channel, Queue = [], flights = [], TotalAttempts = 0,
      AmountRebalanced = 0, InFlightAmount = 0, outcome = None, amount = k_Amount k, maxPPM = k_MaxPPM k,
      splits = k_Splits k, splitAmount = k_SplitAmount k, minSplit = k_MinSplit k, p_attempts = k_Attempts k,
      p_maxHops = k_MaxHops k, p_maxNodeFails = k_MaxNodeFails k, p_riskPPM = k_RiskPPM k,
      maxFailStreak = k_MaxFailStreak k, failStreak = 0, streakStopped = False, halt = False, movedMsat = 0,
      p_failedAt = [], gone = [], heldByStop = False, maxTime = 0, timeStopped = False, firstStop = None,
      maxFeeMsat = 0, feeReserved = 0, feeStopped = False, feeRatio = 0, earnSince = 0, earnings = Map.empty,
      feeratioSkipped = [], splitsInFlight = 0, routes = Map.empty, candidateSide = SideNone, launched = Map.empty,
      retried = {}, targetCap = 0, capSuccesses = 0, capSetAt = 0, probing = False, probeSeq = 0, capBackoff = 0,
      fireSeq = 0, firedAt = Map.empty, busyRefusals = Map.empty, targetRechecked = False, refusedAlone = '''',
      targetStopped = False, retryEvery = 0, rounds = 0, excludePeer = '''', CandidatesList = k_list k,
      stepPPM = 0, capPPM = 0, probeMsat = 0, roundGoalMsat = 0, stepProbe = False, roundStartMoved = 0,
      roundStartFees = 0, roundMaxPaid = 0, history = [], roundTopLimit = 0, roundMost = 0, roundLeftOut = False,
      maxIdleRounds = 0, idleRounds = 0, probeFailStreak = 0, roundCheapest = 0, roundPriced = False,
      MaxOutPPM = k_outppm k, DepleteUpToPercent = k_percent k, DepleteUpToAmount = k_upto k,
      MinOutPPM = k_outppm k, FillUpToPercent = k_percent k, FillUpToAmount = k_upto k\<rparr>"

text \<open>How a call fails before its first split: an error, stepppm without its cap, or a panic.\<close>

datatype prepare_error = PrepareError util_error | NeedsCapPPM | CallPanics

definition set_parameters :: "int \<Rightarrow> ParCall \<Rightarrow> Par \<Rightarrow> Par" where
  "set_parameters now k p =
     (let p = setMaxTime (k_MaxTime k) p;
          p = setMaxFee (k_MaxFee k) p;
          p = setFeeRatio now (k_FeeRatio k) p;
          p = setRetryEvery (k_RetryEvery k) p in
      case kind p of
        Pull \<Rightarrow> pull_setDefaults (if CandidatesList p \<noteq> None then p\<lparr>MaxOutPPM := 2 ^ 63\<rparr> else p)
      | Push \<Rightarrow> push_setDefaults (if CandidatesList p \<noteq> None then p\<lparr>MinOutPPM := 0\<rparr> else p))"

definition find_target :: "int \<Rightarrow> scid \<Rightarrow> Par \<Rightarrow> prepare_error + Par" where
  "find_target now scid p =
     (case (case kind p of Pull \<Rightarrow> GetIncomingChannelFromScid now (p_Node p) scid
                         | Push \<Rightarrow> GetOutgoingChannelFromScid now (p_Node p) scid) of
        Inl e \<Rightarrow> Inl (PrepareError e)
      | Inr target \<Rightarrow>
          Inr (p\<lparr>Target := target,
                 excludePeer := (case kind p of Pull \<Rightarrow> Source target | Push \<Rightarrow> Destination target)\<rparr>))"

definition prepare_run :: "penv \<Rightarrow> ParCall \<Rightarrow> Node \<Rightarrow> prepare_error + Par" where
  "prepare_run pe k n =
     (let now = pe_now pe 0 in
      if k_scid k = '''' then Inl (PrepareError ErrNoRequiredParameter)
      else
        (case Init (new_run k n) of
           None \<Rightarrow> Inl CallPanics
         | Some p \<Rightarrow>
             (case setStepping (k_StepPPM k) (k_CapPPM k) (k_Probe k) (set_parameters now k p) of
                None \<Rightarrow> Inl NeedsCapPPM
              | Some p \<Rightarrow>
                  let p = setProbeFailStreak (k_ProbeFailStreak k) (setMaxIdleRounds (k_MaxIdleRounds k) p) in
                  (case validateParameters p of
                     Panics \<Rightarrow> Inl CallPanics
                   | Refused e \<Rightarrow> Inl (PrepareError e)
                   | Accepted \<Rightarrow>
                       (case find_target now (k_scid k) p of
                          Inl e \<Rightarrow> Inl e
                        | Inr p \<Rightarrow>
                            (case FindCandidates now (excludePeer p) p of
                               (p, Some e) \<Rightarrow> Inl (PrepareError e)
                             | (p, None) \<Rightarrow> Inr (prefetchEarnings pe p)))))))"

text \<open>\<^verbatim>\<open>Call\<close>: the first splits, then \<^verbatim>\<open>WaitForResult\<close> up to its loop.\<close>

definition start_wait :: "penv \<Rightarrow> Par \<Rightarrow> Par" where
  "start_wait pe p = (FireCandidates pe p)\<lparr>outcome := Some (NewRunResult (amount p)), rounds := 1\<rparr>"

section \<open>The list of runs\<close>

datatype run_status = Running | Done | Failed

record RunEntry =
  run_Kind :: kind
  run_Target :: scid
  run_Amount :: u64
  run_MaxPPM :: u64
  Started :: int
  Ended :: int
  run_Status :: run_status
  run_Outcome :: "RunResult option"

definition RUNS_KEPT :: nat where "RUNS_KEPT = 20"

definition startRun :: "kind \<Rightarrow> scid \<Rightarrow> u64 \<Rightarrow> u64 \<Rightarrow> int \<Rightarrow> RunEntry list \<Rightarrow> RunEntry list" where
  "startRun k target a limit now runs =
     runs @ [\<lparr>run_Kind = k, run_Target = target, run_Amount = a, run_MaxPPM = limit, Started = now, Ended = 0,
              run_Status = Running, run_Outcome = None\<rparr>]"

fun keep_runs :: "nat \<Rightarrow> RunEntry list \<Rightarrow> RunEntry list" where
  "keep_runs finished [] = []"
| "keep_runs finished (x # xs) =
     (if run_Status x \<noteq> Running \<and> finished > RUNS_KEPT then keep_runs (finished - 1) xs
      else x # keep_runs finished xs)"

text \<open>The run is shared by pointer: here its place in the list. \<^const>\<open>None\<close> is an error.\<close>

definition endRun_entry :: "nat \<Rightarrow> RunResult option \<Rightarrow> int \<Rightarrow> RunEntry list \<Rightarrow> RunEntry list" where
  "endRun_entry k res now runs =
     (let x = runs ! k;
          x = x\<lparr>Ended := now, run_Status := (case res of None \<Rightarrow> Failed | Some _ \<Rightarrow> Done), run_Outcome := res\<rparr>;
          runs = runs[k := x] in
      keep_runs (length (filter (\<lambda>x. run_Status x \<noteq> Running) runs)) runs)"

definition listRuns :: "scid \<Rightarrow> RunEntry list \<Rightarrow> RunEntry list" where
  "listRuns target runs = filter (\<lambda>x. target = '''' \<or> run_Target x = target) (rev runs)"

end
