(* ===== verification/RunResults.thy ===== *)
theory RunResults
  imports RunClaims
begin

text \<open>
  What the result of a rebalance says of what it paid: a success delivered the amount of one route
  within the limits, for the fee of that route.
\<close>

section \<open>The fee limit grows with the amount and the rate\<close>

lemma MaxFeeForPPM_mono:
  assumes "a \<noteq> 0" "a \<le> b" "x \<le> y"
  shows "MaxFeeForPPM a x \<le> MaxFeeForPPM b y"
proof (cases "b = 0 \<or> y = MaxUint64 \<or> fst (Mul64 (y + 1) b) \<noteq> 0")
  case True
  then show ?thesis by (auto simp: MaxFeeForPPM_def split_beta)
next
  case False
  then have y: "unat (y + 1) = unat y + 1"
    by (subst unat_u64_add_exact) (simp_all add: u64_neq_Max_iff)
  then have b: "(unat y + 1) * unat b < 2 ^ 64"
    using False by (simp add: u64_eq_iff unat_specs div_eq_0_iff)
  have le: "(unat x + 1) * unat a \<le> (unat y + 1) * unat b"
    using assms by (intro mult_mono) (simp_all add: u64_le_iff)
  have "unat y \<noteq> 18446744073709551615" using False by (simp add: u64_eq_Max_iff)
  then have "unat x \<noteq> 18446744073709551615" using assms(3) unat_u64_le [of y] unfolding u64_le_iff by linarith
  then have "x \<noteq> MaxUint64" by (simp add: u64_eq_Max_iff)
  moreover have "(unat x + 1) * unat a < 2 ^ 64" using le b by linarith
  ultimately have "unat (MaxFeeForPPM a x) = ((unat x + 1) * unat a - 1) div 1000000"
    using assms(1) by (intro unat_MaxFeeForPPM) simp_all
  moreover have "unat (MaxFeeForPPM b y) = ((unat y + 1) * unat b - 1) div 1000000"
    using False b by (intro unat_MaxFeeForPPM) simp_all
  moreover have "((unat x + 1) * unat a - 1) div 1000000 \<le> ((unat y + 1) * unat b - 1) div 1000000"
    using le by (intro div_le_mono) linarith
  ultimately show ?thesis by (simp only: u64_le_iff)
qed

section \<open>What was paid\<close>

text \<open>A payment is shown with the fee of its route (\<^const>\<open>NewPrettyRoute\<close>).\<close>

definition honest_pay :: "env \<Rightarrow> bool" where
  "honest_pay env \<longleftrightarrow> (\<forall>t route pretty. e_pay env t route = Inr pretty \<longrightarrow> pr_Fee pretty = Fee route)"

definition paid_result :: "Rebalance \<Rightarrow> Result \<Rightarrow> bool" where
  "paid_result r res \<longleftrightarrow>
     (\<exists>route. within_limits r route \<and> AmountMsat_moved res = Amount route \<and> res_Fee res = Fee route)"

lemma send_route_pays:
  assumes "honest_pay env" "within_limits r0 route" "send_route env r ex route = (r', ex', Inr res)"
  shows "paid_result r0 res"
proof -
  obtain r1 ex1 pretty where tried: "tryRoute env r route ex = (r1, ex1, Inr pretty)" "res = success_result r1 route pretty"
    using assms(3) by (auto simp: send_route_def split: prod.splits sum.splits)
  from tried(1) have "e_pay env (tick r) route = Inr pretty"
    by (auto simp: tryRoute_def Let_def split: option.splits sum.splits pay_error.splits prod.splits)
  then have "pr_Fee pretty = Fee route" using assms(1) by (simp add: honest_pay_def)
  then show ?thesis using assms(2) tried(2) by (auto simp: paid_result_def success_result_def)
qed

lemma runAttempt_pays:
  assumes "honest_pay env" "in_progress r0 r" "\<And>k. route = Some k \<Longrightarrow> within_limits r0 k"
    and "runAttempt env r ex route = (r', ex', Inr res)"
  shows "paid_result r0 res"
proof -
  let ?r = "begin_attempt env r"
  have "in_progress r0 ?r" using assms(2) in_progress_cong [OF begin_attempt_settings(1)] by simp
  then have found: "getRoute env ?r ex = Inr k \<Longrightarrow> within_limits r0 k" for k
    using getRoute_limits in_progress_limits by blast
  obtain k where "within_limits r0 k" "send_route env ?r ex k = (r', ex', Inr res)"
    using assms(3,4) found
    by (auto simp: runAttempt_def Let_def split: if_splits option.splits sum.splits)
  with assms(1) show ?thesis by (rule send_route_pays)
qed

lemma retry_short_pays:
  assumes "honest_pay env" "in_progress r0 r" "\<And>res. out = Inr res \<Longrightarrow> paid_result r0 res"
    and "retry_short env r st out = (r', st', Inr res)"
  shows "paid_result r0 res"
proof (cases "\<exists>short sent e r2 shrunk. st_short st = Some short \<and> out = Inl (sent, e) \<and> no_route e
      \<and> shrink r short (st_exclude st) (st_shortIds st) = Some (r2, shrunk)")
  case True
  then obtain short sent e r2 shrunk where t: "st_short st = Some short" "out = Inl (sent, e)" "no_route e"
    "shrink r short (st_exclude st) (st_shortIds st) = Some (r2, shrunk)" by blast
  obtain r3 ex3 out3 where b: "runAttempt env r2 (st_exclude st) (Some shrunk) = (r3, ex3, out3)" by (rule prod_cases3)
  have "out3 = Inr res" using assms(4)
    by (auto simp: retry_short_def t b Let_def split: sum.splits option.splits if_splits)
  with b have "runAttempt env r2 (st_exclude st) (Some shrunk) = (r3, ex3, Inr res)" by simp
  moreover have "within_limits r0 shrunk" "in_progress r0 r2"
    using shrink_limits [OF t(4) assms(2)] in_progress_limits [of r0 r2 shrunk] by simp_all
  ultimately show ?thesis using runAttempt_pays [OF assms(1), of r0 r2 "Some shrunk"] by simp
next
  case False
  then have "out = Inr res" using assms(4)
    by (auto simp: retry_short_def split: option.splits sum.splits if_splits)
  then show ?thesis using assms(3) by simp
qed

lemma run_pass_pays:
  assumes "honest_pay env" "in_progress r0 r" "\<And>k. st_known st = Some k \<Longrightarrow> within_limits r0 k"
    and "run_pass env r st = (r', st', Inr res, again)"
  shows "paid_result r0 res \<and> \<not> again"
proof -
  obtain r1 ex1 out1 where a: "runAttempt env r (st_exclude st) (st_known st) = (r1, ex1, out1)" by (rule prod_cases3)
  have r1: "in_progress r0 r1" using runAttempt_in_progress [OF assms(2), of env "st_exclude st" "st_known st"] a by simp
  have paid: "paid_result r0 res" if "out1 = Inr res" for res
    using runAttempt_pays [OF assms(1-3)] a that by blast
  show ?thesis
  proof (cases "st_known st \<noteq> None \<and> (case out1 of Inl (_, e) \<Rightarrow> errors_Is (Some e) (Util ErrTemporaryFailure) | Inr _ \<Rightarrow> False)")
    case True
    then show ?thesis using assms(4) by (auto simp: run_pass_def a Let_def split: sum.splits)
  next
    case False
    obtain r2 st2 out2 where b: "retry_short env r1 (note_short out1 (st\<lparr>st_exclude := ex1, st_known := None\<rparr>)) out1 = (r2, st2, out2)"
      by (rule prod_cases3)
    have "out2 = Inr res" "\<not> again" using assms(4) False b by (auto simp: run_pass_def a Let_def)
    then show ?thesis using retry_short_pays [OF assms(1) r1 paid] b by blast
  qed
qed

lemma run_loop_pays:
  assumes "honest_pay env" "in_progress r0 r" "\<And>k. st_known st = Some k \<Longrightarrow> within_limits r0 k"
    and "run_loop env attempts r st = (r', st', Some res)"
  shows "paid_result r0 res"
  using assms
proof (induction env attempts r st rule: run_loop.induct)
  case (1 env attempts r st)
  obtain r1 st1 out again where pass: "run_pass env r st = (r1, st1, out, again)" by (rule prod_cases4)
  have keep: "in_progress r0 r1" using run_pass_in_progress [OF "1.prems"(2), of env st] pass by simp
  have known: "st_known st1 = None" using run_pass_st [OF pass] by simp
  have go: "\<not> st_i st > attempts" using "1.prems"(4) by (auto simp: run_loop.simps)
  show ?case
  proof (cases again)
    case True
    have "run_loop env attempts r1 st1 = (r', st', Some res)"
      using "1.prems"(4) go pass True by (simp add: run_loop.simps [of env attempts r])
    from "1.IH"(1) [OF go refl pass [symmetric] refl refl True "1.prems"(1) keep _ this] known show ?thesis by simp
  next
    case fin: False
    show ?thesis
    proof (cases out)
      case (Inr result)
      then have "paid_result r0 result"
        using run_pass_pays [OF "1.prems"(1-3)] pass by blast
      moreover have "res = complete_result r1 result"
        using "1.prems"(4) go pass fin Inr by (auto simp: run_loop.simps [of env attempts r])
      ultimately show ?thesis by (simp add: paid_result_def complete_result_def)
    next
      case (Inl se)
      obtain sent e where se: "se = (sent, e)" by (cases se)
      have more: "\<not> ends_run e" using "1.prems"(4) go pass fin Inl se
        by (auto simp: run_loop.simps [of env attempts r] Let_def)
      then have "run_loop env attempts r1 (st1\<lparr>st_i := st_i st1 + 1\<rparr>) = (r', st', Some res)"
        using "1.prems"(4) go pass fin Inl se by (simp add: run_loop.simps [of env attempts r] Let_def)
      from "1.IH"(2) [OF go refl pass [symmetric] refl refl fin Inl se [symmetric] refl more "1.prems"(1) keep _ this] known
      show ?thesis by simp
    qed
  qed
qed

text \<open>A result that is not of a payment has status \<^verbatim>\<open>failure\<close>.\<close>

lemma failure_result_status [simp]: "Status (failure_result r e) = ''failure''"
  by (auto simp: failure_result_def Let_def split_beta NewResult_def complete_result_def split: option.split)

lemma Run_pays:
  assumes "honest_pay env" "Status (snd (Run env r)) = ''success''"
  shows "paid_result r (snd (Run env r))"
proof -
  obtain r1 st1 where start: "run_start env r = (r1, st1)" by (cases "run_start env r")
  obtain r2 st2 out where loop: "run_loop env (Attempts r1) r1 st1 = (r2, st2, out)" by (rule prod_cases3)
  have r1: "in_progress r r1" using run_start_in_progress [of r env] start by simp
  have known: "within_limits r k" if "st_known st1 = Some k" for k
  proof -
    have "knownRoute r1 (st_exclude st1) = Some k"
      using that start by (auto simp: run_start_def Let_def split_beta)
    from knownRoute_limits [OF this] show ?thesis by (intro in_progress_limits [OF r1])
  qed
  obtain res where res: "out = Some res" "snd (Run env r) = res"
    using assms(2) by (cases out) (simp_all add: Run_def start loop Let_def)
  from run_loop_pays [OF assms(1) r1 known] loop res show ?thesis by simp
qed

text \<open>In terms of what a split may ask for and pay.\<close>

lemma paid_result_bounds:
  assumes "paid_result r res"
  shows "AmountMsat_moved res \<le> rb_Amount r" "res_Fee res \<le> MaxFeeForPPM (rb_Amount r) (MaxPPM r)"
proof -
  obtain route where route: "within_limits r route" "AmountMsat_moved res = Amount route" "res_Fee res = Fee route"
    using assms by (auto simp: paid_result_def)
  show le: "AmountMsat_moved res \<le> rb_Amount r"
    using route by (auto simp: within_limits_def)
  have "Fee route \<le> MaxFeeForPPM (Amount route) (MaxPPM r)" using route by (simp add: within_limits_def)
  also have "\<dots> \<le> MaxFeeForPPM (rb_Amount r) (MaxPPM r)"
  proof (cases "Amount route = rb_Amount r")
    case False
    then have "MinAmount r \<noteq> 0" "MinAmount r \<le> Amount route" using route by (auto simp: within_limits_def)
    then have "Amount route \<noteq> 0" by (auto simp: u64_le_iff u64_eq_iff)
    then show ?thesis using le route by (intro MaxFeeForPPM_mono) simp_all
  qed simp
  finally show "res_Fee res \<le> MaxFeeForPPM (rb_Amount r) (MaxPPM r)" using route by simp
qed

end
