(* ===== verification/ParallelAccount.thy ===== *)
theory ParallelAccount
  imports Rounds RunResults
begin

text \<open>
  A run's account, step by step: what is in flight, what moved and what was paid, whatever the splits
  end with, whatever order their results come in, and whatever other goroutines do to the node.
\<close>

section \<open>What a result changes\<close>

lemma field_frame2 [frame, simp]:
  "parameters (p\<lparr>TotalAttempts := w\<rparr>) = parameters p" "account (p\<lparr>TotalAttempts := w\<rparr>) = account p"
  "parameters (p\<lparr>p_failedAt := fa\<rparr>) = parameters p" "account (p\<lparr>p_failedAt := fa\<rparr>) = account p"
  "parameters (p\<lparr>failStreak := z\<rparr>) = parameters p" "account (p\<lparr>failStreak := z\<rparr>) = account p"
  "parameters (p\<lparr>streakStopped := b\<rparr>) = parameters p" "account (p\<lparr>streakStopped := b\<rparr>) = account p"
  "parameters (p\<lparr>targetStopped := b\<rparr>) = parameters p" "account (p\<lparr>targetStopped := b\<rparr>) = account p"
  "parameters (p\<lparr>timeStopped := b\<rparr>) = parameters p" "account (p\<lparr>timeStopped := b\<rparr>) = account p"
  "parameters (p\<lparr>halt := b\<rparr>) = parameters p" "account (p\<lparr>halt := b\<rparr>) = account p"
  "parameters (p\<lparr>targetRechecked := b\<rparr>) = parameters p" "account (p\<lparr>targetRechecked := b\<rparr>) = account p"
  "parameters (p\<lparr>refusedAlone := i\<rparr>) = parameters p" "account (p\<lparr>refusedAlone := i\<rparr>) = account p"
  "parameters (p\<lparr>retried := is\<rparr>) = parameters p" "account (p\<lparr>retried := is\<rparr>) = account p"
  "parameters (p\<lparr>targetCap := z\<rparr>) = parameters p" "account (p\<lparr>targetCap := z\<rparr>) = account p"
  "parameters (p\<lparr>capSetAt := z\<rparr>) = parameters p" "account (p\<lparr>capSetAt := z\<rparr>) = account p"
  "parameters (p\<lparr>capSuccesses := z\<rparr>) = parameters p" "account (p\<lparr>capSuccesses := z\<rparr>) = account p"
  "parameters (p\<lparr>capBackoff := z\<rparr>) = parameters p" "account (p\<lparr>capBackoff := z\<rparr>) = account p"
  "parameters (p\<lparr>probing := b\<rparr>) = parameters p" "account (p\<lparr>probing := b\<rparr>) = account p"
  "parameters (p\<lparr>probeSeq := z\<rparr>) = parameters p" "account (p\<lparr>probeSeq := z\<rparr>) = account p"
  "parameters (p\<lparr>busyRefusals := bs\<rparr>) = parameters p" "account (p\<lparr>busyRefusals := bs\<rparr>) = account p"
  "parameters (p\<lparr>roundMaxPaid := w\<rparr>) = parameters p" "account (p\<lparr>roundMaxPaid := w\<rparr>) = account p"
  "parameters (p\<lparr>roundCheapest := w\<rparr>) = parameters p" "account (p\<lparr>roundCheapest := w\<rparr>) = account p"
  "parameters (p\<lparr>movedMsat := w\<rparr>) = parameters p" "account (p\<lparr>movedMsat := w\<rparr>) = account p"
  "parameters (p\<lparr>routes := rs\<rparr>) = parameters p" "account (p\<lparr>routes := rs\<rparr>) = account p"
  "parameters (p\<lparr>history := hs\<rparr>) = parameters p" "account (p\<lparr>history := hs\<rparr>) = account p"
  "account (p\<lparr>idleRounds := z\<rparr>) = account p"
  "parameters (p\<lparr>rounds := z\<rparr>) = parameters p" "account (p\<lparr>rounds := z\<rparr>) = account p"
  "parameters (p\<lparr>outcome := oc\<rparr>) = parameters p"
  by (simp_all add: parameters_def account_def feesPaid_def)

text \<open>An update of the outcome that leaves the fees alone.\<close>

definition paid_of :: "RunResult option \<Rightarrow> u64" where
  "paid_of oc = (case oc of None \<Rightarrow> 0 | Some res \<Rightarrow> FeesPaidMsat res)"

lemma paid_of_map: "(\<And>res. FeesPaidMsat (f res) = FeesPaidMsat res) \<Longrightarrow> paid_of (map_option f oc) = paid_of oc"
  by (simp add: paid_of_def split: option.split)

lemma account_outcome [frame]:
  "paid_of oc = paid_of (outcome p) \<Longrightarrow> account (p\<lparr>outcome := oc\<rparr>) = account p"
  by (simp add: account_def feesPaid_def paid_of_def)

lemma countFailedNodes_frame [frame, simp]:
  "parameters (countFailedNodes res p) = parameters p \<and> account (countFailedNodes res p) = account p"
  unfolding countFailedNodes_def
  by (rule foldl_keeps [where P = "\<lambda>q. parameters q = parameters p \<and> account q = account p"]) auto

lemma countFailStreak_frame [frame, simp]:
  "parameters (countFailStreak res p) = parameters p" "account (countFailStreak res p) = account p"
  by (simp_all add: countFailStreak_def Let_def)

lemma target_frame [frame, simp]:
  "parameters (setTargetCap k p) = parameters p" "account (setTargetCap k p) = account p"
  "parameters (requeue i b p) = parameters p" "account (requeue i b p) = account p"
  "parameters (targetSucceeded i p) = parameters p" "account (targetSucceeded i p) = account p"
  by (simp_all add: setTargetCap_def requeue_def targetSucceeded_def Let_def split: option.split)

lemma targetBusy_frame [frame, simp]:
  "parameters (targetBusy i k p) = parameters p" "account (targetBusy i k p) = account p"
  by (simp_all add: targetBusy_def Let_def)

lemma par_refreshPeers_frame [frame, simp]:
  "parameters (fst (par_refreshPeers pe is p)) = parameters p" "account (fst (par_refreshPeers pe is p)) = account p"
  by (simp_all add: par_refreshPeers_def split_beta)

lemma targetRefusedAlone_frame [frame, simp]:
  "parameters (fst (targetRefusedAlone pe res p)) = parameters p" "account (fst (targetRefusedAlone pe res p)) = account p"
  by (simp_all add: targetRefusedAlone_def Let_def split_beta)

lemma judge_frame [frame, simp]:
  "parameters (judge_side pe res p) = parameters p" "account (judge_side pe res p) = account p"
  "parameters (judge_failure pe res p) = parameters p" "account (judge_failure pe res p) = account p"
  by (simp_all add: judge_failure_def judge_side_def Let_def split_beta)

lemma judgeCandidate_frame [frame, simp]:
  "parameters (judgeCandidate pe res p) = parameters p" "account (judgeCandidate pe res p) = account p"
  by (simp_all add: judgeCandidate_def Let_def)

lemma EnqueueCandidate_frame [frame, simp]:
  "parameters (EnqueueCandidate now res p) = parameters p" "account (EnqueueCandidate now res p) = account p"
  by (simp_all add: EnqueueCandidate_def Let_def split: sum.split)

lemma AddSuccess_frame [frame, simp]:
  "parameters (AddSuccess res p) = parameters p" "account (AddSuccess res p) = account p"
proof -
  have "account (AddSuccessGeneric scid i x a q) = account q" for scid i x a q
    by (simp add: AddSuccessGeneric_def Let_def account_outcome paid_of_map)
  moreover have "account (addInvolving scid i r q) = account q" for scid i r q
    unfolding addInvolving_def by (intro account_outcome paid_of_map) (auto split: option.split)
  ultimately show "account (AddSuccess res p) = account p" by (simp add: AddSuccess_def Let_def)
  show "parameters (AddSuccess res p) = parameters p"
    by (simp add: AddSuccess_def AddSuccessGeneric_def addInvolving_def Let_def)
qed

lemma note_failure_frame [frame, simp]:
  "parameters (note_failure res p) = parameters p" "account (note_failure res p) = account p"
  by (simp_all add: note_failure_def Let_def account_outcome paid_of_map)

lemma timeUp_frame [frame, simp]:
  "parameters (timeUp p) = parameters p" "account (timeUp p) = account p"
  by (simp_all add: timeUp_def Let_def account_outcome paid_of_map)

text \<open>The fees of an account whose run has a result to add them to.\<close>

definition paid_account where
  "paid_account fee acc = (case acc of (amounts, (reserved, paid), fs) \<Rightarrow> (amounts, (reserved, paid + fee), fs))"

lemma paid_account_eq:
  "account p = ((m, f, n), (rs, fp), fs) \<Longrightarrow> paid_account fee (account p) = ((m, f, n), (rs, fp + fee), fs)"
  by (simp add: paid_account_def)

abbreviation no_outcome :: "Par \<Rightarrow> bool" where "no_outcome p \<equiv> Option.is_none (outcome p)"

lemma note_success_frame [frame]:
  assumes "\<not> no_outcome p"
  shows "parameters (note_success pe res p) = parameters p"
    "account (note_success pe res p) = paid_account (res_Fee res) (account p)"
proof -
  let ?f = "\<lambda>o'. o'\<lparr>SplitsSucceeded := SplitsSucceeded o' + 1, FeesPaidMsat := FeesPaidMsat o' + res_Fee res\<rparr>"
  let ?q = "AddSuccess res p"
  have "outcome ?q \<noteq> None" using assms unfolding Option.is_none_def
    by (simp add: AddSuccess_def AddSuccessGeneric_def addInvolving_def Let_def)
  then obtain oc where "outcome ?q = Some oc" by blast
  moreover have "account ?q = account p" by simp
  ultimately have "account (on_outcome ?f ?q) = paid_account (res_Fee res) (account p)"
    by (auto simp: account_def paid_account_def feesPaid_def)
  then show "account (note_success pe res p) = paid_account (res_Fee res) (account p)"
    by (simp add: note_success_def Let_def)
  show "parameters (note_success pe res p) = parameters p"
    by (simp add: note_success_def Let_def)
qed

text \<open>What is given back of the reserved fees.\<close>

definition released :: "u64 \<Rightarrow> u64 \<Rightarrow> u64 \<Rightarrow> u64" where
  "released budget worst reserved = (if budget = 0 then reserved else if worst < reserved then reserved - worst else 0)"

lemma UpdateAmounts_account:
  "parameters (UpdateAmounts pe res p) = parameters p"
  "account (UpdateAmounts pe res p) =
     ((if Status res = ''success'' then AmountRebalanced p + AmountMsat_moved res else AmountRebalanced p,
       InFlightAmount p - Requested res, splitsInFlight p - 1),
      (released (maxFeeMsat p) (worstFee p (Requested res)) (feeReserved p), feesPaid p), flights p)"
proof -
  let ?q = "if Status res = ''success'' then fst (par_refreshPeers pe [Out res, In res] p) else p"
  have q: "parameters ?q = parameters p" "account ?q = account p" by simp_all
  then have f: "AmountRebalanced ?q = AmountRebalanced p" "InFlightAmount ?q = InFlightAmount p" "maxFeeMsat ?q = maxFeeMsat p"
    "splitsInFlight ?q = splitsInFlight p" "feeReserved ?q = feeReserved p" "feesPaid ?q = feesPaid p" "flights ?q = flights p"
    "worstFee ?q (Requested res) = worstFee p (Requested res)" "worstFee (?q\<lparr>InFlightAmount := w\<rparr>) (Requested res) = worstFee p (Requested res)" for w
    unfolding parameters_def account_def worstFee_def by simp_all
  have u: "UpdateAmounts pe res p =
     (let p = releaseFee (Requested res) (?q\<lparr>InFlightAmount := InFlightAmount ?q - Requested res\<rparr>);
          p = p\<lparr>splitsInFlight := splitsInFlight p - 1\<rparr> in
      if Status res = ''success'' then p\<lparr>AmountRebalanced := AmountRebalanced p + AmountMsat_moved res\<rparr> else p)"
    unfolding UpdateAmounts_def Let_def ..
  show "parameters (UpdateAmounts pe res p) = parameters p"
    unfolding u using q(1) by (simp add: Let_def releaseFee_def parameters_def)
  show "account (UpdateAmounts pe res p) =
     ((if Status res = ''success'' then AmountRebalanced p + AmountMsat_moved res else AmountRebalanced p,
       InFlightAmount p - Requested res, splitsInFlight p - 1),
      (released (maxFeeMsat p) (worstFee p (Requested res)) (feeReserved p), feesPaid p), flights p)"
    unfolding u using f by (simp add: Let_def releaseFee_def account_def released_def feesPaid_def)
qed

section \<open>The outcome stays\<close>

lemma is_none_map [simp]: "Option.is_none (map_option f x) = Option.is_none x"
  by (cases x) simp_all

lemma noteStop_waiting [simp]: "no_outcome (noteStop why p) = no_outcome p"
  by (simp add: noteStop_def Let_def)

lemma leftQueue_waiting [simp]: "no_outcome (leftQueue i why p) = no_outcome p"
  by (simp add: leftQueue_def)

lemma count_waiting [simp]: "no_outcome (countFailStreak res p) = no_outcome p" "no_outcome (countFailedNodes res p) = no_outcome p"
proof -
  show "no_outcome (countFailStreak res p) = no_outcome p"
    by (simp add: countFailStreak_def Let_def)
  have "outcome (countFailedNodes res p) = outcome p"
    unfolding countFailedNodes_def by (rule foldl_keeps [where P = "\<lambda>q. outcome q = outcome p"]) auto
  then show "no_outcome (countFailedNodes res p) = no_outcome p" by simp
qed

lemma requeue_waiting [simp]: "no_outcome (requeue i b p) = no_outcome p"
  by (simp add: requeue_def split: option.split)

lemma target_waiting [simp]:
  "no_outcome (setTargetCap k p) = no_outcome p" "no_outcome (targetSucceeded i p) = no_outcome p" "no_outcome (targetBusy i k p) = no_outcome p"
  by (simp_all add: setTargetCap_def targetSucceeded_def targetBusy_def Let_def)

lemma par_refreshPeers_waiting [simp]: "no_outcome (fst (par_refreshPeers pe is p)) = no_outcome p"
  by (simp add: par_refreshPeers_def split_beta)

lemma targetRefusedAlone_waiting [simp]: "no_outcome (fst (targetRefusedAlone pe res p)) = no_outcome p"
  by (simp add: targetRefusedAlone_def Let_def split_beta)

lemma judge_waiting [simp]: "no_outcome (judge_side pe res p) = no_outcome p" "no_outcome (judgeCandidate pe res p) = no_outcome p"
proof -
  show side: "no_outcome (judge_side pe res q) = no_outcome q" for q
    by (simp add: judge_side_def Let_def split_beta)
  show "no_outcome (judgeCandidate pe res p) = no_outcome p"
    by (simp add: judgeCandidate_def judge_failure_def Let_def side)
qed

lemma note_waiting [simp]: "no_outcome (note_success pe res p) = no_outcome p" "no_outcome (note_failure res p) = no_outcome p"
proof -
  have e: "no_outcome (EnqueueCandidate now res q) = no_outcome q" for now q
    by (simp add: EnqueueCandidate_def Let_def split: sum.split)
  have a: "no_outcome (AddSuccess res q) = no_outcome q" for q
    by (simp add: AddSuccess_def AddSuccessGeneric_def addInvolving_def Let_def)
  show "no_outcome (note_success pe res p) = no_outcome p"
    using a [of p] by (simp add: note_success_def Let_def e)
  show "no_outcome (note_failure res p) = no_outcome p"
    by (simp add: note_failure_def Let_def)
qed

section \<open>A result, in the account\<close>

lemma note_result_of_account:
  assumes "\<not> no_outcome p"
  shows "parameters (note_result_of pe res p) = parameters p"
    "account (note_result_of pe res p) =
     ((if Status res = ''success'' then AmountRebalanced p + AmountMsat_moved res else AmountRebalanced p,
       InFlightAmount p - Requested res, splitsInFlight p - 1),
      (released (maxFeeMsat p) (worstFee p (Requested res)) (feeReserved p),
       if Status res = ''success'' then feesPaid p + res_Fee res else feesPaid p), flights p)"
    "\<not> no_outcome (note_result_of pe res p)"
proof -
  define q where "q = judgeCandidate pe res (countFailStreak res (countFailedNodes res
      (p\<lparr>TotalAttempts := TotalAttempts p + res_Attempts res\<rparr>)))"
  define q1 where "q1 = (if Status res \<noteq> ''success'' \<and> Candidate res \<noteq> '''' then leftQueue (Candidate res) (howItFailed res q) q else q)"
  define q2 where "q2 = (if Status res = ''success'' then note_success pe res q1 else note_failure res q1)"
  have n: "note_result_of pe res p = UpdateAmounts pe res q2"
    unfolding note_result_of_def Let_def q_def q1_def q2_def ..
  have w0: "\<not> no_outcome (p\<lparr>TotalAttempts := TotalAttempts p + res_Attempts res\<rparr>)"
    using assms by simp
  have q: "parameters q = parameters p" "account q = account p" "\<not> no_outcome q"
    using w0 by (simp_all add: q_def)
  have q1: "parameters q1 = parameters p" "account q1 = account p" "\<not> no_outcome q1"
    using q by (simp_all add: q1_def)
  have w: "parameters q2 = parameters p" "\<not> no_outcome q2"
    using q1 note_success_frame [of q1 pe res] by (simp_all add: q2_def)
  have acc: "account q2 = (if Status res = ''success'' then paid_account (res_Fee res) (account p) else account p)"
    using q1 note_success_frame [of q1 pe res] by (simp add: q2_def)
  have f: "AmountRebalanced q2 = AmountRebalanced p" "InFlightAmount q2 = InFlightAmount p" "splitsInFlight q2 = splitsInFlight p"
      "feeReserved q2 = feeReserved p" "flights q2 = flights p"
      "feesPaid q2 = (if Status res = ''success'' then feesPaid p + res_Fee res else feesPaid p)"
    using acc by (simp_all add: account_def paid_account_def split: if_splits)
  have m: "maxFeeMsat q2 = maxFeeMsat p" "worstFee q2 (Requested res) = worstFee p (Requested res)"
    using w(1) unfolding parameters_def worstFee_def by simp_all
  show "parameters (note_result_of pe res p) = parameters p" using w(1) by (simp add: n UpdateAmounts_account(1))
  show "account (note_result_of pe res p) =
     ((if Status res = ''success'' then AmountRebalanced p + AmountMsat_moved res else AmountRebalanced p,
       InFlightAmount p - Requested res, splitsInFlight p - 1),
      (released (maxFeeMsat p) (worstFee p (Requested res)) (feeReserved p),
       if Status res = ''success'' then feesPaid p + res_Fee res else feesPaid p), flights p)"
    unfolding n UpdateAmounts_account(2) f m ..
  have rel: "outcome (releaseFee a q) = outcome q" for a q by (simp add: releaseFee_def)
  show "\<not> no_outcome (note_result_of pe res p)" using w(2) rel
    by (simp add: n UpdateAmounts_def Let_def)
qed

end
