(* ===== verification/RunSamples.thy ===== *)
theory RunSamples
  imports Rounds PeerClaims
begin

text \<open>
  Two concrete calls on which the properties of a run are evaluated: a circular-pull that fires a
  split, with a fee budget and stepping, and a circular-push whose only channel below its price is
  full already, so that its first round moves nothing.
\<close>

text \<open>One candidate need not be ranked.\<close>

lemma RankCandidates_code [code]:
  "RankCandidates now n ids cost =
     (case ids of [i] \<Rightarrow> [i] | _ \<Rightarrow> map ranked_id (SliceStable ranks_before (map (rank_one now n cost) ids)))"
  by (simp add: RankCandidates_def SliceStable_def split: list.split)

definition sample_penv :: penv where
  "sample_penv = \<lparr>pe_now = (\<lambda>_. 1000), pe_forwards = (\<lambda>_ _. None), pe_listpeer = (\<lambda>_ _. None),
     pe_waiting = (\<lambda>_. 0)\<rparr>"

definition sample_pull :: ParCall where
  "sample_pull = \<lparr>k_kind = Pull, k_scid = ''3x1x1'', k_list = None, k_outppm = 1000, k_Amount = 0, k_MaxPPM = 500,
     k_Splits = 0, k_SplitAmount = 0, k_MinSplit = 0, k_percent = 0, k_upto = 0, k_Attempts = 0, k_MaxHops = 0,
     k_MaxNodeFails = 0, k_MaxFailStreak = 0, k_RiskPPM = 0, k_MaxTime = 0, k_MaxFee = 100, k_FeeRatio = 0,
     k_RetryEvery = 60, k_StepPPM = 100, k_CapPPM = 1000, k_Probe = 0, k_MaxIdleRounds = 0, k_ProbeFailStreak = 0\<rparr>"

definition sample_push :: ParCall where
  "sample_push = sample_pull\<lparr>k_kind := Push, k_scid := ''1x1x1'', k_outppm := 50\<rparr>"

definition sample_peers :: Node where
  "sample_peers = fst (refreshPeers 100 new_node (Some [(''ann'', True), (''bob'', True), (''carol'', True)])
     (Some [sample_peer_channel ''1x1x1'' ''ann'' 1800000000, sample_peer_channel ''3x1x1'' ''bob'' 1990000000,
        (sample_peer_channel ''4x1x1'' ''carol'' 200000000)
          \<lparr>Remote := sample_updates\<lparr>FeeProportionalMillionths := 5000\<rparr>\<rparr>]) 100)"

definition prepared_or :: "ParCall \<Rightarrow> Node \<Rightarrow> Par" where
  "prepared_or k n = (case prepare_run sample_penv k n of Inr p \<Rightarrow> p | Inl _ \<Rightarrow> new_run k n)"

lemma prepared_or_prepared: "\<not> isl (prepare_run sample_penv k n) \<Longrightarrow> prepare_run sample_penv k n = Inr (prepared_or k n)"
  by (cases "prepare_run sample_penv k n") (simp_all add: prepared_or_def)

lemma sample_pull_prepared: "prepare_run sample_penv sample_pull sample_node = Inr (prepared_or sample_pull sample_node)"
proof (rule prepared_or_prepared)
  show "\<not> isl (prepare_run sample_penv sample_pull sample_node)" by code_simp
qed

definition sample_run :: Par where
  "sample_run = start_wait sample_penv (prepared_or sample_pull sample_node)"

definition sample_idle :: Par where
  "sample_idle = start_wait sample_penv (prepared_or sample_push sample_peers)"

text \<open>What a round leaves that the next depends on.\<close>

definition round_view where
  "round_view (p :: Par) = ((maxIdleRounds p, idleRounds p, capPPM p, stepPPM p),
     (splitsInFlight p, AmountRebalanced p, roundStartMoved p, roundPriced p),
     (retryEvery p, amount p, timeStopped p, feeStopped p), (heldByStop p, Stopped (p_Node p)))"

lemma sample_push_started:
  "(case prepare_run sample_penv sample_push sample_peers of Inl _ \<Rightarrow> None
    | Inr p \<Rightarrow> Some (round_view (start_wait sample_penv p))) =
   Some ((3, 0, 1000, 100), (0, 0, 0, True), (60, 400000000, False, False), (False, False))"
  by code_simp

lemma sample_push_prepared: "prepare_run sample_penv sample_push sample_peers = Inr (prepared_or sample_push sample_peers)"
  using sample_push_started by (intro prepared_or_prepared) (auto simp: isl_def split: sum.splits)

lemma sample_idle_view:
  "round_view sample_idle = ((3, 0, 1000, 100), (0, 0, 0, True), (60, 400000000, False, False), (False, False))"
  using sample_push_started sample_push_prepared by (simp add: sample_idle_def)

end
