(* ===== verification/ParallelClaims.thy ===== *)
theory ParallelClaims
  imports ParallelAccount RunSamples
begin

text \<open>
  What a run of circular-pull or circular-push promises from its first split to its last, however its
  splits end, in whatever order their results come, and whatever the other goroutines do to the node:
  its steps, its invariants, and what follows from them.
\<close>

section \<open>Finding and starting over leave the account alone\<close>

lemma IsGoodCandidate_frame [frame, simp]:
  "parameters (fst (IsGoodCandidate now ch p)) = parameters p" "account (fst (IsGoodCandidate now ch p)) = account p"
  "no_outcome (fst (IsGoodCandidate now ch p)) = no_outcome p"
  by (simp_all add: IsGoodCandidate_def push_IsGoodCandidate_def inPeerFeeFits_def Let_def split_beta split: kind.split sum.split)

lemma consider_channel_frame [frame, simp]:
  "parameters (fst (consider_channel now peer acc ch)) = parameters (fst acc)"
  "account (fst (consider_channel now peer acc ch)) = account (fst acc)"
  "no_outcome (fst (consider_channel now peer acc ch)) = no_outcome (fst acc)"
  by (simp_all add: consider_channel_def Let_def split_beta)

lemma FindCandidates_frame [frame, simp]:
  "parameters (fst (FindCandidates now i p)) = parameters p" "account (fst (FindCandidates now i p)) = account p"
  "no_outcome (fst (FindCandidates now i p)) = no_outcome p"
proof -
  let ?same = "\<lambda>acc :: Par \<times> (channel_id \<times> Channel) list. parameters (fst acc) = parameters p \<and> account (fst acc) = account p
      \<and> no_outcome (fst acc) = no_outcome p"
  have "?same (foldl (\<lambda>acc peer. foldl (consider_channel now peer) acc (peer_Channels peer)) (p, []) ps)" for ps
    by (rule foldl_keeps [where P = ?same]) (simp, rule foldl_keeps [where P = ?same], simp_all)
  then show "parameters (fst (FindCandidates now i p)) = parameters p" "account (fst (FindCandidates now i p)) = account p"
    "no_outcome (fst (FindCandidates now i p)) = no_outcome p"
    by (simp_all add: FindCandidates_def Let_def split_beta)
qed

lemma prefetchEarnings_frame [frame, simp]:
  "parameters (prefetchEarnings pe p) = parameters p" "account (prefetchEarnings pe p) = account p"
  "no_outcome (prefetchEarnings pe p) = no_outcome p"
proof -
  let ?same = "\<lambda>q. parameters q = parameters p \<and> account q = account p \<and> no_outcome q = no_outcome p"
  have k: "no_outcome (fst (keepEarning q s i a)) = no_outcome q" for q s i a by (simp add: keepEarning_def Let_def)
  have "?same (foldl (\<lambda>q (scid, peer). fst (keepEarning q scid peer (pe_forwards pe (rounds q) scid))) p rs)" for rs
    by (rule foldl_keeps [where P = ?same]) (auto simp: k)
  then show "parameters (prefetchEarnings pe p) = parameters p" "account (prefetchEarnings pe p) = account p"
    "no_outcome (prefetchEarnings pe p) = no_outcome p"
    by (simp_all add: prefetchEarnings_def)
qed

lemma round_frame [frame, simp]:
  "parameters (closeRound p) = parameters p" "account (closeRound p) = account p" "no_outcome (closeRound p) = no_outcome p"
  "parameters (why_round p) = parameters p" "account (why_round p) = account p" "no_outcome (why_round p) = no_outcome p"
  "account (countIdle p) = account p" "no_outcome (countIdle p) = no_outcome p"
  "parameters (clear_stop p) = parameters p" "account (clear_stop p) = account p" "no_outcome (clear_stop p) = no_outcome p"
  by (simp_all add: closeRound_def why_round_def countIdle_def clear_stop_def Let_def account_outcome paid_of_map)

lemma wait_frame [frame, simp]:
  "parameters (fst (waitRetry w p)) = parameters p" "account (fst (waitRetry w p)) = account p"
  "no_outcome (fst (waitRetry w p)) = no_outcome p"
proof -
  have "no_outcome (timeUp q) = no_outcome q" for q by (simp add: timeUp_def Let_def)
  then show "parameters (fst (waitRetry w p)) = parameters p" "account (fst (waitRetry w p)) = account p"
    "no_outcome (fst (waitRetry w p)) = no_outcome p"
    by (simp_all add: waitRetry_def split: waited.split)
qed

section \<open>The steps of a run\<close>

text \<open>
  A split ends with the result of its rebalance, run on the node as it is then, in any environment in
  which payments are shown at their routes' fees; or with a failure, if its goroutine panics.
\<close>

inductive split_result :: "channel_id \<times> u64 \<times> Rebalance \<Rightarrow> Result \<Rightarrow> bool" where
  ran: "honest_pay env \<Longrightarrow>
    split_result (i, a, r) ((snd (Run env (r\<lparr>rb_Node := n\<rparr>)))\<lparr>Requested := a, Candidate := i\<rparr>)"
| panicked: "split_result (i, a, r) ((NewResult ''failure'' (a div 1000) out inc)\<lparr>Requested := a, Candidate := i\<rparr>)"

text \<open>
  A result of any split in flight arrives; the other goroutines change the node; the time limit
  passes; or, with nothing in flight, another round starts.
\<close>

inductive run_step :: "Par \<Rightarrow> Par \<Rightarrow> bool" where
  arrives: "flights p = fs @ f # gs \<Longrightarrow> split_result f res \<Longrightarrow> run_step p (handle_result pe res (p\<lparr>flights := fs @ gs\<rparr>))"
| others: "run_step p (p\<lparr>p_Node := n\<rparr>)"
| deadline: "maxTime p > 0 \<Longrightarrow> run_step p (timeUp p)"
| next_round: "splitsInFlight p = 0 \<Longrightarrow> anotherRound pe w (closeRound p) = (q, True) \<Longrightarrow>
    run_step p (q\<lparr>rounds := rounds q + 1\<rparr>)"

inductive run_reachable :: "Par \<Rightarrow> bool" where
  called: "prepare_run pe k n = Inr p \<Longrightarrow> run_reachable (start_wait pe' p)"
| stepped: "run_reachable p \<Longrightarrow> run_step p q \<Longrightarrow> run_reachable q"

text \<open>What a split's result can say.\<close>

lemma split_result_bounds:
  assumes "split_result (i, a, r) res" "split_of a limit r"
  shows "Requested res = a" "Candidate res = i"
    "Status res = ''success'' \<Longrightarrow> AmountMsat_moved res \<le> a \<and> res_Fee res \<le> MaxFeeForPPM a limit"
proof -
  have "Requested res = a \<and> Candidate res = i \<and>
      (Status res = ''success'' \<longrightarrow> AmountMsat_moved res \<le> a \<and> res_Fee res \<le> MaxFeeForPPM a limit)"
    using assms(1)
  proof (cases rule: split_result.cases)
    case (ran env n)
    have "AmountMsat_moved res \<le> a \<and> res_Fee res \<le> MaxFeeForPPM a limit" if "Status res = ''success''"
    proof -
      from ran that have "paid_result (r\<lparr>rb_Node := n\<rparr>) (snd (Run env (r\<lparr>rb_Node := n\<rparr>)))" by (intro Run_pays) simp_all
      note b = paid_result_bounds [OF this]
      have "MaxFeeForPPM a (MaxPPM r) \<le> MaxFeeForPPM a limit"
        using assms(2) MaxFeeForPPM_mono [of a a "MaxPPM r" limit] by (cases "a = 0") (simp_all add: split_of_def MaxFeeForPPM_def)
      then show ?thesis using b ran assms(2) by (auto simp: split_of_def)
    qed
    with ran show ?thesis by simp
  next
    case panicked
    then show ?thesis by (simp add: NewResult_def)
  qed
  then show "Requested res = a" "Candidate res = i"
    "Status res = ''success'' \<Longrightarrow> AmountMsat_moved res \<le> a \<and> res_Fee res \<le> MaxFeeForPPM a limit" by blast+
qed

section \<open>The account\<close>

definition in_flight :: "Par \<Rightarrow> nat" where
  "in_flight p = (\<Sum>(i, a, r)\<leftarrow>flights p. unat a)"

definition worst_in_flight :: "Par \<Rightarrow> nat" where
  "worst_in_flight p = (\<Sum>(i, a, r)\<leftarrow>flights p. unat (worstFee p a))"

text \<open>A budget of \<^const>\<open>MaxUint64\<close> is what \<^const>\<open>setMaxFee\<close> makes of one that does not fit in 64 bits: every sum
  is within it, so it limits nothing.\<close>

definition has_budget :: "Par \<Rightarrow> bool" where
  "has_budget p \<longleftrightarrow> maxFeeMsat p \<noteq> 0 \<and> maxFeeMsat p \<noteq> MaxUint64"

text \<open>
  The counts are those of the splits in flight; what moved, with what is in flight, stays within the
  round's goal; the fees reserved are the most that the splits in flight can cost, and with those
  paid they stay within the budget.
\<close>

definition account_ok :: "Par \<Rightarrow> bool" where
  "account_ok p \<longleftrightarrow>
     splitsInFlight p = int (length (flights p)) \<and> splitsInFlight p \<le> splits p \<and>
     unat (InFlightAmount p) = in_flight p \<and>
     unat (AmountRebalanced p) + in_flight p \<le> unat (roundGoal p) \<and>
     (\<forall>(i, a, r) \<in> set (flights p). split_of a (maxPPM p) r) \<and>
     (has_budget p \<longrightarrow> unat (feeReserved p) = worst_in_flight p \<and>
        unat (feesPaid p) + worst_in_flight p \<le> unat (maxFeeMsat p))"

lemma account_ok_cong:
  assumes "parameters q = parameters p" "account q = account p"
  shows "account_ok q = account_ok p"
proof -
  have "roundGoal q = roundGoal p" "worstFee q a = worstFee p a" for a
    using assms(1) by (simp_all add: parameters_def roundGoal_def worstFee_def)
  with assms show ?thesis
    by (simp add: account_ok_def parameters_def account_def in_flight_def worst_in_flight_def has_budget_def)
qed

lemma FireCandidates_keeps:
  assumes "P p" "\<And>p q fired. P p \<Longrightarrow> may_fire p \<Longrightarrow> fire_once pe p = (q, fired) \<Longrightarrow> P q"
  shows "P (FireCandidates pe p)"
  using assms
proof (induction pe p rule: FireCandidates.induct)
  case (1 pe p)
  obtain q fired where once: "fire_once pe p = (q, fired)" by fastforce
  show ?case
  proof (cases "may_fire p")
    case True
    note keep = "1.prems"(2) [OF "1.prems"(1) True once]
    show ?thesis
    proof (cases fired)
      case fires: True
      from "1.IH" [OF True once [symmetric] refl fires keep "1.prems"(2)]
      show ?thesis using True once fires by (simp add: FireCandidates.simps [of pe p])
    next
      case False
      then show ?thesis using True once keep by (simp add: FireCandidates.simps [of pe p])
    qed
  next
    case False
    then show ?thesis using "1.prems"(1) by (simp add: FireCandidates.simps [of pe p])
  qed
qed

lemma unat_split_size:
  assumes "unat (AmountRebalanced p) + unat (InFlightAmount p) \<le> unat (roundGoal p)"
  shows "unat (AmountRebalanced p) + unat (InFlightAmount p) + unat (split_size p) \<le> unat (roundGoal p)"
proof -
  let ?rest = "roundGoal p - AmountRebalanced p - InFlightAmount p"
  have "unat ?rest = unat (roundGoal p) - unat (AmountRebalanced p) - unat (InFlightAmount p)"
    using assms by (simp add: unat_u64_sub_exact u64_le_iff)
  moreover have "split_size p \<le> ?rest" by (auto simp: split_size_def Let_def)
  ultimately show ?thesis using assms by (simp add: u64_le_iff)
qed

text \<open>A split that is fired.\<close>

lemma fire_once_account_ok:
  assumes ok: "account_ok p" and may: "may_fire p" and once: "fire_once pe p = (q, fired)"
  shows "account_ok q"
proof (cases fired)
  case False
  then show ?thesis using ok account_ok_cong fire_once_account(1,2) [OF once] by blast
next
  case True
  let ?a = "split_size p"
  have par: "parameters q = parameters p" by (rule fire_once_account(1) [OF once])
  obtain i r where r: "split_of ?a (maxPPM p) r" and acc: "account q = ((AmountRebalanced p, InFlightAmount p + ?a, splitsInFlight p + 1),
      (if maxFeeMsat p > 0 then addSaturating_parallel (feeReserved p) (worstFee p ?a) else feeReserved p, feesPaid p),
      flights p @ [(i, ?a, r)])"
    and fits: "withinBudget p ?a"
    using fire_once_account(3) [OF once True] by blast
  have f: "AmountRebalanced q = AmountRebalanced p" "InFlightAmount q = InFlightAmount p + ?a"
    "splitsInFlight q = splitsInFlight p + 1" "flights q = flights p @ [(i, ?a, r)]" "feesPaid q = feesPaid p"
    "feeReserved q = (if maxFeeMsat p > 0 then addSaturating_parallel (feeReserved p) (worstFee p ?a) else feeReserved p)"
    using acc by (simp_all add: account_def)
  have g: "roundGoal q = roundGoal p" "maxPPM q = maxPPM p" "splits q = splits p" "maxFeeMsat q = maxFeeMsat p"
    "worstFee q a = worstFee p a" "has_budget q = has_budget p" for a
    using par by (simp_all add: parameters_def roundGoal_def worstFee_def has_budget_def)
  have size: "unat (AmountRebalanced p) + unat (InFlightAmount p) + unat ?a \<le> unat (roundGoal p)"
    using ok by (intro unat_split_size) (simp add: account_ok_def)
  then have "unat (InFlightAmount p) + unat ?a < 2 ^ 64" using unat_u64_lt_pow [of "roundGoal p"] by linarith
  then have inflight: "unat (InFlightAmount q) = in_flight q"
    using ok by (simp add: f in_flight_def account_ok_def unat_u64_add_exact)
  have budget: "unat (feeReserved q) = worst_in_flight q \<and> unat (feesPaid q) + worst_in_flight q \<le> unat (maxFeeMsat q)"
    if "has_budget p"
  proof -
    have b: "unat (feeReserved p) = worst_in_flight p" "maxFeeMsat p > 0" "unat (maxFeeMsat p) < 2 ^ 64 - 1"
      using ok that by (simp_all add: account_ok_def has_budget_def u64_neq_Max_iff word_gt_0)
    have "min (min (unat (feesPaid p) + unat (feeReserved p)) (2 ^ 64 - 1) + unat (worstFee p ?a)) (2 ^ 64 - 1) \<le> unat (maxFeeMsat p)"
      using fits that by (simp add: withinBudget_def has_budget_def u64_le_iff unat_specs)
    with b(3) have "unat (feesPaid p) + unat (feeReserved p) + unat (worstFee p ?a) \<le> unat (maxFeeMsat p)"
      by (simp add: min_def split: if_splits)
    moreover have "worst_in_flight q = worst_in_flight p + unat (worstFee p ?a)"
      by (simp add: worst_in_flight_def f g)
    moreover have "unat (feeReserved q) = unat (feeReserved p) + unat (worstFee p ?a)"
      using b calculation(1) by (simp add: f unat_specs min_def)
    ultimately show ?thesis using b by (simp add: f g)
  qed
  show ?thesis
    using ok may r inflight size budget
    by (auto simp: account_ok_def f(1,3,4) g may_fire_def in_flight_def)
qed

lemma FireCandidates_account_ok: "account_ok p \<Longrightarrow> account_ok (FireCandidates pe p)"
  by (rule FireCandidates_keeps [where P = account_ok]) (auto intro: fire_once_account_ok)

text \<open>A result that arrives.\<close>

lemma sum_split: "(\<Sum>x\<leftarrow>fs @ f # gs. h x) = (\<Sum>x\<leftarrow>fs @ gs. h x) + (h f :: nat)"
  by simp

lemma arrives_account_ok:
  assumes ok: "account_ok p" and out: "\<not> no_outcome p" and fl: "flights p = fs @ f # gs" and res: "split_result f res"
  shows "account_ok (note_result_of pe res (p\<lparr>flights := fs @ gs\<rparr>))"
proof -
  obtain i a r where fe: "f = (i, a, r)" by (cases f)
  let ?p = "p\<lparr>flights := fs @ gs\<rparr>" let ?q = "note_result_of pe res ?p"
  let ?s = "Status res = ''success''"
  have r: "split_of a (maxPPM p) r" using ok fl fe by (auto simp: account_ok_def)
  note b = split_result_bounds [OF res [unfolded fe] r]
  have par: "parameters ?q = parameters p"
    using note_result_of_account(1) [of ?p pe res] out by (simp add: parameters_def)
  have w: "worstFee ?p x = worstFee p x" for x by (simp add: worstFee_def)
  have f: "AmountRebalanced ?q = (if ?s then AmountRebalanced p + AmountMsat_moved res else AmountRebalanced p)"
    "InFlightAmount ?q = InFlightAmount p - a" "splitsInFlight ?q = splitsInFlight p - 1" "flights ?q = fs @ gs"
    "feeReserved ?q = released (maxFeeMsat p) (worstFee p a) (feeReserved p)"
    "feesPaid ?q = (if ?s then feesPaid p + res_Fee res else feesPaid p)"
    using note_result_of_account(2) [of ?p pe res] out b(1) w by (simp_all add: account_def feesPaid_def)
  have g: "roundGoal ?q = roundGoal p" "maxPPM ?q = maxPPM p" "splits ?q = splits p" "maxFeeMsat ?q = maxFeeMsat p"
    "worstFee ?q x = worstFee p x" "has_budget ?q = has_budget p" for x
    using par by (simp_all add: parameters_def roundGoal_def worstFee_def has_budget_def)
  have fly: "in_flight p = in_flight ?q + unat a" "worst_in_flight p = worst_in_flight ?q + unat (worstFee p a)"
    using fe by (simp_all add: in_flight_def worst_in_flight_def f g fl)
  have inflight: "unat (InFlightAmount ?q) = in_flight ?q"
    using ok fly(1) by (simp add: f account_ok_def unat_u64_sub_exact u64_le_iff)
  have goal: "unat (AmountRebalanced p) + in_flight p \<le> unat (roundGoal p)" using ok by (simp add: account_ok_def)
  have moved: "unat (AmountRebalanced ?q) + in_flight ?q \<le> unat (roundGoal p)"
  proof (cases ?s)
    case True
    then have le: "unat (AmountMsat_moved res) \<le> unat a" using b(3) by (simp add: u64_le_iff)
    then have "unat (AmountRebalanced p) + unat (AmountMsat_moved res) < 2 ^ 64"
      using goal fly(1) unat_u64_lt_pow [of "roundGoal p"] by linarith
    then show ?thesis using True le goal fly(1) by (simp add: f unat_u64_add_exact)
  next
    case False
    then show ?thesis using goal fly(1) by (simp add: f)
  qed
  have budget: "unat (feeReserved ?q) = worst_in_flight ?q \<and> unat (feesPaid ?q) + worst_in_flight ?q \<le> unat (maxFeeMsat ?q)"
    if hb: "has_budget p"
  proof -
    have l: "unat (feeReserved p) = worst_in_flight p" "unat (feesPaid p) + worst_in_flight p \<le> unat (maxFeeMsat p)"
      "maxFeeMsat p \<noteq> 0"
      using ok hb by (simp_all add: account_ok_def has_budget_def)
    have "unat (feeReserved ?q) = worst_in_flight ?q"
      using l(1,3) fly(2) by (auto simp: f released_def unat_u64_sub_exact u64_less_iff u64_le_iff)
    moreover have "unat (feesPaid ?q) + worst_in_flight ?q \<le> unat (maxFeeMsat p)"
    proof (cases ?s)
      case True
      then have le: "unat (res_Fee res) \<le> unat (worstFee p a)" using b(3) by (simp add: worstFee_def u64_le_iff)
      then have "unat (feesPaid p) + unat (res_Fee res) < 2 ^ 64"
        using l(2) fly(2) unat_u64_lt_pow [of "maxFeeMsat p"] by linarith
      then show ?thesis using True le l(2) fly(2) by (simp add: f unat_u64_add_exact)
    next
      case False
      then show ?thesis using l(2) fly(2) by (simp add: f)
    qed
    ultimately show ?thesis by (simp add: g)
  qed
  show ?thesis
    using ok inflight moved budget fl
    by (auto simp: account_ok_def f(3,4) g)
qed

lemma handle_result_account_ok:
  assumes "account_ok p" "\<not> no_outcome p" "flights p = fs @ f # gs" "split_result f res"
  shows "account_ok (handle_result pe res (p\<lparr>flights := fs @ gs\<rparr>))"
  unfolding handle_result_def by (intro FireCandidates_account_ok arrives_account_ok [OF assms])

text \<open>A round that starts, with nothing in flight.\<close>

lemma probeSize_le: "AmountRebalanced p \<le> amount p \<Longrightarrow> unat (AmountRebalanced p) + unat (probeSize p) \<le> unat (amount p)"
proof -
  assume "AmountRebalanced p \<le> amount p"
  then have left: "unat (amount p - AmountRebalanced p) = unat (amount p) - unat (AmountRebalanced p)"
    by (simp add: unat_u64_sub_exact)
  have "probeSize p \<le> amount p - AmountRebalanced p"
    by (auto simp: probeSize_def Let_def not_less)
  then show ?thesis using left \<open>AmountRebalanced p \<le> amount p\<close> by (simp add: u64_le_iff)
qed

lemma begin_round_account:
  "account (begin_round x b p) = account p" "no_outcome (begin_round x b p) = no_outcome p"
proof -
  let ?q = "let p = p\<lparr>maxPPM := x, stepProbe := b, roundGoalMsat := 0\<rparr>;
          p = (if b then p\<lparr>roundGoalMsat := AmountRebalanced p + probeSize p\<rparr> else p) in
      p\<lparr>roundStartMoved := AmountRebalanced p, roundStartFees := feesPaid p, roundMaxPaid := 0,
                roundTopLimit := 0, roundMost := 0, roundCheapest := 0, roundPriced := False, roundLeftOut := False,
                failStreak := 0, streakStopped := False, targetStopped := False, halt := False\<rparr>"
  have q: "account ?q = account p" "outcome ?q = outcome p" by (simp_all add: Let_def account_def feesPaid_def)
  have "account (clear_stop ?q) = account p" "no_outcome (clear_stop ?q) = no_outcome p"
    using q by simp_all
  then show "account (begin_round x b p) = account p" "no_outcome (begin_round x b p) = no_outcome p"
    unfolding begin_round_def Let_def by (simp_all add: account_def feesPaid_def)
qed

lemma begin_round_fields:
  "amount (begin_round x b p) = amount p" "splits (begin_round x b p) = splits p" "maxPPM (begin_round x b p) = x"
  "maxFeeMsat (begin_round x b p) = maxFeeMsat p"
  "roundGoalMsat (begin_round x b p) = (if b then AmountRebalanced p + probeSize (p\<lparr>maxPPM := x, stepProbe := b, roundGoalMsat := 0\<rparr>) else 0)"
  "capPPM (begin_round x b p) = capPPM p" "stepPPM (begin_round x b p) = stepPPM p"
  "maxIdleRounds (begin_round x b p) = maxIdleRounds p" "idleRounds (begin_round x b p) = idleRounds p"
  "roundStartMoved (begin_round x b p) = AmountRebalanced p" "kind (begin_round x b p) = kind p"
  by (simp_all add: begin_round_def clear_stop_def Let_def)

lemma roundGoal_le: "roundGoal p \<le> amount p"
  by (auto simp: roundGoal_def not_less)

lemma begin_round_account_ok:
  assumes ok: "account_ok p" and none: "splitsInFlight p = 0"
  shows "account_ok (begin_round x b p)"
proof -
  let ?q = "begin_round x b p"
  have fl: "flights p = []" using ok none by (simp add: account_ok_def)
  have f: "AmountRebalanced ?q = AmountRebalanced p" "InFlightAmount ?q = InFlightAmount p" "splitsInFlight ?q = splitsInFlight p"
    "flights ?q = []" "feeReserved ?q = feeReserved p" "feesPaid ?q = feesPaid p"
    using begin_round_account(1) [of x b p] fl by (simp_all add: account_def)
  have "unat (AmountRebalanced p) \<le> unat (roundGoal p)" using ok by (simp add: account_ok_def)
  also have "\<dots> \<le> unat (amount p)" using roundGoal_le [of p] by (simp add: u64_le_iff)
  finally have le: "AmountRebalanced p \<le> amount p" by (simp add: u64_le_iff)
  have "unat (AmountRebalanced p) \<le> unat (roundGoal ?q)"
  proof -
    let ?z = "probeSize (p\<lparr>maxPPM := x, stepProbe := b, roundGoalMsat := 0\<rparr>)"
    have "unat (AmountRebalanced p) + unat ?z \<le> unat (amount p)"
      using probeSize_le [of "p\<lparr>maxPPM := x, stepProbe := b, roundGoalMsat := 0\<rparr>"] le by simp
    then have "unat (AmountRebalanced p + ?z) = unat (AmountRebalanced p) + unat ?z"
      using unat_u64_lt_pow [of "amount p"] by (intro unat_u64_add_exact) linarith
    then show ?thesis using le
      by (cases b) (auto simp: roundGoal_def begin_round_fields u64_le_iff)
  qed
  then show ?thesis
    using ok fl f none
    by (simp add: account_ok_def in_flight_def worst_in_flight_def has_budget_def begin_round_fields)
qed

lemma newRound_account_ok:
  assumes "account_ok p" "splitsInFlight p = 0"
  shows "account_ok (newRound pe x b p)"
proof -
  have "account_ok (prefetchEarnings pe (fst (FindCandidates now i (begin_round x b p)))) = account_ok (begin_round x b p)" for now i
    by (intro account_ok_cong) simp_all
  then show ?thesis using begin_round_account_ok [OF assms]
    by (simp add: newRound_def Let_def FireCandidates_account_ok)
qed

text \<open>How a round that is followed by another ends.\<close>

lemma anotherRound_True:
  assumes "anotherRound pe w p = (q, True)"
  obtains x b wait p1 where "nextStep (countIdle (why_round p)) = (x, b, wait)"
    "p1 = (if wait then fst (waitRetry w (countIdle (why_round p))) else countIdle (why_round p))"
    "q = newRound pe x b p1" "\<not> round_over p"
    "\<not> (maxIdleRounds p > 0 \<and> idleRounds (countIdle (why_round p)) \<ge> maxIdleRounds p)"
proof -
  obtain x b wait where n: "nextStep (countIdle (why_round p)) = (x, b, wait)" by (rule prod_cases3)
  have m: "maxIdleRounds (countIdle (why_round p)) = maxIdleRounds p"
    by (simp add: countIdle_def why_round_def)
  show ?thesis
    using assms that [OF n refl]
    by (auto simp: anotherRound_def Let_def n m split: if_splits prod.splits)
qed

lemma account_ok_idle: "account_ok (countIdle (why_round p)) = account_ok p"
proof -
  have "account_ok (p\<lparr>idleRounds := z\<rparr>) = account_ok p" for z p
    by (simp add: account_ok_def in_flight_def worst_in_flight_def has_budget_def roundGoal_def worstFee_def feesPaid_def)
  then have "account_ok (countIdle q) = account_ok q" for q by (simp add: countIdle_def)
  moreover have "account_ok (why_round p) = account_ok p" by (intro account_ok_cong) simp_all
  ultimately show ?thesis by simp
qed

lemma next_round_account_ok:
  assumes ok: "account_ok p" and none: "splitsInFlight p = 0" and another: "anotherRound pe w (closeRound p) = (q, True)"
  shows "account_ok (q\<lparr>rounds := rounds q + 1\<rparr>)"
proof -
  obtain x b wait p1 where p1: "p1 = (if wait then fst (waitRetry w (countIdle (why_round (closeRound p)))) else countIdle (why_round (closeRound p)))"
    and q: "q = newRound pe x b p1"
    using another by (rule anotherRound_True)
  have "account_ok p1 = account_ok (countIdle (why_round (closeRound p)))"
    by (intro account_ok_cong) (simp_all add: p1)
  also have "\<dots> = account_ok (closeRound p)" by (rule account_ok_idle)
  also have "\<dots> = account_ok p" by (intro account_ok_cong) simp_all
  finally have "account_ok p1" using ok by simp
  moreover have "account p1 = account p" by (simp add: p1)
  then have "splitsInFlight p1 = 0" using none by (simp add: account_def)
  ultimately have "account_ok q" using newRound_account_ok q by simp
  then show ?thesis by (subst account_ok_cong) simp_all
qed

section \<open>Prepared runs\<close>

text \<open>A default changes one field: the others are read past it.\<close>

lemma if_update_field:
  "(if c then p\<lparr>amount := x\<rparr> else p) = p\<lparr>amount := if c then x else amount p\<rparr>"
  "(if c then p\<lparr>splits := z\<rparr> else p) = p\<lparr>splits := if c then z else splits p\<rparr>"
  "(if c then p\<lparr>splitAmount := x\<rparr> else p) = p\<lparr>splitAmount := if c then x else splitAmount p\<rparr>"
  "(if c then p\<lparr>minSplit := x\<rparr> else p) = p\<lparr>minSplit := if c then x else minSplit p\<rparr>"
  "(if c then p\<lparr>maxPPM := x\<rparr> else p) = p\<lparr>maxPPM := if c then x else maxPPM p\<rparr>"
  "(if c then p\<lparr>p_attempts := z\<rparr> else p) = p\<lparr>p_attempts := if c then z else p_attempts p\<rparr>"
  "(if c then p\<lparr>p_maxHops := z\<rparr> else p) = p\<lparr>p_maxHops := if c then z else p_maxHops p\<rparr>"
  "(if c then p\<lparr>maxTime := z\<rparr> else p) = p\<lparr>maxTime := if c then z else maxTime p\<rparr>"
  "(if c then p\<lparr>probeMsat := x\<rparr> else p) = p\<lparr>probeMsat := if c then x else probeMsat p\<rparr>"
  "(if c then p\<lparr>DepleteUpToPercent := f\<rparr> else p) = p\<lparr>DepleteUpToPercent := if c then f else DepleteUpToPercent p\<rparr>"
  "(if c then p\<lparr>DepleteUpToAmount := x\<rparr> else p) = p\<lparr>DepleteUpToAmount := if c then x else DepleteUpToAmount p\<rparr>"
  "(if c then p\<lparr>MaxOutPPM := x\<rparr> else p) = p\<lparr>MaxOutPPM := if c then x else MaxOutPPM p\<rparr>"
  "(if c then p\<lparr>FillUpToPercent := f\<rparr> else p) = p\<lparr>FillUpToPercent := if c then f else FillUpToPercent p\<rparr>"
  "(if c then p\<lparr>FillUpToAmount := x\<rparr> else p) = p\<lparr>FillUpToAmount := if c then x else FillUpToAmount p\<rparr>"
  "(if c then p\<lparr>MinOutPPM := x\<rparr> else p) = p\<lparr>MinOutPPM := if c then x else MinOutPPM p\<rparr>"
  by simp_all

lemma setGenericDefaults_fields:
  "splits (setGenericDefaults p) = (if splits p = 0 then DEFAULT_SPLITS else splits p)"
  "maxPPM (setGenericDefaults p) = (if maxPPM p = 0 then DEFAULT_MAXPPM else maxPPM p)"
  "p_attempts (setGenericDefaults p) =
     (if p_attempts p \<le> 0 then OrDefault (def_Attempts (node_Defaults (p_Node p))) DEFAULT_ATTEMPTS else p_attempts p)"
  "p_maxHops (setGenericDefaults p) =
     (if p_maxHops p \<le> 0 then OrDefault (def_MaxHops (node_Defaults (p_Node p))) DEFAULT_MAXHOPS else p_maxHops p)"
  "account (setGenericDefaults p) =
     ((0, 0, splitsInFlight p), (feeReserved p, feesPaid p), flights p)"
  by (simp_all add: setGenericDefaults_def Let_def if_update_field account_def feesPaid_def)

definition fresh_account :: "Par \<Rightarrow> bool" where
  "fresh_account p \<longleftrightarrow> account p = ((0, 0, 0), (0, 0), [])"

lemma set_frame [frame, simp]:
  "account (setMaxTime k p) = account p" "account (setMaxFee k p) = account p"
  "account (setFeeRatio now x p) = account p" "account (setRetryEvery k p) = account p"
  "account (pull_setDefaults p) = account p" "account (push_setDefaults p) = account p"
  "account (setMaxIdleRounds k p) = account p" "account (setProbeFailStreak k p) = account p"
  by (simp_all add: setMaxTime_def setMaxFee_def setFeeRatio_def setRetryEvery_def pull_setDefaults_def push_setDefaults_def
      setMaxIdleRounds_def setProbeFailStreak_def Let_def account_def feesPaid_def)

lemma setStepping_frame: "setStepping s c x p = Some q \<Longrightarrow> account q = account p"
proof -
  assume "setStepping s c x p = Some q"
  moreover have "account (p'\<lparr>stepPPM := a, capPPM := b, probeMsat := z\<rparr>) = account p'" for p' a b z
    by (simp add: account_def feesPaid_def)
  moreover have "account (p'\<lparr>stepPPM := a, capPPM := b\<rparr>) = account p'" "account (p'\<lparr>probeMsat := z\<rparr>) = account p'" for p' a b z
    by (simp_all add: account_def feesPaid_def)
  ultimately show "account q = account p" by (auto simp: setStepping_def Let_def split: if_splits)
qed

lemma find_target_frame: "find_target now scid p = Inr q \<Longrightarrow> account q = account p"
  by (auto simp: find_target_def account_def feesPaid_def split: sum.splits)

lemma set_parameters_frame [simp]: "account (set_parameters now k p) = account p"
proof -
  have "account (q\<lparr>MaxOutPPM := x\<rparr>) = account q" "account (q\<lparr>MinOutPPM := x\<rparr>) = account q" for q x
    by (simp_all add: account_def feesPaid_def)
  then show ?thesis by (simp add: set_parameters_def Let_def split: kind.split)
qed

lemma Init_Some:
  assumes "Init p = Some q"
  shows "account q = ((0, 0, splitsInFlight p), (feeReserved p, feesPaid p), flights p)" "0 < splits q"
proof -
  let ?p = "p\<lparr>TotalAttempts := 0, routes := Map.empty, launched := Map.empty, retried := {}\<rparr>"
  have q: "q = setGenericDefaults ?p" "\<not> splits q < 0"
    using assms by (auto simp: Init_def Let_def split: if_splits)
  then have "splits q = (if splits p = 0 then DEFAULT_SPLITS else splits p)"
    by (simp add: setGenericDefaults_fields)
  then show "0 < splits q" using q(2) by (auto simp: DEFAULT_SPLITS_def split: if_splits)
  show "account q = ((0, 0, splitsInFlight p), (feeReserved p, feesPaid p), flights p)"
    by (simp add: q(1) setGenericDefaults_fields feesPaid_def)
qed

text \<open>The stages of \<^const>\<open>prepare_run\<close>.\<close>

lemma prepare_run_stages:
  assumes "prepare_run pe k n = Inr p"
  obtains p0 p1 p2 p3 where "Init (new_run k n) = Some p0"
    "setStepping (k_StepPPM k) (k_CapPPM k) (k_Probe k) (set_parameters (pe_now pe 0) k p0) = Some p1"
    "p2 = setProbeFailStreak (k_ProbeFailStreak k) (setMaxIdleRounds (k_MaxIdleRounds k) p1)"
    "validateParameters p2 = Accepted" "find_target (pe_now pe 0) (k_scid k) p2 = Inr p3"
    "snd (FindCandidates (pe_now pe 0) (excludePeer p3) p3) = None"
    "p = prefetchEarnings pe (fst (FindCandidates (pe_now pe 0) (excludePeer p3) p3))"
proof -
  obtain p0 where p0: "Init (new_run k n) = Some p0"
    using assms by (auto simp: prepare_run_def Let_def split: if_splits option.splits)
  obtain p1 where p1: "setStepping (k_StepPPM k) (k_CapPPM k) (k_Probe k) (set_parameters (pe_now pe 0) k p0) = Some p1"
    using assms by (auto simp: prepare_run_def Let_def p0 split: if_splits option.splits)
  define p2 where "p2 = setProbeFailStreak (k_ProbeFailStreak k) (setMaxIdleRounds (k_MaxIdleRounds k) p1)"
  have v: "validateParameters p2 = Accepted"
    using assms by (auto simp: prepare_run_def Let_def p0 p1 p2_def [symmetric] split: if_splits checked.splits)
  obtain p3 where p3: "find_target (pe_now pe 0) (k_scid k) p2 = Inr p3"
    using assms by (auto simp: prepare_run_def Let_def p0 p1 p2_def [symmetric] v split: if_splits sum.splits)
  obtain p4 e where p4: "FindCandidates (pe_now pe 0) (excludePeer p3) p3 = (p4, e)" by fastforce
  have "e = None" "p = prefetchEarnings pe p4"
    using assms by (auto simp: prepare_run_def Let_def p0 p1 p2_def [symmetric] v p3 p4 split: if_splits option.splits)
  with that [OF p0 p1 p2_def v p3] p4 show ?thesis by simp
qed

lemma prepare_fresh: "prepare_run pe k n = Inr p \<Longrightarrow> fresh_account p"
proof -
  assume "prepare_run pe k n = Inr p"
  then obtain p0 p1 p2 p3 where "Init (new_run k n) = Some p0"
    "setStepping (k_StepPPM k) (k_CapPPM k) (k_Probe k) (set_parameters (pe_now pe 0) k p0) = Some p1"
    "p2 = setProbeFailStreak (k_ProbeFailStreak k) (setMaxIdleRounds (k_MaxIdleRounds k) p1)"
    "find_target (pe_now pe 0) (k_scid k) p2 = Inr p3"
    "p = prefetchEarnings pe (fst (FindCandidates (pe_now pe 0) (excludePeer p3) p3))"
    by (rule prepare_run_stages)
  moreover from this(1) have "fresh_account p0" by (simp add: fresh_account_def Init_Some(1) new_run_def feesPaid_def)
  ultimately show ?thesis
    by (simp add: fresh_account_def setStepping_frame find_target_frame)
qed

text \<open>What the rest of the preparation leaves alone of the parameters.\<close>

lemma splits_set [simp]:
  "splits (setMaxTime k p) = splits p" "splits (setMaxFee k p) = splits p"
  "splits (setFeeRatio now f p) = splits p" "splits (setRetryEvery k p) = splits p"
  "splits (pull_setDefaults p) = splits p" "splits (push_setDefaults p) = splits p"
  "splits (setMaxIdleRounds k p) = splits p" "splits (setProbeFailStreak k p) = splits p"
  by (simp_all add: setMaxTime_def setMaxFee_def setFeeRatio_def setRetryEvery_def pull_setDefaults_def push_setDefaults_def
      setMaxIdleRounds_def setProbeFailStreak_def Let_def if_update_field)

lemma splits_kept [simp]:
  "splits (set_parameters now k p) = splits p"
  by (simp add: set_parameters_def Let_def split: kind.split)

lemma splits_stages:
  "setStepping s c z p = Some q \<Longrightarrow> splits q = splits p" "find_target now i p = Inr q \<Longrightarrow> splits q = splits p"
  by (auto simp: setStepping_def find_target_def Let_def split: if_splits sum.splits)

lemma found_parameters:
  "parameters (prefetchEarnings pe (fst (FindCandidates now i p))) = parameters p"
  by simp

lemma prepare_account_ok:
  assumes "prepare_run pe k n = Inr p"
  shows "account_ok p"
proof -
  obtain p0 p1 p2 p3 where s: "Init (new_run k n) = Some p0"
    "setStepping (k_StepPPM k) (k_CapPPM k) (k_Probe k) (set_parameters (pe_now pe 0) k p0) = Some p1"
    "p2 = setProbeFailStreak (k_ProbeFailStreak k) (setMaxIdleRounds (k_MaxIdleRounds k) p1)"
    "find_target (pe_now pe 0) (k_scid k) p2 = Inr p3"
    "p = prefetchEarnings pe (fst (FindCandidates (pe_now pe 0) (excludePeer p3) p3))"
    using assms by (rule prepare_run_stages)
  have "parameters p = parameters p3" unfolding s(5) by (rule found_parameters)
  then have "splits p = splits p3" by (simp add: parameters_def)
  then have "0 < splits p" using Init_Some(2) [OF s(1)] splits_stages(1) [OF s(2)] splits_stages(2) [OF s(4)] s(3)
    by simp
  then show ?thesis using prepare_fresh [OF assms]
    by (simp add: account_ok_def fresh_account_def account_def in_flight_def worst_in_flight_def)
qed

lemma start_wait_account_ok:
  assumes "prepare_run pe k n = Inr p"
  shows "account_ok (start_wait pe' p)" "\<not> no_outcome (start_wait pe' p)"
proof -
  have "account_ok (FireCandidates pe' p)" by (intro FireCandidates_account_ok prepare_account_ok [OF assms])
  then show "account_ok (start_wait pe' p)"
    by (auto simp: start_wait_def account_ok_def in_flight_def worst_in_flight_def has_budget_def roundGoal_def
        worstFee_def feesPaid_def NewRunResult_def)
  show "\<not> no_outcome (start_wait pe' p)" by (simp add: start_wait_def)
qed

section \<open>What firing does not touch\<close>

text \<open>A view of a run that none of the fields that firing changes shows.\<close>

locale bystander =
  fixes view :: "Par \<Rightarrow> 'v"
  assumes fields [simp]:
    "view (p\<lparr>Queue := cs\<rparr>) = view p" "view (p\<lparr>gone := gs\<rparr>) = view p" "view (p\<lparr>feeratioSkipped := ss\<rparr>) = view p"
    "view (p\<lparr>earnings := es\<rparr>) = view p" "view (p\<lparr>heldByStop := b\<rparr>) = view p" "view (p\<lparr>feeStopped := b\<rparr>) = view p"
    "view (p\<lparr>roundTopLimit := x\<rparr>) = view p" "view (p\<lparr>roundMost := x\<rparr>) = view p" "view (p\<lparr>candidateSide := sd\<rparr>) = view p"
    "view (p\<lparr>launched := ls\<rparr>) = view p" "view (p\<lparr>flights := fs\<rparr>) = view p" "view (p\<lparr>firstStop := st\<rparr>) = view p"
    "view (p\<lparr>fireSeq := k\<rparr>) = view p" "view (p\<lparr>firedAt := m\<rparr>) = view p" "view (p\<lparr>probeSeq := k\<rparr>) = view p"
    "view (p\<lparr>InFlightAmount := x\<rparr>) = view p" "view (p\<lparr>splitsInFlight := k\<rparr>) = view p" "view (p\<lparr>feeReserved := x\<rparr>) = view p"
    "view (p\<lparr>outcome := map_option f (outcome p)\<rparr>) = view p"
begin

lemma noteStop: "view (noteStop why p) = view p"
proof -
  have "view (on_outcome f (p\<lparr>firstStop := st\<rparr>)) = view p" for f st
    using fields(19) [where p = "p\<lparr>firstStop := st\<rparr>" and f = f] by simp
  then show ?thesis by (simp add: noteStop_def Let_def)
qed

lemma splitEconomics: "view (fst (splitEconomics pe p c)) = view p"
  by (simp add: splitEconomics_def earns_def keepEarning_def Let_def split_beta split: option.split)

lemma next_candidate: "view (fst (next_candidate pe cs p)) = view p"
proof (induction cs arbitrary: p)
  case (Cons c cs)
  have "view (fst (notWorth pe q c)) = view q" for q
    by (simp add: notWorth_def Let_def split_beta splitEconomics)
  with Cons show ?case by (simp add: leftQueue_def Let_def split_beta split: sum.split option.split)
qed simp

lemma Fire: "view (Fire pe c a p) = view p"
proof -
  have "view (fst (newSplit pe out inc c a q)) = view q" for out inc q
    by (simp add: newSplit_def Let_def split_beta splitEconomics)
  then have "view (launch pe out inc c a q) = view q" for out inc q
    unfolding launch_def Let_def split_beta fields by simp
  then show ?thesis by (simp add: Fire_def split: kind.split)
qed

lemma fire_once: "fire_once pe p = (q, fired) \<Longrightarrow> view q = view p"
proof -
  assume once: "fire_once pe p = (q, fired)"
  obtain p1 c where n: "GetNextCandidate pe p = (p1, c)" by fastforce
  then have p1: "view p1 = view p" using next_candidate [of pe "Queue p" p] by (simp add: GetNextCandidate_def)
  have two: "view (q\<lparr>InFlightAmount := x, splitsInFlight := k\<rparr>) = view q" "view (q\<lparr>fireSeq := k, firedAt := m\<rparr>) = view q"
    "view (q\<lparr>fireSeq := k, firedAt := m, probeSeq := k\<rparr>) = view q" for q x k m
    using fields(17) [where p = "q\<lparr>InFlightAmount := x\<rparr>" and k = k] fields(14) [where p = "q\<lparr>fireSeq := k\<rparr>" and m = m]
      fields(15) [where p = "q\<lparr>fireSeq := k, firedAt := m\<rparr>" and k = k] by simp_all
  have fired: "view (noteFired pe d r) = view r" for d r
    by (simp add: noteFired_def Let_def two)
  have reserve: "view (reserveFee a r) = view r" for a r by (simp add: reserveFee_def)
  show "view q = view p"
    using once p1
    by (auto simp: fire_once_def Let_def n Fire reserve fired noteStop two split: if_splits option.splits)
qed

lemma FireCandidates: "view (FireCandidates pe p) = view p"
  by (rule FireCandidates_keeps [where P = "\<lambda>q. view q = view p"]) (simp_all add: fire_once)

end

interpretation outcome_view: bystander no_outcome
  by unfold_locales simp_all

text \<open>What stops firing, and how many splits the target takes.\<close>

definition stops :: "Par \<Rightarrow> int \<times> bool \<times> bool \<times> bool" where
  "stops p = (targetCap p, targetStopped p, streakStopped p, timeStopped p)"

interpretation stops_view: bystander stops
  by unfold_locales (simp_all add: stops_def)

interpretation parameters_view: bystander parameters
  by unfold_locales (simp_all add: parameters_def)

section \<open>What every reachable state keeps\<close>

lemma FireCandidates_no_outcome [simp]: "no_outcome (FireCandidates pe p) = no_outcome p"
  by (rule outcome_view.FireCandidates)

lemma run_step_account_ok:
  assumes "run_step p q" "account_ok p" "\<not> no_outcome p"
  shows "account_ok q \<and> \<not> no_outcome q"
  using assms(1)
proof (cases rule: run_step.cases)
  case (arrives fs f gs res pe)
  then show ?thesis using handle_result_account_ok [OF assms(2,3)] note_result_of_account(3) [of "p\<lparr>flights := fs @ gs\<rparr>"] assms(3)
    by (simp add: handle_result_def)
next
  case (others n)
  then show ?thesis using assms(2,3) account_ok_cong [of q p] by simp
next
  case deadline
  have "no_outcome (timeUp p) = no_outcome p" by (simp add: timeUp_def Let_def)
  then show ?thesis using assms(2,3) account_ok_cong [of "timeUp p" p] deadline by simp
next
  case (next_round pe w q')
  obtain x b wait p1 where p1: "p1 = (if wait then fst (waitRetry w (countIdle (why_round (closeRound p)))) else countIdle (why_round (closeRound p)))"
    and q: "q' = newRound pe x b p1"
    using next_round(3) by (rule anotherRound_True)
  have "no_outcome p1 = no_outcome p" by (simp add: p1)
  then have "\<not> no_outcome q'" using assms(3) by (simp add: q newRound_def Let_def begin_round_account)
  then show ?thesis using next_round next_round_account_ok [OF assms(2) next_round(2,3)] by simp
qed

text \<open>
C4
In every state of a run, from its first splits on, the run counts exactly the splits in flight, no
more than its slots, and what they asked for; what it moved with what is in flight stays within the
goal of the round; every split asks for its own amount at a rate within that of the round; and with
a fee budget, the fees it reserves are exactly the most that the splits in flight can cost, and with
the fees paid stay within the budget.  This holds however the splits end, in whatever order their
results come, whatever the other goroutines do to the node, and from one round to the next.
\<close>
theorem account_always_ok:
  assumes "run_reachable p"
  shows "account_ok p"
proof -
  have "account_ok p \<and> \<not> no_outcome p"
    using assms
  proof (induction rule: run_reachable.induct)
    case (called pe k n p pe')
    then show ?case by (simp add: start_wait_account_ok)
  next
    case (stepped p q)
    then show ?case using run_step_account_ok by blast
  qed
  then show ?thesis by simp
qed

lemma sample_run_reachable: "run_reachable sample_run"
  unfolding sample_run_def by (rule run_reachable.called [OF sample_pull_prepared])

theorem account_always_ok_witness: "account_ok sample_run"
  by (rule account_always_ok [OF sample_run_reachable])

end
