(* ===== verification/ParallelLimits.thy ===== *)
theory ParallelLimits
  imports ParallelClaims
begin

text \<open>
  The limits of a run: the price it steps up to and its slots.
\<close>

section \<open>The price a run steps up to\<close>

definition stepping_ok :: "Par \<Rightarrow> bool" where
  "stepping_ok p \<longleftrightarrow> stepPPM p = 0 \<or> maxPPM p \<le> capPPM p"

lemma stepping_ok_cong: "parameters q = parameters p \<Longrightarrow> stepping_ok q = stepping_ok p"
  by (simp add: parameters_def stepping_ok_def)

lemma nextStep_le:
  assumes "stepping_ok p" "nextStep p = (x, b, wait)"
  shows "stepPPM p = 0 \<and> x = maxPPM p \<or> x \<le> capPPM p"
proof -
  have cap: "stepCap p \<le> capPPM p" by (auto simp: stepCap_def)
  show ?thesis
  proof (cases "stepPPM p = 0")
    case True
    then show ?thesis using assms by (simp add: nextStep_def)
  next
    case False
    then have "maxPPM p \<le> capPPM p" using assms(1) by (simp add: stepping_ok_def)
    moreover have "x = maxPPM p \<or> x \<le> stepCap p"
      using assms(2) False by (auto simp: nextStep_def Let_def not_less split: if_splits)
    ultimately show ?thesis using cap by auto
  qed
qed

lemma newRound_parameters:
  "maxPPM (newRound pe x b p) = x" "capPPM (newRound pe x b p) = capPPM p" "stepPPM (newRound pe x b p) = stepPPM p"
  "maxIdleRounds (newRound pe x b p) = maxIdleRounds p" "idleRounds (newRound pe x b p) = idleRounds p"
  "roundStartMoved (newRound pe x b p) = AmountRebalanced p"
proof -
  have "parameters (newRound pe x b p) = parameters (begin_round x b p)"
    by (simp add: newRound_def Let_def parameters_view.FireCandidates)
  then show "maxPPM (newRound pe x b p) = x" "capPPM (newRound pe x b p) = capPPM p" "stepPPM (newRound pe x b p) = stepPPM p"
    "maxIdleRounds (newRound pe x b p) = maxIdleRounds p" "idleRounds (newRound pe x b p) = idleRounds p"
    "roundStartMoved (newRound pe x b p) = AmountRebalanced p"
    by (simp_all add: parameters_def begin_round_fields)
qed

lemma countIdle_fields [simp]:
  "maxPPM (countIdle p) = maxPPM p" "capPPM (countIdle p) = capPPM p" "stepPPM (countIdle p) = stepPPM p"
  "maxIdleRounds (countIdle p) = maxIdleRounds p"
  by (simp_all add: countIdle_def)

lemma stepping_ok_start:
  assumes "prepare_run pe k n = Inr p"
  shows "stepping_ok (start_wait pe' p)"
proof -
  obtain p0 p1 p2 p3 where s: "Init (new_run k n) = Some p0"
    "setStepping (k_StepPPM k) (k_CapPPM k) (k_Probe k) (set_parameters (pe_now pe 0) k p0) = Some p1"
    "p2 = setProbeFailStreak (k_ProbeFailStreak k) (setMaxIdleRounds (k_MaxIdleRounds k) p1)"
    "find_target (pe_now pe 0) (k_scid k) p2 = Inr p3"
    "p = prefetchEarnings pe (fst (FindCandidates (pe_now pe 0) (excludePeer p3) p3))"
    using assms by (rule prepare_run_stages)
  have "stepping_ok p1" using s(2)
    by (auto simp: setStepping_def stepping_ok_def setRetryEvery_def Let_def not_less split: if_splits)
  then have "stepping_ok p2"
    by (simp add: s(3) stepping_ok_def setProbeFailStreak_def setMaxIdleRounds_def Let_def)
  moreover have "maxPPM p3 = maxPPM p2 \<and> capPPM p3 = capPPM p2 \<and> stepPPM p3 = stepPPM p2" using s(4)
    by (auto simp: find_target_def split: sum.splits)
  ultimately have "stepping_ok p3" by (simp add: stepping_ok_def)
  then have "stepping_ok p" using stepping_ok_cong [of p p3] by (simp add: s(5))
  then have "stepping_ok (FireCandidates pe' p)" by (subst stepping_ok_cong) (rule parameters_view.FireCandidates)
  then show ?thesis by (simp add: start_wait_def stepping_ok_def)
qed

text \<open>A step inside a round leaves the parameters alone.\<close>

lemma arrives_parameters:
  assumes "\<not> no_outcome p"
  shows "parameters (handle_result pe res (p\<lparr>flights := fs\<rparr>)) = parameters p"
proof -
  have "parameters (note_result_of pe res (p\<lparr>flights := fs\<rparr>)) = parameters (p\<lparr>flights := fs\<rparr>)"
    using assms by (intro note_result_of_account(1)) simp
  also have "\<dots> = parameters p" by (simp add: parameters_def)
  finally show ?thesis by (simp add: handle_result_def parameters_view.FireCandidates)
qed

text \<open>What a next round starts from.\<close>

lemma next_round_parameters:
  assumes "anotherRound pe w (closeRound p) = (q, True)"
  obtains x b wait where "nextStep (countIdle (why_round (closeRound p))) = (x, b, wait)"
    "maxPPM q = x" "capPPM q = capPPM p" "stepPPM q = stepPPM p" "maxIdleRounds q = maxIdleRounds p"
    "idleRounds q = idleRounds (countIdle (why_round (closeRound p)))"
    "maxIdleRounds p > 0 \<longrightarrow> idleRounds q < maxIdleRounds p"
proof -
  let ?c = "why_round (closeRound p)"
  obtain x b wait p1 where n: "nextStep (countIdle ?c) = (x, b, wait)"
    and p1: "p1 = (if wait then fst (waitRetry w (countIdle ?c)) else countIdle ?c)"
    and q: "q = newRound pe x b p1"
    and idle: "\<not> (maxIdleRounds (closeRound p) > 0 \<and> idleRounds (countIdle ?c) \<ge> maxIdleRounds (closeRound p))"
    using assms by (rule anotherRound_True)
  have "parameters p1 = parameters (countIdle ?c)" by (simp add: p1)
  then have f: "capPPM p1 = capPPM (countIdle ?c)" "stepPPM p1 = stepPPM (countIdle ?c)" "maxIdleRounds p1 = maxIdleRounds (countIdle ?c)"
    "idleRounds p1 = idleRounds (countIdle ?c)" by (simp_all add: parameters_def)
  have "parameters ?c = parameters p" "parameters (closeRound p) = parameters p" by simp_all
  then have g: "capPPM ?c = capPPM p" "stepPPM ?c = stepPPM p" "maxIdleRounds ?c = maxIdleRounds p" "maxIdleRounds (closeRound p) = maxIdleRounds p"
    by (simp_all add: parameters_def)
  show ?thesis
    by (rule that [OF n]) (use idle in \<open>auto simp: q newRound_parameters f g\<close>)
qed

lemma run_step_stepping_ok:
  assumes "run_step p q" "stepping_ok p" "\<not> no_outcome p"
  shows "stepping_ok q"
  using assms(1)
proof (cases rule: run_step.cases)
  case (arrives fs f gs res pe)
  then show ?thesis using assms(2) by (subst stepping_ok_cong) (simp_all add: arrives_parameters [OF assms(3)])
next
  case (others n)
  then show ?thesis using assms(2) stepping_ok_cong [of q p] by simp
next
  case deadline
  then show ?thesis using assms(2) stepping_ok_cong [of q p] by simp
next
  case (next_round pe w q')
  let ?c = "countIdle (why_round (closeRound p))"
  obtain x b wait where n: "nextStep ?c = (x, b, wait)" "maxPPM q' = x" "capPPM q' = capPPM p" "stepPPM q' = stepPPM p"
    using next_round(3) by (rule next_round_parameters)
  have "parameters (why_round (closeRound p)) = parameters p" by simp
  then have c: "maxPPM ?c = maxPPM p" "capPPM ?c = capPPM p" "stepPPM ?c = stepPPM p"
    by (simp_all add: parameters_def)
  then have "stepping_ok ?c" using assms(2) by (simp add: stepping_ok_def)
  with n(1) have "stepPPM p = 0 \<and> x = maxPPM p \<or> x \<le> capPPM p" using nextStep_le [of ?c x b wait] c by simp
  then show ?thesis using n next_round by (auto simp: stepping_ok_def)
qed

lemma reachable_kept: "run_reachable p \<Longrightarrow> stepping_ok p \<and> account_ok p \<and> \<not> no_outcome p"
proof (induction rule: run_reachable.induct)
  case (called pe k n p pe')
  then show ?case by (simp add: stepping_ok_start start_wait_account_ok)
next
  case (stepped p q)
  then show ?case using run_step_account_ok run_step_stepping_ok by blast
qed

section \<open>Slots\<close>

lemma next_candidate_None: "snd (next_candidate pe cs p) = None \<Longrightarrow> Queue (fst (next_candidate pe cs p)) = []"
proof (induction cs arbitrary: p)
  case (Cons c cs)
  then show ?case by (auto simp: Let_def split_beta split: sum.splits option.splits if_splits)
qed simp

text \<open>Why firing stops.\<close>

definition nothing_to_fire :: "Par \<Rightarrow> bool" where
  "nothing_to_fire p \<longleftrightarrow> \<not> may_fire p \<or> Stopped (p_Node p) \<or> \<not> withinBudget p (split_size p) \<or> Queue p = []"

lemma withinBudget_cong:
  assumes "parameters q = parameters p" "account q = account p"
  shows "withinBudget q (split_size q) = withinBudget p (split_size p)"
proof -
  have "roundGoal q = roundGoal p" using assms(1) by (simp add: parameters_def roundGoal_def)
  with assms have "split_size q = split_size p" by (simp add: parameters_def account_def split_size_def Let_def)
  with assms show ?thesis by (simp add: parameters_def account_def withinBudget_def worstFee_def)
qed

lemma fire_once_stops:
  assumes "fire_once pe p = (q, False)"
  shows "nothing_to_fire q"
proof -
  obtain p1 c where n: "GetNextCandidate pe p = (p1, c)" by fastforce
  have same: "withinBudget q (split_size q) = withinBudget p (split_size p)"
    using fire_once_account(1,2) [OF assms] by (intro withinBudget_cong) simp_all
  have "p_Node (noteStop why r) = p_Node r" for why r by (simp add: noteStop_def Let_def)
  then show ?thesis
    using assms same next_candidate_None [of pe "Queue p" p] n
    by (auto simp: fire_once_def Let_def nothing_to_fire_def GetNextCandidate_def split: if_splits option.splits)
qed

lemma FireCandidates_stops: "nothing_to_fire (FireCandidates pe p)"
proof (induction pe p rule: FireCandidates.induct)
  case (1 pe p)
  obtain q fired where once: "fire_once pe p = (q, fired)" by fastforce
  show ?case
  proof (cases "may_fire p")
    case True
    show ?thesis
    proof (cases fired)
      case fires: True
      from "1.IH" [OF True once [symmetric] refl fires] show ?thesis
        using True once fires by (simp add: FireCandidates.simps [of pe p])
    next
      case False
      then show ?thesis using True once fire_once_stops by (simp add: FireCandidates.simps [of pe p])
    qed
  next
    case False
    then show ?thesis by (simp add: FireCandidates.simps [of pe p] nothing_to_fire_def)
  qed
qed

definition within_slots :: "Par \<Rightarrow> Par \<Rightarrow> bool" where
  "within_slots p q \<longleftrightarrow>
     splitsInFlight q = splitsInFlight p \<or>
     splitsInFlight p < splitsInFlight q \<and> splitsInFlight q \<le> splits q \<and>
     (targetCap q = 0 \<or> splitsInFlight q \<le> targetCap q) \<and>
     \<not> targetStopped q \<and> \<not> streakStopped q \<and> \<not> timeStopped q"

text \<open>
C23
Firing splits stops only when no more may be fired: the goal of the round is covered by what moved
and what is in flight, the slots or the target's limit on splits at once are used, the run or
circular was stopped, the next split does not fit the fee budget, or the queue is empty.  The splits
it fired fit in the run's slots and the target's limit, and none is fired after the run stopped.
\<close>
theorem fires_within_slots:
  "nothing_to_fire (FireCandidates pe p) \<and> within_slots p (FireCandidates pe p)"
proof
  show "nothing_to_fire (FireCandidates pe p)" by (rule FireCandidates_stops)
  show "within_slots p (FireCandidates pe p)"
  proof (rule FireCandidates_keeps [where P = "within_slots p"])
    fix q q' fired
    assume w: "within_slots p q" and may: "may_fire q" and once: "fire_once pe q = (q', fired)"
    have v: "stops q' = stops q" "parameters q' = parameters q"
      using stops_view.fire_once [OF once] fire_once_account(1) [OF once] by simp_all
    show "within_slots p q'"
    proof (cases fired)
      case True
      then have "splitsInFlight q' = splitsInFlight q + 1"
        using fire_once_account(3) [OF once] by (auto simp: account_def)
      then show ?thesis using w v may by (auto simp: within_slots_def stops_def parameters_def may_fire_def)
    next
      case False
      then have "splitsInFlight q' = splitsInFlight q" using fire_once_account(2) [OF once] by (simp add: account_def)
      then show ?thesis using w v by (simp add: within_slots_def stops_def parameters_def)
    qed
  qed (simp add: within_slots_def)
qed

end
