(* ===== verification/RunEnds.thy ===== *)
theory RunEnds
  imports ParallelLimits
begin

text \<open>
  What a call of circular-pull or circular-push sets up, how a run in slow mode that moves nothing
  ends, and which runs are remembered.
\<close>

section \<open>Well-formed runs\<close>

definition percent_of :: "Par \<Rightarrow> rat" where
  "percent_of p = (case kind p of Pull \<Rightarrow> DepleteUpToPercent p | Push \<Rightarrow> FillUpToPercent p)"

definition well_formed :: "Par \<Rightarrow> bool" where
  "well_formed p \<longleftrightarrow>
     0 < splits p \<and> maxPPM p \<noteq> 0 \<and> 0 < p_attempts p \<and> 0 < p_maxHops p \<and>
     splitAmount p \<noteq> 0 \<and> splitAmount p \<le> amount p \<and> amount p mod splitAmount p = 0 \<and>
     0 \<le> percent_of p \<and> percent_of p \<le> 1 \<and>
     (retryEvery p = 0 \<or> MIN_RETRY_EVERY \<le> retryEvery p \<and> 0 < maxTime p) \<and>
     (stepPPM p = 0 \<or> MIN_RETRY_EVERY \<le> retryEvery p \<and> maxPPM p \<le> capPPM p) \<and>
     0 \<le> maxIdleRounds p \<and> 0 \<le> probeFailStreak p \<and> 0 \<le> maxTime p \<and> Queue p \<noteq> []"

text \<open>The stages, one field each.\<close>

lemma set_fields [simp]:
  "maxPPM (setMaxTime k p) = maxPPM p" "maxPPM (setMaxFee k p) = maxPPM p" "maxPPM (setFeeRatio now f p) = maxPPM p"
  "maxPPM (setRetryEvery k p) = maxPPM p" "maxPPM (pull_setDefaults p) = maxPPM p" "maxPPM (push_setDefaults p) = maxPPM p"
  "p_attempts (setMaxTime k p) = p_attempts p" "p_attempts (setMaxFee k p) = p_attempts p" "p_attempts (setFeeRatio now f p) = p_attempts p"
  "p_attempts (setRetryEvery k p) = p_attempts p" "p_attempts (pull_setDefaults p) = p_attempts p" "p_attempts (push_setDefaults p) = p_attempts p"
  "p_maxHops (setMaxTime k p) = p_maxHops p" "p_maxHops (setMaxFee k p) = p_maxHops p" "p_maxHops (setFeeRatio now f p) = p_maxHops p"
  "p_maxHops (setRetryEvery k p) = p_maxHops p" "p_maxHops (pull_setDefaults p) = p_maxHops p" "p_maxHops (push_setDefaults p) = p_maxHops p"
  "retryEvery (pull_setDefaults p) = retryEvery p" "retryEvery (push_setDefaults p) = retryEvery p"
  "maxTime (pull_setDefaults p) = maxTime p" "maxTime (push_setDefaults p) = maxTime p"
  by (simp_all add: setMaxTime_def setMaxFee_def setFeeRatio_def setRetryEvery_def pull_setDefaults_def push_setDefaults_def
      Let_def if_update_field)

lemma set_parameters_fields:
  "maxPPM (set_parameters now k p) = maxPPM p" "p_attempts (set_parameters now k p) = p_attempts p"
  "p_maxHops (set_parameters now k p) = p_maxHops p"
  "retryEvery (set_parameters now k p) = 0 \<or>
     MIN_RETRY_EVERY \<le> retryEvery (set_parameters now k p) \<and> 0 < maxTime (set_parameters now k p)"
  "0 \<le> maxTime (set_parameters now k p)"
proof -
  let ?q = "setRetryEvery (k_RetryEvery k) (setFeeRatio now (k_FeeRatio k) (setMaxFee (k_MaxFee k) (setMaxTime (k_MaxTime k) p)))"
  have "0 \<le> maxTime (setMaxTime z p)" for z by (simp add: setMaxTime_def Let_def)
  then have "0 \<le> maxTime (setFeeRatio now x (setMaxFee y (setMaxTime z p)))" for x y z
    by (simp add: setFeeRatio_def setMaxFee_def Let_def)
  then have q: "retryEvery ?q = 0 \<or> MIN_RETRY_EVERY \<le> retryEvery ?q \<and> 0 < maxTime ?q" "0 \<le> maxTime ?q"
    by (auto simp: setRetryEvery_def Let_def DEFAULT_SLOW_MAXTIME_def)
  show "maxPPM (set_parameters now k p) = maxPPM p" "p_attempts (set_parameters now k p) = p_attempts p"
    "p_maxHops (set_parameters now k p) = p_maxHops p"
    by (simp_all add: set_parameters_def Let_def split: kind.split)
  show "retryEvery (set_parameters now k p) = 0 \<or>
     MIN_RETRY_EVERY \<le> retryEvery (set_parameters now k p) \<and> 0 < maxTime (set_parameters now k p)"
    "0 \<le> maxTime (set_parameters now k p)"
    using q by (auto simp: set_parameters_def Let_def split: kind.split)
qed

lemma setStepping_fields:
  assumes "setStepping s c z p = Some q" "retryEvery p = 0 \<or> MIN_RETRY_EVERY \<le> retryEvery p \<and> 0 < maxTime p" "0 \<le> maxTime p"
  shows "maxPPM q = maxPPM p" "p_attempts q = p_attempts p" "p_maxHops q = p_maxHops p" "0 \<le> maxTime q"
    "retryEvery q = 0 \<or> MIN_RETRY_EVERY \<le> retryEvery q \<and> 0 < maxTime q"
    "stepPPM q = 0 \<or> MIN_RETRY_EVERY \<le> retryEvery q \<and> maxPPM q \<le> capPPM q"
  using assms
  by (auto simp: setStepping_def setRetryEvery_def DEFAULT_STEP_RETRY_EVERY_def MIN_RETRY_EVERY_def DEFAULT_SLOW_MAXTIME_def
      Let_def not_less if_update_field split: if_splits)

lemma FindCandidates_None: "snd (FindCandidates now i p) = None \<Longrightarrow> Queue (fst (FindCandidates now i p)) \<noteq> []"
  by (auto simp: FindCandidates_def Let_def split_beta split: if_splits)

text \<open>What finding candidates and reading what channels earn leave alone, here the fields of
  \<^const>\<open>well_formed\<close>.\<close>

definition formed where
  "formed (p :: Par) = ((splits p, maxPPM p, p_attempts p, p_maxHops p, splitAmount p, amount p), (kind p, DepleteUpToPercent p, FillUpToPercent p, retryEvery p, maxTime p),
     (stepPPM p, capPPM p, maxIdleRounds p, probeFailStreak p))"

lemma found_formed: "formed (fst (FindCandidates now i p)) = formed p"
proof -
  let ?same = "\<lambda>acc :: Par \<times> (channel_id \<times> Channel) list. formed (fst acc) = formed p"
  have "formed (fst (IsGoodCandidate now ch q)) = formed q" for ch q
    by (auto simp: IsGoodCandidate_def push_IsGoodCandidate_def inPeerFeeFits_def Let_def split_beta formed_def
        split: kind.split sum.split)
  then have c: "formed (fst (consider_channel now peer acc ch)) = formed (fst acc)" for peer acc ch
    by (simp add: consider_channel_def Let_def split_beta)
  have "?same (foldl (\<lambda>acc peer. foldl (consider_channel now peer) acc (peer_Channels peer)) (p, []) ps)" for ps
    by (rule foldl_keeps [where P = ?same]) (simp, rule foldl_keeps [where P = ?same], simp_all add: c)
  moreover have "formed (q\<lparr>Queue := cs\<rparr>) = formed q" for q cs by (simp add: formed_def)
  ultimately show ?thesis by (simp add: FindCandidates_def Let_def split_beta)
qed

lemma fetched_formed: "formed (prefetchEarnings pe p) = formed p \<and> Queue (prefetchEarnings pe p) = Queue p"
proof -
  let ?same = "\<lambda>q. formed q = formed p \<and> Queue q = Queue p"
  have "formed (fst (keepEarning q s i a)) = formed q \<and> Queue (fst (keepEarning q s i a)) = Queue q" for q s i a
    by (simp add: keepEarning_def Let_def formed_def)
  then have "?same (foldl (\<lambda>q (scid, peer). fst (keepEarning q scid peer (pe_forwards pe (rounds q) scid))) p rs)" for rs
    by (intro foldl_keeps [where P = ?same]) auto
  then show ?thesis by (simp add: prefetchEarnings_def)
qed

text \<open>
C13
A call that is not refused sets up a well-formed run, whatever its parameters: it has slots, tries,
hops, a price, and a candidate; its amount is a positive multiple of its split amount; the share it
drains or fills to is one; slow mode waits at least a minute between rounds and has a time limit;
and stepping has slow mode and a cap no lower than its price.
\<close>
theorem prepared_well_formed:
  assumes "prepare_run pe k n = Inr p"
  shows "well_formed p"
proof -
  let ?now = "pe_now pe 0"
  obtain p0 p1 p2 p3 where s: "Init (new_run k n) = Some p0"
    "setStepping (k_StepPPM k) (k_CapPPM k) (k_Probe k) (set_parameters ?now k p0) = Some p1"
    "p2 = setProbeFailStreak (k_ProbeFailStreak k) (setMaxIdleRounds (k_MaxIdleRounds k) p1)"
    "validateParameters p2 = Accepted" "find_target ?now (k_scid k) p2 = Inr p3"
    "snd (FindCandidates ?now (excludePeer p3) p3) = None"
    "p = prefetchEarnings pe (fst (FindCandidates ?now (excludePeer p3) p3))"
    using assms by (rule prepare_run_stages)
  have p0: "0 < splits p0" "maxPPM p0 \<noteq> 0" "0 < p_attempts p0" "0 < p_maxHops p0"
  proof -
    show "0 < splits p0" by (rule Init_Some(2) [OF s(1)])
    obtain q where "p0 = setGenericDefaults q" using s(1) by (auto simp: Init_def Let_def split: if_splits)
    then show "maxPPM p0 \<noteq> 0" "0 < p_attempts p0" "0 < p_maxHops p0"
      by (auto simp: setGenericDefaults_fields DEFAULT_MAXPPM_def OrDefault_def DEFAULT_ATTEMPTS_def DEFAULT_MAXHOPS_def)
  qed
  note step = setStepping_fields [OF s(2) set_parameters_fields(4,5)]
  have p1: "0 < splits p1" "maxPPM p1 \<noteq> 0" "0 < p_attempts p1" "0 < p_maxHops p1"
    using p0 step(1-3) splits_stages(1) [OF s(2)] by (simp_all add: set_parameters_fields)
  have p2: "0 < splits p2" "maxPPM p2 \<noteq> 0" "0 < p_attempts p2" "0 < p_maxHops p2" "0 \<le> maxTime p2"
    "retryEvery p2 = 0 \<or> MIN_RETRY_EVERY \<le> retryEvery p2 \<and> 0 < maxTime p2"
    "stepPPM p2 = 0 \<or> MIN_RETRY_EVERY \<le> retryEvery p2 \<and> maxPPM p2 \<le> capPPM p2"
    "0 \<le> maxIdleRounds p2" "0 \<le> probeFailStreak p2"
    using p1 step(4-6)
    by (auto simp: s(3) setProbeFailStreak_def setMaxIdleRounds_def DEFAULT_MAX_IDLE_ROUNDS_def DEFAULT_PROBE_FAIL_STREAK_def Let_def)
  have v: "splitAmount p2 \<noteq> 0" "splitAmount p2 \<le> amount p2" "amount p2 mod splitAmount p2 = 0"
    "0 \<le> percent_of p2" "percent_of p2 \<le> 1"
    using s(4) by (auto simp: validateParameters_def validateGenericParameters_def percent_of_def Let_def not_less
        split: if_splits checked.splits)
  have p3: "formed p3 = formed p2"
    using s(5) by (auto simp: find_target_def formed_def split: sum.splits)
  have "formed p = formed p2" "Queue p \<noteq> []"
    using s(7) p3 found_formed [of ?now "excludePeer p3" p3] fetched_formed FindCandidates_None [OF s(6)] by simp_all
  then show ?thesis using p2 v by (cases "kind p2") (simp_all add: well_formed_def formed_def percent_of_def)
qed

theorem prepared_well_formed_witness: "well_formed (prepared_or sample_pull sample_node)"
  by (rule prepared_well_formed [OF sample_pull_prepared])

section \<open>A run that moves nothing ends\<close>

text \<open>A round that moved nothing, and whose price held it back.\<close>

definition idle_round :: "Par \<Rightarrow> bool" where
  "idle_round p \<longleftrightarrow> splitsInFlight p = 0 \<and> AmountRebalanced p = roundStartMoved p \<and> roundPriced p"

text \<open>Steps inside a round.\<close>

inductive in_round :: "Par \<Rightarrow> Par \<Rightarrow> bool" where
  stays: "in_round p p"
| result: "in_round p q \<Longrightarrow> flights q = fs @ f # gs \<Longrightarrow> split_result f res \<Longrightarrow>
    in_round p (handle_result pe res (q\<lparr>flights := fs @ gs\<rparr>))"
| other: "in_round p q \<Longrightarrow> in_round p (q\<lparr>p_Node := n\<rparr>)"
| late: "in_round p q \<Longrightarrow> maxTime q > 0 \<Longrightarrow> in_round p (timeUp q)"

lemma timeUp_outcome [simp]: "no_outcome (timeUp p) = no_outcome p"
  by (simp add: timeUp_def Let_def)

lemma in_round_parameters:
  assumes "in_round p q" "\<not> no_outcome p"
  shows "parameters q = parameters p \<and> \<not> no_outcome q"
  using assms
proof (induction rule: in_round.induct)
  case (result p q fs f gs res pe)
  then show ?case using arrives_parameters [of q pe res "fs @ gs"] note_result_of_account(3) [of "q\<lparr>flights := fs @ gs\<rparr>" pe res]
    by (simp add: handle_result_def)
next
  case (late p q)
  then show ?case by simp
qed simp_all

text \<open>From the end of a round to the end of the next.\<close>

definition followed_by :: "Par \<Rightarrow> Par \<Rightarrow> bool" where
  "followed_by p q \<longleftrightarrow>
     (\<exists>pe w r. anotherRound pe w (closeRound p) = (r, True) \<and> in_round (r\<lparr>rounds := rounds r + 1\<rparr>) q)"

text \<open>How many more rounds may be idle: every step up, and the idle rounds at each price.\<close>

definition idle_rounds_left :: "Par \<Rightarrow> nat" where
  "idle_rounds_left p =
     (unat (capPPM p) - unat (maxPPM p)) * (nat (maxIdleRounds p) + 1) + (nat (maxIdleRounds p) - nat (idleRounds p))"

definition steps_up :: "Par \<Rightarrow> bool" where
  "steps_up p \<longleftrightarrow> 0 < maxIdleRounds p \<and> 0 \<le> idleRounds p \<and> unat (capPPM p) + unat (stepPPM p) < 2 ^ 64"

lemma idle_rounds_left_cong:
  "parameters q = parameters p \<Longrightarrow> idle_rounds_left q = idle_rounds_left p"
  "parameters q = parameters p \<Longrightarrow> steps_up q = steps_up p"
  by (simp_all add: parameters_def idle_rounds_left_def steps_up_def)

lemma fewer_idle_rounds:
  fixes c x y i j n :: nat
  assumes "y < x \<and> x \<le> c \<or> x = y \<and> i < j \<and> j \<le> n"
  shows "(c - x) * (n + 1) + (n - j) < (c - y) * (n + 1) + (n - i)"
  using assms
proof
  assume "y < x \<and> x \<le> c"
  then have "c - x + 1 \<le> c - y" by linarith
  then have "(c - x + 1) * (n + 1) \<le> (c - y) * (n + 1)" by (rule mult_le_mono1)
  then show ?thesis by (simp add: algebra_simps)
next
  assume "x = y \<and> i < j \<and> j \<le> n"
  then show ?thesis by (simp add: diff_less_mono2)
qed

lemma nextStep_countIdle [simp]: "nextStep (countIdle p) = nextStep p"
proof -
  have "nextStep (p\<lparr>idleRounds := z\<rparr>) = nextStep p" for z by (simp add: nextStep_def stepCap_def cong: if_cong)
  moreover have "\<exists>z. countIdle p = p\<lparr>idleRounds := z\<rparr>"
    by (cases "AmountRebalanced p = roundStartMoved p"; cases "idleAtTop p") (auto simp: countIdle_def intro: exI [where x = "idleRounds p"])
  ultimately show ?thesis by auto
qed

lemma nextStep_idle:
  assumes "AmountRebalanced p = roundStartMoved p" "roundPriced p" "nextStep p = (x, b, wait)"
    and "unat (capPPM p) + unat (stepPPM p) < 2 ^ 64" "stepping_ok p"
  shows "atTop p \<and> x = maxPPM p \<or> \<not> atTop p \<and> maxPPM p < x \<and> x \<le> capPPM p"
proof (cases "atTop p")
  case True
  then show ?thesis using assms(1-3) by (auto simp: atTop_def nextStep_def Let_def split: if_splits)
next
  case False
  then have up: "stepPPM p \<noteq> 0" "maxPPM p < stepCap p" by (auto simp: atTop_def)
  then have "unat (maxPPM p) \<le> unat (capPPM p)" using assms(5) by (simp add: stepping_ok_def u64_le_iff)
  then have "unat (maxPPM p + stepPPM p) = unat (maxPPM p) + unat (stepPPM p)"
    using assms(4) by (intro unat_u64_add_exact) linarith
  then have "maxPPM p < maxPPM p + stepPPM p" using up(1) by (simp add: u64_less_iff u64_eq_iff)
  moreover have "x = (if maxPPM p + stepPPM p > stepCap p then stepCap p else maxPPM p + stepPPM p)"
    using assms(1-3) up by (simp add: nextStep_def Let_def)
  moreover have "stepCap p \<le> capPPM p" by (auto simp: stepCap_def)
  ultimately show ?thesis using False up(2) by (auto simp: not_less)
qed

lemma countIdle_idle:
  assumes "AmountRebalanced p = roundStartMoved p" "roundPriced p" "0 \<le> idleRounds p"
  shows "0 \<le> idleRounds (countIdle p)" "atTop p \<Longrightarrow> idleRounds (countIdle p) = idleRounds p + 1"
  using assms by (simp_all add: countIdle_def idleAtTop_def)

lemma why_round_view [simp]:
  "AmountRebalanced (why_round (closeRound p)) = AmountRebalanced p" "roundPriced (why_round (closeRound p)) = roundPriced p"
proof -
  have "AmountRebalanced (why_round q) = AmountRebalanced q" "roundPriced (why_round q) = roundPriced q" for q
    by (simp_all add: why_round_def)
  then show "AmountRebalanced (why_round (closeRound p)) = AmountRebalanced p" "roundPriced (why_round (closeRound p)) = roundPriced p"
    by (simp_all add: closeRound_def Let_def)
qed

lemma idle_round_uses_one:
  assumes idle: "idle_round p" and up: "steps_up p" "stepping_ok p" and another: "anotherRound pe w (closeRound p) = (q, True)"
  shows "idle_rounds_left q < idle_rounds_left p \<and> steps_up q \<and> stepping_ok q"
proof -
  let ?c = "why_round (closeRound p)"
  obtain x b wait where n: "nextStep (countIdle ?c) = (x, b, wait)" "maxPPM q = x" "capPPM q = capPPM p" "stepPPM q = stepPPM p"
    "maxIdleRounds q = maxIdleRounds p" "idleRounds q = idleRounds (countIdle ?c)"
    "maxIdleRounds p > 0 \<longrightarrow> idleRounds q < maxIdleRounds p"
    using another by (rule next_round_parameters)
  have same: "parameters ?c = parameters p" by simp
  then have par: "maxPPM ?c = maxPPM p" "capPPM ?c = capPPM p" "stepPPM ?c = stepPPM p" "roundStartMoved ?c = roundStartMoved p"
    "idleRounds ?c = idleRounds p"
    by (simp_all add: parameters_def)
  have c: "AmountRebalanced ?c = roundStartMoved ?c" "roundPriced ?c"
    using idle par by (simp_all add: idle_round_def)
  have "stepping_ok ?c" using up(2) stepping_ok_cong [OF same] by simp
  moreover have "nextStep ?c = (x, b, wait)" using n(1) by simp
  ultimately have step: "atTop ?c \<and> x = maxPPM p \<or> \<not> atTop ?c \<and> maxPPM p < x \<and> x \<le> capPPM p"
    using nextStep_idle [OF c, of x b wait] up(1) by (simp add: par steps_up_def)
  have "0 \<le> idleRounds ?c" using up(1) par by (simp add: steps_up_def)
  note count = countIdle_idle [OF c this]
  have "unat (maxPPM p) < unat x \<and> unat x \<le> unat (capPPM p) \<or>
      unat x = unat (maxPPM p) \<and> nat (idleRounds p) < nat (idleRounds q) \<and> nat (idleRounds q) \<le> nat (maxIdleRounds p)"
    using step
  proof
    assume "atTop ?c \<and> x = maxPPM p"
    then have "idleRounds q = idleRounds p + 1" "x = maxPPM p" using count(2) n(6) par by simp_all
    then show ?thesis using n(7) up(1) by (simp add: steps_up_def)
  next
    assume "\<not> atTop ?c \<and> maxPPM p < x \<and> x \<le> capPPM p"
    then show ?thesis by (simp add: u64_less_iff u64_le_iff)
  qed
  from fewer_idle_rounds [OF this]
  have "idle_rounds_left q < idle_rounds_left p" by (simp add: idle_rounds_left_def n)
  moreover have "steps_up q" using up(1) count(1) n by (simp add: steps_up_def)
  moreover have "stepping_ok q" using step up(2) n by (auto simp: stepping_ok_def)
  ultimately show ?thesis by blast
qed

lemma followed_by_uses_one:
  assumes "idle_round p" "steps_up p" "stepping_ok p" "\<not> no_outcome p" "followed_by p q"
  shows "idle_rounds_left q < idle_rounds_left p \<and> steps_up q \<and> stepping_ok q \<and> \<not> no_outcome q"
proof -
  obtain pe w r where r: "anotherRound pe w (closeRound p) = (r, True)" "in_round (r\<lparr>rounds := rounds r + 1\<rparr>) q"
    using assms(5) by (auto simp: followed_by_def)
  have out: "\<not> no_outcome r"
  proof -
    obtain x b wait p1 where "p1 = (if wait then fst (waitRetry w (countIdle (why_round (closeRound p)))) else countIdle (why_round (closeRound p)))"
      "r = newRound pe x b p1"
      using r(1) by (rule anotherRound_True)
    then show ?thesis using assms(4) by (simp add: newRound_def Let_def begin_round_account)
  qed
  then have "parameters q = parameters r" "\<not> no_outcome q" using in_round_parameters [OF r(2)] by simp_all
  then show ?thesis
    using idle_round_uses_one [OF assms(1-3) r(1)] idle_rounds_left_cong [of q r] stepping_ok_cong [of q r] by simp
qed

text \<open>
C12
A run in slow mode with a limit on idle rounds (and a step that does not overflow, as every 64-bit
int does not) cannot go on moving nothing: of the rounds that follow one another held back by their
price, each either steps the price up or counts as one more idle round at the most the run can pay,
so their number is bounded from the first on, by the steps left to the cap and the idle rounds left.
\<close>
theorem idle_rounds_end:
  assumes "run_reachable (ps 0)" "steps_up (ps 0)"
    and "\<And>k. k < n \<Longrightarrow> idle_round (ps k) \<and> followed_by (ps k) (ps (Suc k))"
  shows "n \<le> idle_rounds_left (ps 0)"
proof -
  have "k \<le> n \<Longrightarrow> idle_rounds_left (ps k) + k \<le> idle_rounds_left (ps 0) \<and> steps_up (ps k) \<and> stepping_ok (ps k) \<and> \<not> no_outcome (ps k)" for k
  proof (induction k)
    case 0
    then show ?case using reachable_kept [OF assms(1)] assms(2) by simp
  next
    case (Suc k)
    then show ?case using followed_by_uses_one [of "ps k" "ps (Suc k)"] assms(3) [of k] by auto
  qed
  from this [of n] show ?thesis by simp
qed

lemma another_round_after_wait:
  assumes "\<not> round_over p" "\<not> (maxIdleRounds p > 0 \<and> idleRounds (countIdle (why_round p)) \<ge> maxIdleRounds p)"
  shows "snd (anotherRound pe WaitOver p)"
proof -
  have "maxIdleRounds (countIdle (why_round p)) = maxIdleRounds p" by (simp add: why_round_def)
  with assms show ?thesis by (simp add: anotherRound_def Let_def waitRetry_def split_beta)
qed

definition sample_later :: Par where
  "sample_later = (let r = fst (anotherRound sample_penv WaitOver (closeRound sample_idle)) in r\<lparr>rounds := rounds r + 1\<rparr>)"

theorem idle_rounds_end_witness: "1 \<le> idle_rounds_left sample_idle"
proof -
  note view = sample_idle_view [unfolded round_view_def prod.inject]
  have up: "steps_up sample_idle" using view by (simp add: steps_up_def)
  have idle: "idle_round sample_idle" using view by (simp add: idle_round_def)
  let ?c = "closeRound sample_idle"
  have "parameters ?c = parameters sample_idle" "account ?c = account sample_idle" by simp_all
  then have c: "maxIdleRounds ?c = 3" "retryEvery ?c = 60" "amount ?c = 400000000" "AmountRebalanced ?c = 0" "idleRounds ?c = 0"
    using view by (simp_all add: parameters_def account_def)
  have "timeStopped (closeRound p) = timeStopped p" "feeStopped (closeRound p) = feeStopped p" "held (closeRound p) = held p" "p_Node (closeRound p) = p_Node p" for p
    by (simp_all add: closeRound_def Let_def held_def)
  then have "\<not> round_over ?c" using view c by (simp add: round_over_def held_def)
  moreover have "idleRounds (countIdle (why_round p)) \<le> idleRounds p + 1" if "0 \<le> idleRounds p" for p
    using that by (simp add: countIdle_def why_round_def)
  from this [of ?c] have "idleRounds (countIdle (why_round ?c)) \<le> 1" using c by simp
  ultimately have "snd (anotherRound sample_penv WaitOver ?c)" using c by (intro another_round_after_wait) simp_all
  then have "followed_by sample_idle sample_later"
    unfolding followed_by_def sample_later_def Let_def by (metis in_round.stays prod.collapse)
  moreover have "run_reachable sample_idle"
    unfolding sample_idle_def by (rule run_reachable.called [OF sample_push_prepared])
  ultimately show ?thesis
    using idle_rounds_end [of "\<lambda>k. if k = 0 then sample_idle else sample_later" 1] up idle by simp
qed

section \<open>The runs remembered\<close>

definition finished :: "RunEntry list \<Rightarrow> nat" where
  "finished rs = length (filter (\<lambda>x. run_Status x \<noteq> Running) rs)"

lemma keep_runs_few: "n \<le> RUNS_KEPT \<Longrightarrow> keep_runs n rs = rs"
  by (induction n rs rule: keep_runs.induct) auto

lemma keep_runs_kept:
  "filter (\<lambda>x. run_Status x = Running) (keep_runs n rs) = filter (\<lambda>x. run_Status x = Running) rs"
  "filter (\<lambda>x. run_Status x \<noteq> Running) (keep_runs (finished rs) rs) =
     drop (finished rs - RUNS_KEPT) (filter (\<lambda>x. run_Status x \<noteq> Running) rs)"
proof -
  show "filter (\<lambda>x. run_Status x = Running) (keep_runs n rs) = filter (\<lambda>x. run_Status x = Running) rs"
    by (induction n rs rule: keep_runs.induct) auto
  show "filter (\<lambda>x. run_Status x \<noteq> Running) (keep_runs (finished rs) rs) =
     drop (finished rs - RUNS_KEPT) (filter (\<lambda>x. run_Status x \<noteq> Running) rs)"
  proof (induction rs)
    case (Cons x rs)
    have "finished (x # rs) = (if run_Status x \<noteq> Running then Suc (finished rs) else finished rs)"
      by (simp add: finished_def)
    with Cons show ?case
      by (cases "finished (x # rs) \<le> RUNS_KEPT") (auto simp: keep_runs_few Suc_diff_le)
  qed (simp add: finished_def)
qed

lemma keep_runs_subset: "set (keep_runs n rs) \<subseteq> set rs"
  by (induction n rs rule: keep_runs.induct) auto

definition ended_entry :: "RunResult option \<Rightarrow> int \<Rightarrow> RunEntry \<Rightarrow> RunEntry" where
  "ended_entry res now x =
     x\<lparr>Ended := now, run_Status := (case res of None \<Rightarrow> Failed | Some _ \<Rightarrow> Done), run_Outcome := res\<rparr>"

lemma endRun_entry_keeps:
  "endRun_entry k res now rs = keep_runs (finished (rs[k := ended_entry res now (rs ! k)])) (rs[k := ended_entry res now (rs ! k)])"
  by (simp add: endRun_entry_def finished_def ended_entry_def Let_def)

lemma ended_not_running [simp]: "run_Status (ended_entry res now x) \<noteq> Running"
  by (simp add: ended_entry_def split: option.split)

text \<open>What stays when a run ends: every run still going on, and of the finished ones the last
  \<^const>\<open>RUNS_KEPT\<close> of the list, which is in the order in which the runs started.\<close>

lemma endRun_entry_kept:
  assumes "k < length rs" "run_Status (rs ! k) = Running"
  shows "filter (\<lambda>x. run_Status x = Running) (endRun_entry k res now rs) =
      filter (\<lambda>x. run_Status x = Running) (take k rs) @ filter (\<lambda>x. run_Status x = Running) (drop (Suc k) rs)"
    "filter (\<lambda>x. run_Status x \<noteq> Running) (endRun_entry k res now rs) =
      (let done = filter (\<lambda>x. run_Status x \<noteq> Running) (take k rs) @ ended_entry res now (rs ! k) #
        filter (\<lambda>x. run_Status x \<noteq> Running) (drop (Suc k) rs) in drop (length done - RUNS_KEPT) done)"
  unfolding endRun_entry_keeps keep_runs_kept Let_def unfolding finished_def
  using assms by (simp_all add: upd_conv_take_nth_drop)

definition ended_before :: "RunEntry list \<Rightarrow> RunEntry list \<Rightarrow> bool" where
  "ended_before xs ys \<longleftrightarrow> (\<forall>x \<in> set xs. \<forall>y \<in> set ys. Ended x \<le> Ended y)"

text \<open>
C33
As long as runs end in the order in which they started, circular-results shows what the documentation
says, the runs that are going on and the last \<^const>\<open>RUNS_KEPT\<close> that finished: a run that ends forgets
none that is still going on; it is itself remembered, with its outcome, as the last of the finished
ones; of the others at most \<^const>\<open>RUNS_KEPT\<close> - 1 stay, those that ended last, as they were, and the
finished ones stay in the order in which they ended.  (A run that ends after one that started later is
kept by the order of their starts instead, so it can be forgotten at once.)
\<close>
theorem runs_remembered:
  assumes "k < length rs" "run_Status (rs ! k) = Running"
    and "filter (\<lambda>x. run_Status x \<noteq> Running) (drop (Suc k) rs) = []"
    and "finished_before = filter (\<lambda>x. run_Status x \<noteq> Running) rs" "sorted (map Ended finished_before @ [now])"
  shows "filter (\<lambda>x. run_Status x = Running) (endRun_entry k res now rs) =
      filter (\<lambda>x. run_Status x = Running) (take k rs) @ filter (\<lambda>x. run_Status x = Running) (drop (Suc k) rs) \<and>
    (let forgotten = length finished_before + 1 - RUNS_KEPT; kept = drop forgotten finished_before @ [ended_entry res now (rs ! k)] in
      filter (\<lambda>x. run_Status x \<noteq> Running) (endRun_entry k res now rs) = kept \<and> length kept \<le> RUNS_KEPT \<and>
      ended_before (take forgotten finished_before) kept \<and> sorted (map Ended kept))"
proof -
  let ?fin = "\<lambda>x. run_Status x \<noteq> Running" and ?e = "ended_entry res now (rs ! k)" and ?old = finished_before
  let ?n = "length ?old + 1 - RUNS_KEPT"
  have "filter ?fin rs = filter ?fin (take k rs @ rs ! k # drop (Suc k) rs)"
    using id_take_nth_drop [OF assms(1)] by (rule arg_cong)
  then have "filter ?fin rs = filter ?fin (take k rs)" using assms(2,3) by simp
  then have kept: "filter ?fin (endRun_entry k res now rs) = drop ?n ?old @ [?e]"
    using endRun_entry_kept(2) [OF assms(1,2), of res now] assms(3,4) by (simp add: Let_def RUNS_KEPT_def)
  have e: "Ended ?e = now" by (simp add: ended_entry_def)
  have order: "sorted (map Ended (take ?n ?old @ drop ?n ?old @ [?e]))"
    using assms(5) by (simp only: append_assoc [symmetric] append_take_drop_id) (simp add: e)
  then have "ended_before (take ?n ?old) (drop ?n ?old @ [?e])"
    unfolding map_append sorted_append ended_before_def by auto
  moreover have "sorted (map Ended (drop ?n ?old @ [?e]))" using order unfolding map_append sorted_append by blast
  moreover have "length (drop ?n ?old @ [?e]) \<le> RUNS_KEPT" by (simp add: RUNS_KEPT_def)
  ultimately show ?thesis using endRun_entry_kept(1) [OF assms(1,2), of res now] kept by (simp only: Let_def simp_thms)
qed

text \<open>So a run that went on while enough later ones ended is forgotten the moment it ends.\<close>

lemma long_run_forgotten:
  assumes "run_Status x = Running" "\<forall>y\<in>set rs. run_Status y \<noteq> Running" "length rs = RUNS_KEPT"
  shows "endRun_entry 0 res now (x # rs) = rs"
  using assms by (simp add: endRun_entry_keeps finished_def keep_runs_few)

definition sample_entry :: "run_status \<Rightarrow> RunEntry" where
  "sample_entry s = \<lparr>run_Kind = Pull, run_Target = ''3x1x1'', run_Amount = 400000, run_MaxPPM = 500, Started = 1000, Ended = 0,
     run_Status = s, run_Outcome = None\<rparr>"

theorem runs_remembered_witness:
  "filter (\<lambda>x. run_Status x \<noteq> Running) (endRun_entry 1 None 2000 [sample_entry Done, sample_entry Running, sample_entry Running])
    = [sample_entry Done, ended_entry None 2000 (sample_entry Running)]"
proof -
  let ?rs = "[sample_entry Done, sample_entry Running, sample_entry Running]"
  have "1 < length ?rs" "run_Status (?rs ! 1) = Running" "filter (\<lambda>x. run_Status x \<noteq> Running) (drop (Suc 1) ?rs) = []"
    "[sample_entry Done] = filter (\<lambda>x. run_Status x \<noteq> Running) ?rs" "sorted (map Ended [sample_entry Done] @ [2000])"
    by (simp_all add: sample_entry_def)
  note kept = runs_remembered [OF this, of None, unfolded Let_def, THEN conjunct2, THEN conjunct1]
  have "drop (length [sample_entry Done] + 1 - RUNS_KEPT) [sample_entry Done] = [sample_entry Done]" by (simp add: RUNS_KEPT_def)
  moreover have "?rs ! 1 = sample_entry Running" by simp
  ultimately show ?thesis using kept by (simp only: append_Cons append_Nil)
qed

end
