(* ===== verification/EdgeCases.thy ===== *)
theory EdgeCases
  imports RunEnds
begin

text \<open>
  Where the code, evaluated at the edges of its inputs, departs from what its comments say of it.
\<close>

section \<open>A fee limit of a product beyond 64 bits\<close>

text \<open>
  \<^const>\<open>MaxFeeForPPM\<close> is said to be the largest fee whose rate does not exceed the given one; once
  the product of amount and rate leaves 64 bits, it is no limit at all.
\<close>

lemma MaxFeeForPPM_no_limit:
  "MaxFeeForPPM 4000000000000 5000000 = MaxUint64 \<and> 5000000 < feePPM_rebalance MaxUint64 4000000000000"
proof
  show "MaxFeeForPPM 4000000000000 5000000 = MaxUint64" by code_simp
  show "5000000 < feePPM_rebalance MaxUint64 4000000000000" by code_simp
qed

section \<open>Durations beyond 64 bits\<close>

text \<open>\<^verbatim>\<open>time.Duration(seconds) * time.Second\<close>, in nanoseconds: what \<^const>\<open>setMaxTime\<close> and
  \<^const>\<open>setRetryEvery\<close> take for \<open>seconds\<close> is that up to 292 years.  One second more, and the time limit is
  negative, which is none.\<close>

definition time_Duration :: "int \<Rightarrow> int" where
  "time_Duration seconds = i64 (seconds * 1000000000)"

lemma time_Duration_exact: "0 \<le> s \<Longrightarrow> s \<le> 9223372036 \<Longrightarrow> time_Duration s = s * 1000000000"
  unfolding time_Duration_def by (rule i64_exact) simp

lemma time_Duration_wraps: "time_Duration 9223372037 < 0"
  by code_simp

section \<open>Parameters of a call that panic\<close>

text \<open>\<^verbatim>\<open>Init\<close> replaces only a zero number of splits by its default, and makes a channel of that size.\<close>

lemma negative_splits_panic:
  assumes "k_Splits k < 0" "k_scid k \<noteq> ''''"
  shows "prepare_run pe k n = Inl CallPanics"
proof -
  have "splits (new_run k n) = k_Splits k" by (simp add: new_run_def)
  then have "Init (new_run k n) = None" using assms(1) by (simp add: Init_def Let_def setGenericDefaults_fields)
  then show ?thesis using assms(2) by (simp add: prepare_run_def Let_def)
qed

text \<open>The conversion of a split amount to msat can wrap around to 0, and the amount is then divided by it.\<close>

lemma wrapped_split_amount_panics:
  assumes "splitAmount p = 2 ^ 61"
  shows "validateGenericParameters (setGenericDefaults p) = Panics"
proof -
  have "splitAmount (setGenericDefaults p) = 0" using assms by (simp add: setGenericDefaults_def Let_def if_update_field)
  then show ?thesis by (simp add: validateGenericParameters_def)
qed

end
