(* ===== verification/Quotes.thy ===== *)
theory Quotes
  imports Rounds
begin

text \<open>
  circular-quote (\<^verbatim>\<open>rebalance/parallel/quote.go\<close>): what a run of circular-pull or circular-push, or one
  rebalance between two channels, would try first, without paying anything.

  A text is reduced to what it says: a summary to its counts, a verdict to which of its three forms it
  takes.
\<close>

section \<open>Candidates\<close>

record RememberedHop =
  rh_NodeId :: node_id
  rh_Alias :: string
  rh_Score :: rat
  rh_PenaltyPPM :: u64

record QuoteCandidate =
  qc_Scid :: scid
  qc_Alias :: string
  qc_NodeId :: node_id
  qc_PPM :: "u64 option"
  qc_FeeMsat :: "u64 option"
  qc_Hops :: nat
  qc_Path :: "string list"
  qc_Estimate :: "rat option"
  qc_GuessedHops :: "nat option"
  qc_CheapestPPM :: u64
  RoomSat :: u64
  qc_MaxPPM :: "u64 option"
  qc_Economics :: "economics option"
  qc_Error :: "rb_error option"
  Skipped :: "gone_why option"
  Remembered :: "RememberedHop list"

definition new_quote :: "Graph \<Rightarrow> Channel \<Rightarrow> node_id \<Rightarrow> QuoteCandidate" where
  "new_quote g candidate peer =
     \<lparr>qc_Scid = ShortChannelId candidate, qc_Alias = GetAlias g peer, qc_NodeId = peer, qc_PPM = None,
      qc_FeeMsat = None, qc_Hops = 0, qc_Path = [], qc_Estimate = None, qc_GuessedHops = None,
      qc_CheapestPPM = 0, RoomSat = 0, qc_MaxPPM = None, qc_Economics = None, qc_Error = None,
      Skipped = None, Remembered = []\<rparr>"

definition skipped_quote :: "Graph \<Rightarrow> Channel \<Rightarrow> node_id \<Rightarrow> gone_why \<Rightarrow> QuoteCandidate" where
  "skipped_quote g candidate peer why = (new_quote g candidate peer)\<lparr>Skipped := Some why\<rparr>"

text \<open>The nodes that forward between our out channel and our in channel, as far as they are remembered.\<close>

definition rememberedOn :: "Graph \<Rightarrow> (node_id \<times> NodeScore) list \<Rightarrow> Route \<Rightarrow> u64 \<Rightarrow> RememberedHop list" where
  "rememberedOn g scores route risk =
     List.map_filter (\<lambda>hop.
       let i = Source (hop_Channel hop) in
       map_option (\<lambda>s. \<lparr>rh_NodeId = i, rh_Alias = GetAlias g i,
           rh_Score = fdiv (of_int (float_round (fmul (Score s) 10))) 10,
           rh_PenaltyPPM = NodePenaltyPPM (Score s) risk\<rparr>)
         (map_of scores i)) (middle (Hops route))"

definition routed_quote :: "Graph \<Rightarrow> (node_id \<times> NodeScore) list \<Rightarrow> u64 \<Rightarrow> Route \<Rightarrow> QuoteCandidate \<Rightarrow> QuoteCandidate" where
  "routed_quote g scores risk route c =
     (let (chance, guessed) = Estimate route in
      c\<lparr>qc_PPM := Some (route_FeePPM route), qc_FeeMsat := Some (Fee route), qc_Hops := length (Hops route),
        qc_Path := map (\<lambda>hop. GetAlias g (Source (hop_Channel hop))) (tl (Hops route)),
        qc_Estimate := Some (fdiv (of_int (float_round (fmul chance 100))) 100),
        qc_GuessedHops := Some guessed, Remembered := rememberedOn g scores route risk\<rparr>)"

definition quoteCandidate ::
    "env \<Rightarrow> (node_id \<times> NodeScore) list \<Rightarrow> Channel \<Rightarrow> node_id \<Rightarrow> Rebalance \<Rightarrow> Rebalance \<times> QuoteCandidate" where
  "quoteCandidate env scores candidate peer r =
     (let (r, route, err) = Quote env r; g = rb_graph r;
          c = new_quote g candidate peer;
          c = (case route of None \<Rightarrow> c | Some route \<Rightarrow> routed_quote g scores (riskPPM_of r) route c) in
      (r, case err of
            None \<Rightarrow> c
          | Some e \<Rightarrow>
              c\<lparr>qc_Error := Some e,
                qc_CheapestPPM := (case as_tooExpensive e of None \<Rightarrow> qc_CheapestPPM c | Some least \<Rightarrow> least)\<rparr>))"

section \<open>The whole amount\<close>

datatype verdict = NoRoute | WholeAmount | OnlyPart

record WholeQuote =
  wq_Amount :: u64
  Covered :: u64
  wq_Candidates :: nat
  MinPPM :: u64
  TopPPM :: u64
  wq_AvgPPM :: u64
  FeeSat :: u64
  Verdict :: verdict

definition has_route :: "QuoteCandidate \<Rightarrow> bool" where
  "has_route c \<longleftrightarrow> Skipped c = None \<and> qc_Error c = None \<and> qc_PPM c \<noteq> None \<and> RoomSat c > 0"

text \<open>The loop over the sorted candidates: what is left, and amount times rate so far.\<close>

fun fill_whole :: "u64 \<Rightarrow> u64 \<Rightarrow> WholeQuote \<Rightarrow> QuoteCandidate list \<Rightarrow> u64 \<times> u64 \<times> WholeQuote" where
  "fill_whole left fee w [] = (left, fee, w)"
| "fill_whole left fee w (c # cs) =
     (if left = 0 then (left, fee, w)
      else
        let taken = util_Min left (RoomSat c * 1000);
            w = (if wq_Candidates w = 0 then w\<lparr>MinPPM := the (qc_PPM c)\<rparr> else w) in
        fill_whole (left - taken) (fee + taken * the (qc_PPM c))
          (w\<lparr>wq_Candidates := wq_Candidates w + 1, TopPPM := the (qc_PPM c)\<rparr>) cs)"

definition by_price :: "QuoteCandidate list \<Rightarrow> QuoteCandidate list" where
  "by_price cs = sort_key (\<lambda>c. the (qc_PPM c)) (filter has_route cs)"

definition wholeQuote :: "u64 \<Rightarrow> QuoteCandidate list \<Rightarrow> WholeQuote" where
  "wholeQuote a cs =
     (let w = \<lparr>wq_Amount = a div 1000, Covered = 0, wq_Candidates = 0, MinPPM = 0, TopPPM = 0, wq_AvgPPM = 0,
               FeeSat = 0, Verdict = NoRoute\<rparr>;
          (left, fee, w) = fill_whole a 0 w (by_price cs);
          moved = a - left in
      w\<lparr>Covered := moved div 1000, FeeSat := (fee + 500000000) div 1000000000,
        wq_AvgPPM := (if moved > 0 then (fee + moved div 2) div moved else 0),
        Verdict := (if moved = 0 then NoRoute else if left = 0 then WholeAmount else OnlyPart)\<rparr>)"

section \<open>Summaries\<close>

record Summary =
  routed :: nat
  failed :: nat
  skipped :: nat
  remembered :: nat
  cheapest :: u64
  cheapestAbove :: u64

definition summarize_one :: "Summary \<Rightarrow> QuoteCandidate \<Rightarrow> Summary" where
  "summarize_one s c =
     (if Skipped c \<noteq> None then s\<lparr>skipped := skipped s + 1\<rparr>
      else
        (case (qc_Error c, qc_PPM c) of
           (None, Some fee) \<Rightarrow>
             let s = s\<lparr>routed := routed s + 1\<rparr>;
                 s = (if Remembered c \<noteq> [] then s\<lparr>remembered := remembered s + 1\<rparr> else s) in
             if routed s = 1 \<or> fee < cheapest s then s\<lparr>cheapest := fee\<rparr> else s
         | _ \<Rightarrow>
             let s = s\<lparr>failed := failed s + 1\<rparr> in
             if qc_CheapestPPM c \<noteq> 0 \<and> (cheapestAbove s = 0 \<or> qc_CheapestPPM c < cheapestAbove s)
             then s\<lparr>cheapestAbove := qc_CheapestPPM c\<rparr> else s))"

definition summarize :: "QuoteCandidate list \<Rightarrow> Summary" where
  "summarize cs =
     foldl summarize_one \<lparr>routed = 0, failed = 0, skipped = 0, remembered = 0, cheapest = 0, cheapestAbove = 0\<rparr> cs"

section \<open>The quotes\<close>

text \<open>\<^verbatim>\<open>Mode\<close>: of a run its kind, of one rebalance \<^const>\<open>None\<close>.\<close>

record RunQuote =
  Mode :: "kind option"
  rq_Target :: scid
  TargetPeer :: string
  rq_Amount :: u64
  rq_MaxPPM :: u64
  rq_Summary :: Summary
  rq_Candidates :: "QuoteCandidate list"
  Whole :: "WholeQuote option"

definition quote_room :: "Par \<Rightarrow> PeerChannel \<Rightarrow> u64" where
  "quote_room p ch = (case kind p of Pull \<Rightarrow> pull_room p ch | Push \<Rightarrow> push_room p ch)"

text \<open>One candidate of a run: skipped, or quoted within what a split over it may pay.\<close>

definition quote_one :: "env \<Rightarrow> penv \<Rightarrow> (node_id \<times> NodeScore) list \<Rightarrow> Par \<times> QuoteCandidate list \<Rightarrow> Channel
    \<Rightarrow> Par \<times> QuoteCandidate list" where
  "quote_one env pe scores = (\<lambda>(p, cs) candidate.
     let peer = (case kind p of Pull \<Rightarrow> Destination candidate | Push \<Rightarrow> Source candidate);
         (out, inc) = (case kind p of Pull \<Rightarrow> (candidate, Target p) | Push \<Rightarrow> (Target p, candidate)) in
     case GetPeerChannelFromGraphChannel (p_Node p) candidate of
       Inl e \<Rightarrow> (p, cs @ [skipped_quote (p_graph p) candidate peer (goneSkipped e)])
     | Inr ch \<Rightarrow>
         (case CanUseChannel p ch of
            Some e \<Rightarrow> (p, cs @ [skipped_quote (p_graph p) candidate peer (goneSkipped e)])
          | None \<Rightarrow>
              let out = fresh_channel p out; inc = fresh_channel p inc;
                  (p, skip) = notWorth pe p candidate in
              if skip then (p, cs @ [skipped_quote (p_graph p) candidate peer notWorthIt])
              else
                let (p, e) = splitEconomics pe p candidate;
                    r = (NewRebalance (p_Node p) out inc (splitAmount p) (ec_limit e) (p_attempts p) (p_maxHops p))
                          \<lparr>RiskPPM := p_riskPPM p\<rparr>;
                    (r, c) = quoteCandidate env scores candidate peer r;
                    c = c\<lparr>RoomSat := quote_room p ch div 1000\<rparr>;
                    c = (if feeRatio p > 0 then c\<lparr>qc_MaxPPM := Some (ec_limit e), qc_Economics := Some e\<rparr> else c) in
                (p\<lparr>p_Node := rb_Node r\<rparr>, cs @ [c])))"

definition run_quote :: "env \<Rightarrow> penv \<Rightarrow> Par \<Rightarrow> Par \<times> RunQuote" where
  "run_quote env pe p =
     (let targetPeer = (case kind p of Pull \<Rightarrow> Source (Target p) | Push \<Rightarrow> Destination (Target p));
          scores = NodeScoresNow (e_pow env) (e_now env 0) (p_graph p);
          alias = GetAlias (p_graph p) targetPeer;
          (p, cs) = foldl (quote_one env pe scores) (p, []) (Queue p) in
      (p, \<lparr>Mode = Some (kind p), rq_Target = ShortChannelId (Target p), TargetPeer = alias,
           rq_Amount = splitAmount p div 1000, rq_MaxPPM = maxPPM p, rq_Summary = summarize cs,
           rq_Candidates = cs, Whole = Some (wholeQuote (amount p) cs)\<rparr>))"

text \<open>The parameters of circular-quote; \<open>qk_list\<close> and the like are those of its pull or push.\<close>

record QuoteCall =
  qk_InScid :: scid
  qk_OutScid :: scid
  qk_OutList :: "node_id list option"
  qk_InList :: "node_id list option"
  qk_MaxOutPPM :: u64
  qk_MinOutPPM :: u64
  qk_Amount :: u64
  qk_MaxPPM :: u64
  qk_Splits :: int
  qk_SplitAmount :: u64
  qk_MinSplit :: u64
  qk_DepleteUpToPercent :: rat
  qk_DepleteUpToAmount :: u64
  qk_FillUpToPercent :: rat
  qk_FillUpToAmount :: u64
  qk_Attempts :: int
  qk_MaxHops :: int
  qk_MaxNodeFails :: int
  qk_RiskPPM :: int
  qk_FeeRatio :: rat

definition quote_pull :: "QuoteCall \<Rightarrow> ParCall" where
  "quote_pull q =
     \<lparr>k_kind = Pull, k_scid = qk_InScid q, k_list = qk_OutList q, k_outppm = qk_MaxOutPPM q, k_Amount = qk_Amount q,
      k_MaxPPM = qk_MaxPPM q, k_Splits = qk_Splits q, k_SplitAmount = qk_SplitAmount q, k_MinSplit = qk_MinSplit q,
      k_percent = qk_DepleteUpToPercent q, k_upto = qk_DepleteUpToAmount q, k_Attempts = qk_Attempts q,
      k_MaxHops = qk_MaxHops q, k_MaxNodeFails = qk_MaxNodeFails q, k_MaxFailStreak = 0, k_RiskPPM = qk_RiskPPM q,
      k_MaxTime = 0, k_MaxFee = 0, k_FeeRatio = qk_FeeRatio q, k_RetryEvery = 0, k_StepPPM = 0, k_CapPPM = 0,
      k_Probe = 0, k_MaxIdleRounds = 0, k_ProbeFailStreak = 0\<rparr>"

definition quote_push :: "QuoteCall \<Rightarrow> ParCall" where
  "quote_push q =
     \<lparr>k_kind = Push, k_scid = qk_OutScid q, k_list = qk_InList q, k_outppm = qk_MinOutPPM q, k_Amount = qk_Amount q,
      k_MaxPPM = qk_MaxPPM q, k_Splits = qk_Splits q, k_SplitAmount = qk_SplitAmount q, k_MinSplit = qk_MinSplit q,
      k_percent = qk_FillUpToPercent q, k_upto = qk_FillUpToAmount q, k_Attempts = qk_Attempts q,
      k_MaxHops = qk_MaxHops q, k_MaxNodeFails = qk_MaxNodeFails q, k_MaxFailStreak = 0, k_RiskPPM = qk_RiskPPM q,
      k_MaxTime = 0, k_MaxFee = 0, k_FeeRatio = qk_FeeRatio q, k_RetryEvery = 0, k_StepPPM = 0, k_CapPPM = 0,
      k_Probe = 0, k_MaxIdleRounds = 0, k_ProbeFailStreak = 0\<rparr>"

definition quotePair :: "env \<Rightarrow> QuoteCall \<Rightarrow> Node \<Rightarrow> prepare_error + Node \<times> RunQuote" where
  "quotePair env q n =
     (case GetOutgoingChannelFromScid (e_now env 0) n (qk_OutScid q) of
        Inl e \<Rightarrow> Inl (PrepareError e)
      | Inr out \<Rightarrow>
          (case GetIncomingChannelFromScid (e_now env 0) n (qk_InScid q) of
             Inl e \<Rightarrow> Inl (PrepareError e)
           | Inr inc \<Rightarrow>
               let a = qk_Amount q * 1000;
                   a = (if a = 0 then DEFAULT_AMOUNT else a);
                   limit = (if qk_MaxPPM q = 0 then DEFAULT_MAXPPM else qk_MaxPPM q);
                   hops = (if qk_MaxHops q \<le> 0 then OrDefault (def_MaxHops (node_Defaults n)) DEFAULT_MAXHOPS
                           else qk_MaxHops q);
                   r = (NewRebalance n out inc a limit (qk_Attempts q) hops)\<lparr>RiskPPM := qk_RiskPPM q\<rparr>;
                   alias = GetAlias (node_Graph n) (Source inc);
                   (r, c) = quoteCandidate env (NodeScoresNow (e_pow env) (e_now env 0) (node_Graph n)) out
                              (Destination out) r in
               Inr (rb_Node r,
                    \<lparr>Mode = None, rq_Target = qk_InScid q, TargetPeer = alias, rq_Amount = a div 1000,
                     rq_MaxPPM = limit, rq_Summary = summarize [c], rq_Candidates = [c], Whole = None\<rparr>)))"

definition quote_Call :: "env \<Rightarrow> penv \<Rightarrow> QuoteCall \<Rightarrow> Node \<Rightarrow> prepare_error + Node \<times> RunQuote" where
  "quote_Call env pe q n =
     (let quote_of = (\<lambda>k. case prepare_run pe k n of
            Inl e \<Rightarrow> Inl e
          | Inr p \<Rightarrow> let (p, result) = run_quote env pe p in Inr (p_Node p, result)) in
      if qk_InScid q \<noteq> '''' \<and> qk_OutScid q \<noteq> '''' then quotePair env q n
      else if qk_InScid q \<noteq> '''' then quote_of (quote_pull q)
      else if qk_OutScid q \<noteq> '''' then quote_of (quote_push q)
      else Inl (PrepareError ErrNoRequiredParameter))"

end
