(* ===== verification/QuoteClaims.thy ===== *)
theory QuoteClaims
  imports Quotes FailureClaims
begin

text \<open>
  What a quote promises: the route it shows is the one the first payment would take, and the quote of
  a whole amount is the cheapest way to move as much of it as the candidates have room for.
\<close>

section \<open>The first payment\<close>

text \<open>No other goroutine gets in between the quote and the first payment, and no time passes.\<close>

definition undisturbed :: "env \<Rightarrow> Rebalance \<Rightarrow> bool" where
  "undisturbed env r \<longleftrightarrow>
     e_others env (tick r + 1) = (\<lambda>n. n) \<and> e_now env (tick r + 1) = e_now env (tick r) \<and>
     \<not> e_halt env (tick r + 1) \<and> \<not> Stopped (rb_Node r)"

text \<open>The checks of a rebalance and its search ignore what its attempts count.\<close>

lemma checks_view:
  fixes r :: Rebalance
  shows
  "validateLiquidityParameters (r\<lparr>rb_Node := (rb_Node r)\<lparr>node_Graph := g\<rparr>, nodeFailures := a, failedAt := b, payments := c,
     midFailures := d, tick := t\<rparr>) out inc = validateLiquidityParameters r out inc"
  "checkFirstHop (r\<lparr>nodeFailures := a, failedAt := b, payments := c, midFailures := d, tick := t\<rparr>) route
    = checkFirstHop r route"
  "e_now env t = e_now env (tick r) \<Longrightarrow>
   getRoute env (r\<lparr>nodeFailures := a, failedAt := b, payments := c, midFailures := d, tick := t\<rparr>) ex = getRoute env r ex"
  by (simp_all add: validateLiquidityParameters_def checkConnections_def checkLiquidity_def checkFirstHop_def getRoute_def
      GetPeerChannelFromGraphChannel_def peer_channel_def IsPeerConnected_def GetChannelPeerFromScid_def
      riskPPM_of_def tooExpensive_def Let_def cong: sum.case_cong option.case_cong if_cong)

text \<open>
C21
A quote and the first payment agree, as long as nothing happens in between: a route that is quoted is
the one sent; if it is quoted with an error, or only an error is, the first attempt ends with that
error, and pays nothing.
\<close>
theorem quote_is_first_attempt:
  assumes "undisturbed env r" "rb_Route r = []" "Quote env r = (q, route, err)" "run_start env r = (r1, st)"
  shows "case (route, err) of
      (Some sent, None) \<Rightarrow> runAttempt env r1 (st_exclude st) (st_known st) = send_route env (begin_attempt env r1) (st_exclude st) sent
    | (sent, Some e) \<Rightarrow> runAttempt env r1 (st_exclude st) (st_known st) = (begin_attempt env r1, st_exclude st, Inl (sent, e))
    | (None, None) \<Rightarrow> False"
proof -
  obtain r0 exclude where s: "startExclude (e_now env (tick r)) r = (r0, exclude)" by fastforce
  then obtain g where r0: "r0 = r\<lparr>rb_Node := (rb_Node r)\<lparr>node_Graph := g\<rparr>\<rparr>"
    by (auto simp: startExclude_def split_beta)
  have start: "r1 = r0\<lparr>nodeFailures := (\<lambda>_. 0), failedAt := [], payments := 0, midFailures := 0\<rparr>"
    "st_exclude st = exclude" "st_known st = None"
    using assms(2,4) s r0 by (auto simp: run_start_def knownRoute_def)
  have u: "e_others env (Suc (tick r)) = (\<lambda>n. n)" "e_now env (Suc (tick r)) = e_now env (tick r)"
    "\<not> e_halt env (Suc (tick r))" "\<not> Stopped (rb_Node r)"
    using assms(1) by (simp_all add: undisturbed_def)
  define b where "b = begin_attempt env r1"
  have b: "b = r0\<lparr>nodeFailures := (\<lambda>_. 0), failedAt := [], payments := 0, midFailures := 0, tick := Suc (tick r)\<rparr>"
    by (simp add: b_def begin_attempt_def start r0 u)
  have v: "validateLiquidityParameters b out inc = validateLiquidityParameters r out inc" for out inc
    unfolding b r0 using checks_view(1) [where r = r and g = g] by simp
  have f: "checkFirstHop b rt = checkFirstHop r0 rt" for rt
    unfolding b by (rule checks_view(2))
  have gr: "getRoute env b ex = getRoute env r0 ex" for ex
    unfolding b by (rule checks_view(3)) (simp add: r0 u)
  have ch: "OutChannel b = OutChannel r" "InChannel b = InChannel r" "\<not> Stopped (rb_Node b)" "\<not> e_halt env (tick b)"
    by (simp_all add: b r0 u)
  have run: "runAttempt env r1 exclude None =
      (case validateLiquidityParameters r (OutChannel r) (InChannel r) of
         Some e \<Rightarrow> (b, exclude, Inl (None, e))
       | None \<Rightarrow> (case getRoute env r0 exclude of Inl e \<Rightarrow> (b, exclude, Inl (None, e)) | Inr rt \<Rightarrow> send_route env b exclude rt))"
    unfolding runAttempt_def b_def [symmetric] Let_def using v ch gr by (simp split: option.split)
  have sent: "checkFirstHop r0 rt = Some e \<Longrightarrow> send_route env b exclude rt = (b, exclude, Inl (Some rt, e))" for rt e
    using f by (simp add: send_route_def tryRoute_def)
  show ?thesis
  proof (cases "validateLiquidityParameters r (OutChannel r) (InChannel r)")
    case None
    then show ?thesis
      unfolding b_def [symmetric] start(2,3) run using assms(3) sent
      by (cases "getRoute env r0 exclude") (auto simp: Quote_def s split: option.split)
  next
    case (Some e)
    then have "q = r \<and> route = None \<and> err = Some e" using assms(3) by (simp add: Quote_def)
    with Some show ?thesis unfolding b_def [symmetric] start(2,3) run by simp
  qed
qed

theorem quote_is_first_attempt_witness:
  "case (snd (Quote sample_env sample_rb), run_start sample_env sample_rb) of
     ((Some sent, None), (r1, st)) \<Rightarrow>
       runAttempt sample_env r1 (st_exclude st) (st_known st) = send_route sample_env (begin_attempt sample_env r1) (st_exclude st) sent
   | _ \<Rightarrow> False"
proof -
  obtain q route err where quote: "Quote sample_env sample_rb = (q, route, err)" by (rule prod_cases3)
  obtain r1 st where start: "run_start sample_env sample_rb = (r1, st)" by fastforce
  have "case Quote sample_env sample_rb of (q, Some sent, None) \<Rightarrow> True | _ \<Rightarrow> False" by code_simp
  then obtain sent where sent: "route = Some sent" "err = None" by (auto simp: quote split: option.splits)
  have "undisturbed sample_env sample_rb" by (simp add: undisturbed_def sample_env_def) code_simp
  moreover have "rb_Route sample_rb = []" by (simp add: sample_rb_def NewRebalance_def)
  ultimately show ?thesis using quote_is_first_attempt [OF _ _ quote start] by (simp add: quote start sent)
qed

section \<open>The whole amount\<close>

text \<open>What a candidate has room for, in msat, and what it charges.\<close>

abbreviation room_of :: "QuoteCandidate \<Rightarrow> nat" where
  "room_of c \<equiv> unat (RoomSat c) * 1000"

abbreviation price_of :: "QuoteCandidate \<Rightarrow> nat" where
  "price_of c \<equiv> unat (the (qc_PPM c))"

text \<open>Filling an amount from candidates in order, as natural numbers: what each one takes.\<close>

fun takes :: "nat \<Rightarrow> QuoteCandidate list \<Rightarrow> nat list" where
  "takes left [] = []"
| "takes left (c # cs) = min left (room_of c) # takes (left - room_of c) cs"

definition cost :: "nat list \<Rightarrow> QuoteCandidate list \<Rightarrow> nat" where
  "cost xs cs = (\<Sum>(x, c)\<leftarrow>zip xs cs. x * price_of c)"

lemma cost_simps [simp]: "cost [] cs = 0" "cost (x # xs) (c # cs) = x * price_of c + cost xs cs"
  by (simp_all add: cost_def)

definition fits_rooms :: "nat list \<Rightarrow> QuoteCandidate list \<Rightarrow> bool" where
  "fits_rooms xs cs \<longleftrightarrow> list_all2 (\<lambda>x c. x \<le> room_of c) xs cs"

lemma takes_zero [simp]: "sum_list (takes 0 cs) = 0" "cost (takes 0 cs) cs = 0"
  by (induction cs) simp_all

lemma sum_takes: "sum_list (takes left cs) = min left (\<Sum>c\<leftarrow>cs. room_of c)"
  by (induction left cs rule: takes.induct) auto

lemma takes_cheapest:
  assumes "sorted (map price_of cs)" "\<And>c. c \<in> set cs \<Longrightarrow> p \<le> price_of c"
    and "fits_rooms xs cs" "sum_list (takes left cs) \<le> sum_list xs"
  shows "cost (takes left cs) cs + (sum_list xs - sum_list (takes left cs)) * p \<le> cost xs cs"
  using assms
proof (induction left cs arbitrary: xs p rule: takes.induct)
  case (2 left c cs)
  then obtain x ys where xs: "xs = x # ys" "x \<le> room_of c" "fits_rooms ys cs"
    by (auto simp: fits_rooms_def list_all2_Cons2)
  let ?rest = "takes (left - room_of c) cs" and ?t = "min left (room_of c)"
  have sum: "?t + sum_list ?rest \<le> x + sum_list ys" using 2(5) xs by simp
  have more: "sum_list ?rest \<le> sum_list ys"
  proof (cases "left \<le> room_of c")
    case True
    then show ?thesis by simp
  next
    case False
    then show ?thesis using sum xs(2) by simp
  qed
  have "cost ?rest cs + (sum_list ys - sum_list ?rest) * price_of c \<le> cost ys cs"
    using 2(2) by (intro "2.IH" [OF _ _ xs(3) more]) auto
  moreover have "?t * price_of c + (x + sum_list ys - (?t + sum_list ?rest)) * price_of c
      = x * price_of c + (sum_list ys - sum_list ?rest) * price_of c"
  proof -
    have "?t + (x + sum_list ys - (?t + sum_list ?rest)) = x + (sum_list ys - sum_list ?rest)"
      using sum more by linarith
    then show ?thesis by (simp add: distrib_right [symmetric])
  qed
  moreover have "(x + sum_list ys - (?t + sum_list ?rest)) * p \<le> (x + sum_list ys - (?t + sum_list ?rest)) * price_of c"
    using 2(3) by (intro mult_le_mono2) simp
  ultimately show ?case unfolding xs(1) takes.simps cost_simps sum_list.Cons by linarith
qed (simp add: fits_rooms_def)

text \<open>The loop takes the same, as long as nothing wraps around.\<close>

lemma fill_whole_takes:
  assumes "fill_whole left fee w cs = (left', fee', w')" "\<forall>c \<in> set cs. room_of c < 2 ^ 64"
    and "unat fee + cost (takes (unat left) cs) cs < 2 ^ 64"
  shows "unat left' = unat left - sum_list (takes (unat left) cs) \<and> unat fee' = unat fee + cost (takes (unat left) cs) cs"
  using assms
proof (induction left fee w cs rule: fill_whole.induct)
  case (2 left fee w c cs)
  show ?case
  proof (cases "left = 0")
    case True
    then show ?thesis using 2(2) by simp
  next
    case False
    let ?t = "util_Min left (RoomSat c * 1000)"
    have "unat (RoomSat c * 1000) = room_of c" using 2(3) by (simp add: unat_u64_mult)
    then have t: "unat ?t = min (unat left) (room_of c)" by (simp add: unat_util_Min)
    have left: "unat (left - ?t) = unat left - room_of c"
    proof -
      have "?t \<le> left" by (auto simp: util_Min_def)
      then show ?thesis by (simp add: unat_u64_sub_exact t)
    qed
    let ?rest = "takes (unat left - room_of c) cs"
    have sum: "unat fee + (min (unat left) (room_of c) * price_of c + cost ?rest cs) < 2 ^ 64"
      using 2(4) by simp
    have mult: "unat (?t * the (qc_PPM c)) = min (unat left) (room_of c) * price_of c"
      using sum by (simp add: unat_u64_mult t)
    have fee: "unat (fee + ?t * the (qc_PPM c)) = unat fee + min (unat left) (room_of c) * price_of c"
      using sum mult by (subst unat_u64_add_exact) simp_all
    obtain w'' where rest: "fill_whole (left - ?t) (fee + ?t * the (qc_PPM c)) w'' cs = (left', fee', w')"
      "w'' = (let w = (if wq_Candidates w = 0 then w\<lparr>MinPPM := the (qc_PPM c)\<rparr> else w) in
         w\<lparr>wq_Candidates := wq_Candidates w + 1, TopPPM := the (qc_PPM c)\<rparr>)"
      using 2(2) False by (simp add: Let_def)
    have "unat left' = unat (left - ?t) - sum_list (takes (unat (left - ?t)) cs) \<and>
        unat fee' = unat (fee + ?t * the (qc_PPM c)) + cost (takes (unat (left - ?t)) cs) cs"
      using 2(1) [OF False refl refl] rest 2(3) sum by (simp add: Let_def left fee)
    then show ?thesis using sum unfolding left fee by simp
  qed
qed simp

lemma takes_fit: "fits_rooms (takes left cs) cs"
  by (induction left cs rule: takes.induct) (simp_all add: fits_rooms_def)

lemma cost_takes_le:
  assumes "\<forall>c \<in> set cs. price_of c \<le> p"
  shows "cost (takes left cs) cs \<le> left * p"
  using assms
proof (induction left cs rule: takes.induct)
  case (2 left c cs)
  have "cost (takes left (c # cs)) (c # cs) \<le> min left (room_of c) * p + (left - room_of c) * p"
    using 2 by (simp add: add_mono)
  also have "\<dots> = left * p" by (simp add: distrib_right [symmetric] min_def)
  finally show ?case .
qed simp

lemma by_price_sorted: "sorted (map price_of (by_price cs))" "set (by_price cs) = set (filter has_route cs)"
proof -
  have "sorted (map (\<lambda>c. the (qc_PPM c)) (by_price cs))" by (simp add: by_price_def)
  then show "sorted (map price_of (by_price cs))" by (simp add: sorted_map u64_le_iff)
  show "set (by_price cs) = set (filter has_route cs)" by (simp add: by_price_def)
qed

text \<open>
C22
The quote of a whole amount covers exactly what the candidates with a route have room for, up to the
amount; and the fee it shows is that of the cheapest way there is to spread as much over them, each
within its room, at the rates of their routes (as long as amount and rate fit in 64 bits).
\<close>
theorem whole_quote_cheapest:
  assumes "\<forall>c \<in> set cs. room_of c < 2 ^ 64" "\<forall>c \<in> set cs. has_route c \<longrightarrow> unat a * price_of c + 500000000 < 2 ^ 64"
  defines "most \<equiv> min (unat a) (\<Sum>c\<leftarrow>by_price cs. room_of c)"
  shows "unat (Covered (wholeQuote a cs)) = most div 1000 \<and>
    (\<exists>xs. fits_rooms xs (by_price cs) \<and> sum_list xs = most \<and>
       unat (FeeSat (wholeQuote a cs)) = (cost xs (by_price cs) + 500000000) div 1000000000) \<and>
    (\<forall>xs. fits_rooms xs (by_price cs) \<and> sum_list xs = most \<longrightarrow>
       unat (FeeSat (wholeQuote a cs)) \<le> (cost xs (by_price cs) + 500000000) div 1000000000)"
proof -
  let ?cs = "by_price cs" let ?xs = "takes (unat a) ?cs"
  have bound: "cost ?xs ?cs + 500000000 < 2 ^ 64"
  proof (cases "?cs = []")
    case False
    then have "Max (price_of ` set ?cs) \<in> price_of ` set ?cs" by (intro Max_in) auto
    then obtain c where c: "c \<in> set ?cs" "Max (price_of ` set ?cs) = price_of c" by (rule imageE)
    then have le: "\<forall>d \<in> set ?cs. price_of d \<le> price_of c" by (metis List.finite_set Max_ge finite_imageI imageI)
    have "cost ?xs ?cs \<le> unat a * price_of c" by (rule cost_takes_le [OF le])
    moreover have "unat a * price_of c + 500000000 < 2 ^ 64" using assms(2) c(1) by (auto simp: by_price_sorted)
    ultimately show ?thesis by linarith
  qed simp
  obtain left fee w where fill: "fill_whole a 0 \<lparr>wq_Amount = a div 1000, Covered = 0, wq_Candidates = 0, MinPPM = 0,
      TopPPM = 0, wq_AvgPPM = 0, FeeSat = 0, Verdict = NoRoute\<rparr> ?cs = (left, fee, w)"
    by (rule prod_cases3)
  have f: "unat left = unat a - most" "unat fee = cost ?xs ?cs"
    using fill_whole_takes [OF fill] bound assms(1) by (auto simp: by_price_sorted sum_takes most_def)
  have "unat (a - left) = most"
    using f(1) by (simp add: unat_u64_sub_exact u64_le_iff most_def)
  moreover have "unat (fee + 500000000) = cost ?xs ?cs + 500000000"
    using bound f(2) by (subst unat_u64_add_exact) simp_all
  ultimately have w: "unat (Covered (wholeQuote a cs)) = most div 1000"
    "unat (FeeSat (wholeQuote a cs)) = (cost ?xs ?cs + 500000000) div 1000000000"
    using fill by (simp_all add: wholeQuote_def Let_def unat_u64_div)
  have xs: "fits_rooms ?xs ?cs" "sum_list ?xs = most" by (simp_all add: takes_fit sum_takes most_def)
  have "cost ?xs ?cs \<le> cost ys ?cs" if "fits_rooms ys ?cs" "sum_list ys = most" for ys
    using takes_cheapest [OF by_price_sorted(1) _ that(1), where p = 0 and left = "unat a"] that(2) xs(2) by simp
  with w xs show ?thesis by (auto intro!: div_le_mono)
qed

definition sample_quoted :: "scid \<Rightarrow> u64 \<Rightarrow> u64 \<Rightarrow> QuoteCandidate" where
  "sample_quoted scid fee room = (new_quote NewGraph (zero_channel\<lparr>ShortChannelId := scid\<rparr>) ''ann'')
     \<lparr>qc_PPM := Some fee, RoomSat := room\<rparr>"

theorem whole_quote_cheapest_witness:
  "Covered (wholeQuote 400000000 [sample_quoted ''1x1x1'' 900 300000, sample_quoted ''2x1x1'' 200 250000]) = 400000"
proof -
  let ?cs = "[sample_quoted ''1x1x1'' 900 300000, sample_quoted ''2x1x1'' 200 250000]"
  have p: "by_price ?cs = [sample_quoted ''2x1x1'' 200 250000, sample_quoted ''1x1x1'' 900 300000]" by code_simp
  have "unat (Covered (wholeQuote 400000000 ?cs)) = min (unat (400000000 :: u64)) (\<Sum>c\<leftarrow>by_price ?cs. room_of c) div 1000"
    using whole_quote_cheapest [of ?cs 400000000] by (simp add: sample_quoted_def)
  then have "unat (Covered (wholeQuote 400000000 ?cs)) = 400000" unfolding p by (simp add: sample_quoted_def)
  then show ?thesis by (simp add: u64_eq_iff)
qed

end
