(* ===== verification/SavedState.thy ===== *)
theory SavedState
  imports Candidates
begin

text \<open>
  What the plugin keeps between its runs (\<^verbatim>\<open>node/file.go\<close>, and \<^verbatim>\<open>loadLearned\<close>, \<^verbatim>\<open>applyLearned\<close> and
  \<^verbatim>\<open>Close\<close> of \<^verbatim>\<open>node/node.go\<close>): the file \<^verbatim>\<open>learned.json\<close>, its previous copy, and the graph of
  earlier versions.

  The directory is a map from names to contents.  A save is the list of the operations on it that the
  code makes, so that a crash is a prefix of that list; the content is written character by
  character.  \<^verbatim>\<open>encoding/json\<close> is a parameter: \<open>marshal\<close>, \<open>unmarshal\<close> and \<open>legacy\<close>, which decodes
  what is read of an earlier version's graph.
\<close>

section \<open>The directory\<close>

record disk =
  has_dir :: bool
  files :: "string \<rightharpoonup> string"

datatype fs_op = Mkdir | Create string | Append string char | Remove string | Rename string string

primrec fs_exec :: "fs_op \<Rightarrow> disk \<Rightarrow> disk" where
  "fs_exec Mkdir d = d\<lparr>has_dir := True\<rparr>"
| "fs_exec (Create f) d = d\<lparr>files := (files d)(f \<mapsto> [])\<rparr>"
| "fs_exec (Append f c) d = d\<lparr>files := (files d)(f \<mapsto> (case files d f of None \<Rightarrow> [] | Some s \<Rightarrow> s) @ [c])\<rparr>"
| "fs_exec (Remove f) d = d\<lparr>files := (files d)(f := None)\<rparr>"
| "fs_exec (Rename f f') d =
     (case files d f of None \<Rightarrow> d | Some s \<Rightarrow> d\<lparr>files := (files d)(f' \<mapsto> s, f := None)\<rparr>)"

definition fs_run :: "fs_op list \<Rightarrow> disk \<Rightarrow> disk" where
  "fs_run ops d = foldl (\<lambda>d op. fs_exec op d) d ops"

text \<open>Which operation of a save fails; a write fails after some of its characters.\<close>

record fs_errors =
  fails_mkdir :: bool
  fails_create :: bool
  fails_write :: "nat option"
  fails_rename_old :: bool
  fails_rename :: bool

section \<open>Saving\<close>

definition LEARNED_FILE :: string where "LEARNED_FILE = ''learned.json''"
definition legacyGraphFile :: string where "legacyGraphFile = ''graph.json''"
definition learnedVersion :: int where "learnedVersion = 1"

record learnedState =
  ls_Version :: int
  ls_Liquidity :: "(channel_id \<times> Belief) list"
  ls_Avoid :: "(string \<times> int) list"
  ls_Candidates :: "(channel_id \<times> CandidateRecord) list"
  ls_Nodes :: "(node_id \<times> NodeScore) list"

definition writeSynced :: "fs_errors \<Rightarrow> string \<Rightarrow> string \<Rightarrow> fs_op list \<times> bool" where
  "writeSynced e path data =
     (if fails_create e then ([], False)
      else
        (case fails_write e of
           Some k \<Rightarrow> (Create path # map (Append path) (take k data) @ [Remove path], False)
         | None \<Rightarrow> (Create path # map (Append path) data, True)))"

text \<open>The operations of \<^verbatim>\<open>SaveLearned\<close> once its directory is there, and whether it succeeds.\<close>

definition save_ops ::
    "(learnedState \<Rightarrow> string option) \<Rightarrow> fs_errors \<Rightarrow> disk \<Rightarrow> learnedState \<Rightarrow> fs_op list \<times> bool" where
  "save_ops marshal e d state =
     (case marshal state of
        None \<Rightarrow> ([], False)
      | Some data \<Rightarrow>
          let (w, ok) = writeSynced e (LEARNED_FILE @ ''.tmp'') data;
              present = files d LEARNED_FILE \<noteq> None;
              rotate = (if present then [Rename LEARNED_FILE (LEARNED_FILE @ ''.old'')] else []) in
          if \<not> ok then (w, False)
          else if present \<and> fails_rename_old e then (w, False)
          else if fails_rename e then (w @ rotate, False)
          else (w @ rotate @ [Rename (LEARNED_FILE @ ''.tmp'') LEARNED_FILE], True))"

definition learned_of :: "(rat \<Rightarrow> rat \<Rightarrow> rat) \<Rightarrow> int \<Rightarrow> Node \<Rightarrow> Node \<times> learnedState" where
  "learned_of mpow now n =
     (let (g, nodes) = NodeScores mpow now (node_Graph n) in
      (n\<lparr>node_Graph := g\<rparr>,
       \<lparr>ls_Version = learnedVersion, ls_Liquidity = Beliefs (node_Graph n), ls_Avoid = AvoidList (node_Graph n),
        ls_Candidates = candidateList n, ls_Nodes = nodes\<rparr>))"

definition SaveLearned ::
    "(learnedState \<Rightarrow> string option) \<Rightarrow> (rat \<Rightarrow> rat \<Rightarrow> rat) \<Rightarrow> int \<Rightarrow> fs_errors \<Rightarrow> Node \<Rightarrow> disk \<Rightarrow> Node \<times> disk \<times> bool" where
  "SaveLearned marshal mpow now e n d =
     (if \<not> has_dir d \<and> fails_mkdir e then (n, d, False)
      else
        let d = (if has_dir d then d else fs_exec Mkdir d);
            (n, state) = learned_of mpow now n;
            (ops, ok) = save_ops marshal e d state in
        (n, fs_run ops d, ok))"

section \<open>Loading\<close>

record LegacyChannel =
  lc_AmountMsat :: u64
  lc_Liquidity :: u64
  lc_Timestamp :: int

definition readLearned :: "(string \<Rightarrow> learnedState option) \<Rightarrow> disk \<Rightarrow> string \<Rightarrow> learnedState option" where
  "readLearned unmarshal d path =
     (case Option.bind (files d path) unmarshal of
        None \<Rightarrow> None
      | Some state \<Rightarrow> if ls_Version state \<noteq> learnedVersion then None else Some state)"

definition readLegacyGraph ::
    "(string \<Rightarrow> (channel_id \<times> LegacyChannel) list option) \<Rightarrow> disk \<Rightarrow> string \<Rightarrow> (channel_id \<times> Belief) list option" where
  "readLegacyGraph legacy d path =
     map_option
       (\<lambda>chs. map (\<lambda>(i, c). (i, \<lparr>b_Liquidity = lc_Liquidity c, b_Timestamp = lc_Timestamp c, b_Upper = False\<rparr>))
         (filter (\<lambda>(i, c). lc_Timestamp c \<noteq> 0 \<and> lc_Liquidity c \<noteq> lc_AmountMsat c div 2) chs))
       (Option.bind (files d path) legacy)"

text \<open>What is loaded, and whether it is an earlier version's; \<^const>\<open>None\<close> is \<^verbatim>\<open>util.ErrNoGraphToLoad\<close>.\<close>

definition LoadLearned ::
    "(string \<Rightarrow> learnedState option) \<Rightarrow> (string \<Rightarrow> (channel_id \<times> LegacyChannel) list option) \<Rightarrow> disk
       \<Rightarrow> (learnedState \<times> bool) option" where
  "LoadLearned unmarshal legacy d =
     (let learned = List.map_filter (readLearned unmarshal d) [LEARNED_FILE, LEARNED_FILE @ ''.old''];
          graphs = List.map_filter (readLegacyGraph legacy d) [legacyGraphFile, legacyGraphFile @ ''.old''] in
      case learned of
        state # _ \<Rightarrow> Some (state, False)
      | [] \<Rightarrow>
          (case graphs of
             beliefs # _ \<Rightarrow>
               Some (\<lparr>ls_Version = learnedVersion, ls_Liquidity = beliefs, ls_Avoid = [], ls_Candidates = [],
                      ls_Nodes = []\<rparr>, True)
           | [] \<Rightarrow> None))"

definition RemoveLegacyGraph :: "disk \<Rightarrow> disk" where
  "RemoveLegacyGraph d =
     fs_run (map Remove [legacyGraphFile, legacyGraphFile @ ''.old'', legacyGraphFile @ ''.tmp'']) d"

section \<open>The plugin\<close>

record Plugin =
  pl_Node :: Node
  pl_Disk :: disk
  pendingBeliefs :: "learnedState option"
  migrateLegacy :: bool
  learnedApplied :: bool

definition loadLearned ::
    "(string \<Rightarrow> learnedState option) \<Rightarrow> (string \<Rightarrow> (channel_id \<times> LegacyChannel) list option) \<Rightarrow> Plugin \<Rightarrow> Plugin" where
  "loadLearned unmarshal legacy pl =
     (case LoadLearned unmarshal legacy (pl_Disk pl) of
        None \<Rightarrow> pl
      | Some (state, old) \<Rightarrow> pl\<lparr>pendingBeliefs := Some state, migrateLegacy := old\<rparr>)"

text \<open>What is applied of a saved state; \<open>since\<close> is the time from which beliefs count.\<close>

definition apply_saved :: "int \<Rightarrow> learnedState \<Rightarrow> Node \<Rightarrow> Node" where
  "apply_saved since state n =
     (let n = on_graph (\<lambda>g. fst (ApplyBeliefs g (ls_Liquidity state) since)) n;
          n = on_graph (\<lambda>g. foldl (\<lambda>g (key, until). avoid_key g key until) g (ls_Avoid state)) n;
          n = restoreCandidates n (ls_Candidates state) in
      if ls_Nodes state \<noteq> [] then on_graph (\<lambda>g. fst (ApplyNodeScores g (ls_Nodes state))) n else n)"

text \<open>\<open>now_ns\<close> is the time in nanoseconds, as is the refresh interval.\<close>

definition applyLearned ::
    "(learnedState \<Rightarrow> string option) \<Rightarrow> (rat \<Rightarrow> rat \<Rightarrow> rat) \<Rightarrow> int \<Rightarrow> fs_errors \<Rightarrow> Plugin \<Rightarrow> Plugin" where
  "applyLearned marshal mpow now_ns e pl =
     (let n = pl_Node pl;
          n = (case pendingBeliefs pl of
                 None \<Rightarrow> n
               | Some state \<Rightarrow> apply_saved ((now_ns - liquidityRefresh n) div 1000000000) state n);
          n = (if localChannelIds n \<noteq> {} then fst (pruneCandidates n (localChannelIds n)) else n);
          (n, d, ok) = SaveLearned marshal mpow (now_ns div 1000000000) e n (pl_Disk pl);
          pl = pl\<lparr>pl_Node := n, pl_Disk := d, pendingBeliefs := None, learnedApplied := True\<rparr> in
      if ok \<and> migrateLegacy pl then pl\<lparr>pl_Disk := RemoveLegacyGraph (pl_Disk pl), migrateLegacy := False\<rparr> else pl)"

text \<open>\<^verbatim>\<open>Close\<close>, up to the database; the graph and its directory are set by then.\<close>

definition plugin_Close ::
    "(learnedState \<Rightarrow> string option) \<Rightarrow> (rat \<Rightarrow> rat \<Rightarrow> rat) \<Rightarrow> int \<Rightarrow> fs_errors \<Rightarrow> Plugin \<Rightarrow> Plugin" where
  "plugin_Close marshal mpow now e pl =
     (let pl = pl\<lparr>pl_Node := (pl_Node pl)\<lparr>Stopped := True\<rparr>\<rparr> in
      if learnedApplied pl then
        let (n, d, ok) = SaveLearned marshal mpow now e (pl_Node pl) (pl_Disk pl) in
        pl\<lparr>pl_Node := n, pl_Disk := d\<rparr>
      else pl)"

end
