(* ===== verification/SavedClaims.thy ===== *)
theory SavedClaims
  imports SavedState GraphClaims PeerClaims
begin

text \<open>
  What a restart keeps: a crash in the middle of a save leaves what was saved before or what was being
  saved, a completed save is what the next start loads, and the beliefs, the avoid list and the
  candidate records it holds are those the graph then has.
\<close>

section \<open>Crashes\<close>

text \<open>What \<^verbatim>\<open>encoding/json\<close> promises of its two directions.\<close>

definition decodes :: "(learnedState \<Rightarrow> string option) \<Rightarrow> (string \<Rightarrow> learnedState option) \<Rightarrow> bool" where
  "decodes marshal unmarshal \<longleftrightarrow> (\<forall>state data. marshal state = Some data \<longrightarrow> unmarshal data = Some state)"

lemma fs_run_simps [simp]:
  "fs_run [] d = d" "fs_run (op # ops) d = fs_run ops (fs_exec op d)" "fs_run (ops @ ops') d = fs_run ops' (fs_run ops d)"
  by (simp_all add: fs_run_def)

lemma file_names [simp]:
  "LEARNED_FILE @ s \<noteq> legacyGraphFile @ t" "LEARNED_FILE \<noteq> legacyGraphFile @ t" "LEARNED_FILE @ s \<noteq> legacyGraphFile"
  "LEARNED_FILE \<noteq> legacyGraphFile" "legacyGraphFile @ t \<noteq> LEARNED_FILE @ s" "legacyGraphFile @ t \<noteq> LEARNED_FILE"
  "legacyGraphFile \<noteq> LEARNED_FILE @ s" "legacyGraphFile \<noteq> LEARNED_FILE"
  by (simp_all add: LEARNED_FILE_def legacyGraphFile_def)

text \<open>The names that loading reads.\<close>

definition read_names :: "string set" where
  "read_names = {LEARNED_FILE, LEARNED_FILE @ ''.old'', legacyGraphFile, legacyGraphFile @ ''.old''}"

lemma LoadLearned_cong:
  assumes "\<And>f. f \<in> read_names \<Longrightarrow> files d f = files d' f"
  shows "LoadLearned unmarshal legacy d = LoadLearned unmarshal legacy d'"
  using assms
  by (simp add: LoadLearned_def readLearned_def readLegacyGraph_def read_names_def List.map_filter_simps
      cong: list.case_cong option.case_cong if_cong)

fun touches :: "fs_op \<Rightarrow> string set" where
  "touches Mkdir = {}"
| "touches (Create f) = {f}"
| "touches (Append f c) = {f}"
| "touches (Remove f) = {f}"
| "touches (Rename f f') = {f, f'}"

lemma fs_exec_other: "f \<notin> touches op \<Longrightarrow> files (fs_exec op d) f = files d f"
  by (cases op) (auto split: option.split)

lemma fs_run_other: "\<forall>op \<in> set ops. f \<notin> touches op \<Longrightarrow> files (fs_run ops d) f = files d f"
  by (induction ops arbitrary: d) (simp_all add: fs_exec_other)

lemma run_appends:
  "files (fs_run (map (Append f) s) d) f = (case files d f of None \<Rightarrow> (if s = [] then None else Some s) | Some t \<Rightarrow> Some (t @ s))"
  by (induction s arbitrary: d) (auto split: option.split)

lemma writeSynced_ops:
  assumes "writeSynced e f data = (ops, ok)"
  shows "\<forall>op \<in> set ops. touches op = {f}" "ok \<Longrightarrow> files (fs_run ops d) f = Some data"
  using assms by (auto simp: writeSynced_def run_appends split: if_splits option.splits)

lemma save_ops_shape:
  assumes "save_ops marshal e d state = (ops, ok)"
  obtains (unfinished) "\<forall>op \<in> set ops. touches op = {LEARNED_FILE @ ''.tmp''}" "\<not> ok"
  | (rotated) w data rotate where "marshal state = Some data" "writeSynced e (LEARNED_FILE @ ''.tmp'') data = (w, True)"
      "rotate = (if files d LEARNED_FILE = None then [] else [Rename LEARNED_FILE (LEARNED_FILE @ ''.old'')])"
      "ops = w @ rotate @ (if ok then [Rename (LEARNED_FILE @ ''.tmp'') LEARNED_FILE] else [])"
proof (cases "marshal state")
  case None
  then show ?thesis using assms by (intro unfinished) (auto simp: save_ops_def)
next
  case (Some data)
  obtain w written where w: "writeSynced e (LEARNED_FILE @ ''.tmp'') data = (w, written)" by fastforce
  note tmp = writeSynced_ops(1) [OF w]
  show ?thesis
  proof (cases "written \<and> \<not> (files d LEARNED_FILE \<noteq> None \<and> fails_rename_old e)")
    case True
    then show ?thesis using assms Some w by (intro rotated [OF Some _ refl, of w]) (auto simp: save_ops_def Let_def split: if_splits)
  next
    case False
    then show ?thesis using assms Some w tmp by (intro unfinished) (auto simp: save_ops_def Let_def split: if_splits)
  qed
qed

text \<open>A prefix of a save either leaves what loading reads alone, or is past the first renaming.\<close>

lemma fs_run_temporary:
  assumes "\<forall>op \<in> set ops. touches op = {LEARNED_FILE @ ''.tmp''}"
  shows "LoadLearned unmarshal legacy (fs_run ops d) = LoadLearned unmarshal legacy d"
  using assms by (intro LoadLearned_cong fs_run_other) (auto simp: read_names_def LEARNED_FILE_def legacyGraphFile_def)

lemma readLearned_first:
  "readLearned unmarshal d LEARNED_FILE = Some state \<Longrightarrow> LoadLearned unmarshal legacy d = Some (state, False)"
  by (simp add: LoadLearned_def List.map_filter_simps)

lemma readLearned_second:
  "files d LEARNED_FILE = None \<Longrightarrow> readLearned unmarshal d (LEARNED_FILE @ ''.old'') = Some state \<Longrightarrow>
     LoadLearned unmarshal legacy d = Some (state, False)"
  by (simp add: LoadLearned_def List.map_filter_simps readLearned_def)

lemma LoadLearned_nothing:
  assumes "readLearned unmarshal d LEARNED_FILE = None" "readLearned unmarshal d (LEARNED_FILE @ ''.old'') = None"
    and "files d legacyGraphFile = None" "files d (legacyGraphFile @ ''.old'') = None"
  shows "LoadLearned unmarshal legacy d = None"
  using assms by (simp add: LoadLearned_def List.map_filter_simps readLegacyGraph_def)

text \<open>The new file is written in full and the old one decodes; a crash between the renames.\<close>

lemma renames_keep_a_state:
  assumes new: "files d (LEARNED_FILE @ ''.tmp'') = Some data" "unmarshal data = Some state" "ls_Version state = learnedVersion"
    and old: "files d LEARNED_FILE = None \<or> readLearned unmarshal d LEARNED_FILE \<noteq> None"
    and rotate: "moves = (if files d LEARNED_FILE = None then [] else [Rename LEARNED_FILE (LEARNED_FILE @ ''.old'')])"
  shows "LoadLearned unmarshal legacy (fs_run moves d) = LoadLearned unmarshal legacy d"
    and "LoadLearned unmarshal legacy (fs_exec (Rename (LEARNED_FILE @ ''.tmp'') LEARNED_FILE) (fs_run moves d)) = Some (state, False)"
proof -
  have "files (fs_run moves d) (LEARNED_FILE @ ''.tmp'') = Some data"
    using new(1) by (simp add: rotate split: option.split)
  then show "LoadLearned unmarshal legacy (fs_exec (Rename (LEARNED_FILE @ ''.tmp'') LEARNED_FILE) (fs_run moves d)) = Some (state, False)"
    using new(2,3) by (intro readLearned_first) (simp add: readLearned_def)
  show "LoadLearned unmarshal legacy (fs_run moves d) = LoadLearned unmarshal legacy d"
  proof (cases "files d LEARNED_FILE")
    case (Some was)
    then obtain s0 where s0: "readLearned unmarshal d LEARNED_FILE = Some s0" using old by auto
    have "LoadLearned unmarshal legacy (fs_run moves d) = Some (s0, False)"
      using s0 Some by (intro readLearned_second) (simp_all add: rotate readLearned_def)
    then show ?thesis by (simp add: readLearned_first [OF s0])
  qed (simp add: rotate)
qed

lemma take_of_one:
  "length xs \<le> k \<Longrightarrow> take k (xs @ (if b then [y] else [])) = xs @ (if b \<and> length xs < k then [y] else [])"
  by (auto simp: take_Cons' not_less)

text \<open>
C19
Whatever goes wrong while the plugin saves, and wherever it crashes in the middle, the next start
loads what it would have loaded before, or exactly what was being saved, as long as the current file,
if there is one, could be read; and a save that succeeds is what the next start loads.
\<close>
theorem crash_keeps_a_state:
  assumes "decodes marshal unmarshal" "ls_Version state = learnedVersion"
    and "files d LEARNED_FILE = None \<or> readLearned unmarshal d LEARNED_FILE \<noteq> None"
    and "save_ops marshal e d state = (ops, ok)"
  shows "LoadLearned unmarshal legacy (fs_run (take k ops) d) \<in> {LoadLearned unmarshal legacy d, Some (state, False)} \<and>
    (ok \<and> length ops \<le> k \<longrightarrow> LoadLearned unmarshal legacy (fs_run (take k ops) d) = Some (state, False))"
  using assms(4)
proof (cases rule: save_ops_shape)
  case unfinished
  then have "\<forall>op \<in> set (take k ops). touches op = {LEARNED_FILE @ ''.tmp''}" by (meson in_set_takeD)
  then show ?thesis using unfinished by (simp add: fs_run_temporary)
next
  case (rotated w data rotate)
  let ?d = "fs_run w d"
  note w = writeSynced_ops [OF rotated(2)]
  have same: "files ?d f = files d f" if "f \<noteq> LEARNED_FILE @ ''.tmp''" for f
    using w(1) that by (intro fs_run_other) auto
  have loaded: "LoadLearned unmarshal legacy ?d = LoadLearned unmarshal legacy d" by (rule fs_run_temporary [OF w(1)])
  have new: "files ?d (LEARNED_FILE @ ''.tmp'') = Some data" "unmarshal data = Some state"
    using w(2) assms(1) rotated(1) by (simp_all add: decodes_def)
  have old: "files ?d LEARNED_FILE = None \<or> readLearned unmarshal ?d LEARNED_FILE \<noteq> None"
    using assms(3) same by (simp add: readLearned_def)
  have rotate: "rotate = (if files ?d LEARNED_FILE = None then [] else [Rename LEARNED_FILE (LEARNED_FILE @ ''.old'')])"
    using rotated(3) same by simp
  note loads = renames_keep_a_state [where legacy = legacy, OF new assms(2) old rotate]
  show ?thesis
  proof (cases "k \<le> length w")
    case True
    then have "take k ops = take k w" using rotated(4) by simp
    moreover have "\<forall>op \<in> set (take k w). touches op = {LEARNED_FILE @ ''.tmp''}" using w(1) by (meson in_set_takeD)
    ultimately show ?thesis using True rotated(3,4) by (auto simp: fs_run_temporary)
  next
    case False
    have first: "length rotate \<le> k - length w" using False by (auto simp: rotate Suc_le_eq)
    then have "take k ops = w @ rotate @ (if ok \<and> length rotate < k - length w then [Rename (LEARNED_FILE @ ''.tmp'') LEARNED_FILE] else [])"
      using False take_of_one [OF first] by (simp add: rotated(4))
    moreover have "length rotate < k - length w" if "ok" "length ops \<le> k"
      using that False by (simp add: rotated(4))
    ultimately show ?thesis using loads loaded by simp
  qed
qed

text \<open>A codec of one state, and one more that was saved before.\<close>

definition sample_codec :: "learnedState \<Rightarrow> (learnedState \<Rightarrow> string option) \<times> (string \<Rightarrow> learnedState option)" where
  "sample_codec new =
     (\<lambda>state. if state = new then Some ''new'' else None,
      \<lambda>data. if data = ''new'' then Some new
        else if data = ''old'' then Some (new\<lparr>ls_Avoid := [(''bob'', 10)]\<rparr>) else None)"

lemma sample_codec_decodes: "decodes (fst (sample_codec new)) (snd (sample_codec new))"
  by (simp add: decodes_def sample_codec_def)

definition no_errors :: fs_errors where
  "no_errors = \<lparr>fails_mkdir = False, fails_create = False, fails_write = None, fails_rename_old = False, fails_rename = False\<rparr>"

definition sample_disk :: disk where
  "sample_disk = \<lparr>has_dir = True, files = [LEARNED_FILE \<mapsto> ''old'']\<rparr>"

definition sample_saved :: learnedState where
  "sample_saved = \<lparr>ls_Version = learnedVersion, ls_Liquidity = [], ls_Avoid = [(''ann'', 20)], ls_Candidates = [], ls_Nodes = []\<rparr>"

text \<open>A crash between the two renamings.\<close>

theorem crash_keeps_a_state_witness:
  "LoadLearned (snd (sample_codec sample_saved)) (\<lambda>_. None)
     (fs_run (take 5 (fst (save_ops (fst (sample_codec sample_saved)) no_errors sample_disk sample_saved))) sample_disk)
   \<in> {Some (sample_saved\<lparr>ls_Avoid := [(''bob'', 10)]\<rparr>, False), Some (sample_saved, False)}"
proof -
  obtain ops ok where ops: "save_ops (fst (sample_codec sample_saved)) no_errors sample_disk sample_saved = (ops, ok)" by fastforce
  have "readLearned (snd (sample_codec sample_saved)) sample_disk LEARNED_FILE = Some (sample_saved\<lparr>ls_Avoid := [(''bob'', 10)]\<rparr>)"
    by (simp add: readLearned_def sample_disk_def sample_codec_def sample_saved_def)
  moreover from readLearned_first [OF this]
  have "LoadLearned (snd (sample_codec sample_saved)) (\<lambda>_. None) sample_disk = Some (sample_saved\<lparr>ls_Avoid := [(''bob'', 10)]\<rparr>, False)" .
  moreover have "ls_Version sample_saved = learnedVersion" by (simp add: sample_saved_def)
  ultimately show ?thesis
    using crash_keeps_a_state [OF sample_codec_decodes _ _ ops, of "\<lambda>_. None" 5] by (simp add: ops)
qed

text \<open>A current file that cannot be read is no help: it takes the place of its readable copy.\<close>

lemma unreadable_file_replaces_copy:
  assumes "files d LEARNED_FILE = Some bad" "unmarshal bad = None"
    and "files d legacyGraphFile = None" "files d (legacyGraphFile @ ''.old'') = None"
    and "save_ops marshal e d state = (ops, True)"
  shows "\<exists>k. LoadLearned unmarshal legacy (fs_run (take k ops) d) = None"
  using assms(5)
proof (cases rule: save_ops_shape)
  case (rotated w data rotate)
  let ?k = "Suc (length w)" let ?first = "fs_exec (Rename LEARNED_FILE (LEARNED_FILE @ ''.old'')) (fs_run w d)"
  have "files (fs_run w d) f = files d f" if "f \<noteq> LEARNED_FILE @ ''.tmp''" for f
    using writeSynced_ops(1) [OF rotated(2)] that by (intro fs_run_other) auto
  then have "LoadLearned unmarshal legacy ?first = None"
    using assms(1-4) by (intro LoadLearned_nothing) (simp_all add: readLearned_def)
  moreover have "take ?k ops = w @ [Rename LEARNED_FILE (LEARNED_FILE @ ''.old'')]"
    using rotated(3,4) assms(1) by simp
  ultimately show ?thesis by (intro exI [where x = ?k]) simp
qed simp

section \<open>Restarts\<close>

lemma SaveLearned_loads:
  assumes "decodes marshal unmarshal" "SaveLearned marshal mpow now e n d = (n', d', True)"
  shows "LoadLearned unmarshal legacy d' = Some (snd (learned_of mpow now n), False)"
proof -
  let ?d = "if has_dir d then d else fs_exec Mkdir d"
  obtain ops ok where save: "save_ops marshal e ?d (snd (learned_of mpow now n)) = (ops, ok)" by fastforce
  then have ops: "save_ops marshal e ?d (snd (learned_of mpow now n)) = (ops, True)" "d' = fs_run ops ?d"
    using assms(2) by (auto simp: SaveLearned_def Let_def split_beta split: if_splits)
  show ?thesis
    using ops(1)
  proof (cases rule: save_ops_shape)
    case (rotated w data rotate)
    have "files (fs_run (w @ rotate) ?d) (LEARNED_FILE @ ''.tmp'') = Some data"
      using writeSynced_ops(2) [OF rotated(2)] rotated(3) by (auto split: option.split)
    then have "files d' LEARNED_FILE = Some data" by (simp add: ops(2) rotated(4))
    moreover have "unmarshal data = Some (snd (learned_of mpow now n))" using assms(1) rotated(1) by (simp add: decodes_def)
    moreover have "ls_Version (snd (learned_of mpow now n)) = learnedVersion" by (simp add: learned_of_def split_beta)
    ultimately show ?thesis by (intro readLearned_first) (simp add: readLearned_def)
  qed simp
qed

text \<open>Until when a node or a channel is avoided.\<close>

definition avoided_until :: "Graph \<Rightarrow> string \<Rightarrow> int" where
  "avoided_until g key = (case map_of (avoid g) key of None \<Rightarrow> 0 | Some t \<Rightarrow> t)"

lemma avoided_until_key: "avoided_until (avoid_key g key until) k = (if k = key then max until (avoided_until g key) else avoided_until g k)"
  by (auto simp: avoided_until_def avoid_key_def)

abbreviation avoid_keys :: "Graph \<Rightarrow> (string \<times> int) list \<Rightarrow> Graph" where
  "avoid_keys \<equiv> foldl (\<lambda>g (key, until). avoid_key g key until)"

lemma avoid_keys_grow: "avoided_until g k \<le> avoided_until (avoid_keys g ks) k"
proof (induction ks arbitrary: g)
  case (Cons x ks)
  obtain key until where x: "x = (key, until)" by (cases x)
  have "avoided_until g k \<le> avoided_until (avoid_key g key until) k" by (simp add: avoided_until_key)
  also have "\<dots> \<le> avoided_until (avoid_keys (avoid_key g key until) ks) k" by (rule Cons.IH)
  finally show ?case by (simp add: x)
qed simp

lemma avoid_keys_all: "(k, t) \<in> set ks \<Longrightarrow> t \<le> avoided_until (avoid_keys g ks) k"
proof (induction ks arbitrary: g)
  case (Cons x ks)
  show ?case
  proof (cases "x = (k, t)")
    case True
    have "t \<le> avoided_until (avoid_key g k t) k" by (simp add: avoided_until_key)
    also have "\<dots> \<le> avoided_until (avoid_keys (avoid_key g k t) ks) k" by (rule avoid_keys_grow)
    finally show ?thesis by (simp add: True)
  next
    case False
    then show ?thesis using Cons by (cases x) auto
  qed
qed simp

text \<open>What applying one kind of what was saved leaves of the others.\<close>

lemma avoid_keys_frame [simp]: "Channels (avoid_keys g ks) = Channels g"
proof (induction ks arbitrary: g)
  case (Cons x ks)
  then show ?case by (cases x) (simp add: avoid_key_def)
qed simp

lemma ApplyNodeScores_frame [simp]:
  "Channels (fst (ApplyNodeScores g scores)) = Channels g" "avoid (fst (ApplyNodeScores g scores)) = avoid g"
proof -
  have "Channels (fst (foldl ApplyNodeScore st scores)) = Channels (fst st) \<and> avoid (fst (foldl ApplyNodeScore st scores)) = avoid (fst st)" for st
  proof (induction scores arbitrary: st)
    case (Cons x scores)
    have "Channels (fst (ApplyNodeScore st x)) = Channels (fst st) \<and> avoid (fst (ApplyNodeScore st x)) = avoid (fst st)"
      by (simp add: ApplyNodeScore_def split_beta)
    then show ?case using Cons.IH [of "ApplyNodeScore st x"] by simp
  qed simp
  from this [of "(g, 0)"]
  show "Channels (fst (ApplyNodeScores g scores)) = Channels g" "avoid (fst (ApplyNodeScores g scores)) = avoid g"
    by (simp_all add: ApplyNodeScores_def)
qed

lemma ApplyBelief_other: "i \<noteq> j \<Longrightarrow> channel_at (fst (ApplyBelief since st (j, b))) i = channel_at (fst st) i"
  by (simp add: ApplyBelief_def split_beta split: option.split)

lemma ApplyBeliefs_other:
  "i \<notin> fst ` set bs \<Longrightarrow> channel_at (fst (foldl (ApplyBelief since) st bs)) i = channel_at (fst st) i"
proof (induction bs arbitrary: st)
  case (Cons x bs)
  then show ?case using ApplyBelief_other [of i "fst x" since st "snd x"] by simp
qed simp

lemma ApplyBeliefs_at:
  assumes "keys_distinct bs" "map_of bs i = Some b" "channel_at (fst st) i = Some c" "fits_belief since b c"
  shows "channel_at (fst (foldl (ApplyBelief since) st bs)) i =
    Some (c\<lparr>Liquidity := b_Liquidity b, Timestamp := b_Timestamp b, Upper := b_Upper b\<rparr>)"
  using assms
proof (induction bs arbitrary: st)
  case (Cons x bs)
  obtain j b' where x: "x = (j, b')" by (cases x)
  show ?case
  proof (cases "j = i")
    case True
    then have "i \<notin> fst ` set bs" "b' = b" using Cons.prems(1,2) x by auto
    moreover have "channel_at (fst (ApplyBelief since st (i, b))) i =
        Some (c\<lparr>Liquidity := b_Liquidity b, Timestamp := b_Timestamp b, Upper := b_Upper b\<rparr>)"
      using Cons.prems(3,4) by (simp add: ApplyBelief_def split_beta)
    ultimately show ?thesis using ApplyBeliefs_other [of i bs since] by (simp add: x True)
  next
    case False
    then show ?thesis using Cons.IH [of "ApplyBelief since st (j, b')"] Cons.prems ApplyBelief_other [of i j since st b']
      by (simp add: x)
  qed
qed (simp only: map_of.simps option.simps)

lemma restoreCandidates_at:
  assumes "map_of (candidates n) i = None"
  shows "map_of (candidates (restoreCandidates n saved)) i = map_of saved i"
proof -
  let ?one = "\<lambda>m (i, r). case map_of m i of Some _ \<Rightarrow> m | None \<Rightarrow> AList.update i r m"
  have kept: "map_of m i = Some r \<Longrightarrow> map_of (foldl ?one m xs) i = Some r" for m r xs
  proof (induction xs arbitrary: m)
    case (Cons x xs)
    then have "map_of (?one m x) i = Some r" by (cases x) (auto split: option.split)
    from Cons.IH [OF this] show ?case by simp
  qed simp
  have "map_of m i = None \<Longrightarrow> map_of (foldl ?one m saved) i = map_of saved i" for m
  proof (induction saved arbitrary: m)
    case (Cons x saved)
    obtain j r where x: "x = (j, r)" by (cases x)
    show ?case
    proof (cases "j = i")
      case True
      then show ?thesis using Cons.prems kept [of "AList.update i r m" r saved] by (simp add: x)
    next
      case False
      then have "map_of (?one m x) i = None" using Cons.prems by (auto simp: x split: option.split)
      from Cons.IH [OF this] show ?thesis using False by (simp add: x)
    qed
  qed simp
  then show ?thesis using assms by (simp add: restoreCandidates_def)
qed

text \<open>The parts of a saved state, and what applying them does.\<close>

lemma learned_parts:
  "ls_Liquidity (snd (learned_of mpow now n)) = Beliefs (node_Graph n)"
  "ls_Avoid (snd (learned_of mpow now n)) = avoid (node_Graph n)"
  "ls_Candidates (snd (learned_of mpow now n)) = candidates n"
  by (simp_all add: learned_of_def split_beta AvoidList_def candidateList_def)

lemma apply_saved_parts:
  "Channels (node_Graph (apply_saved since state m))
     = Channels (fst (foldl (ApplyBelief since) (node_Graph m, 0) (ls_Liquidity state)))"
  "avoid (node_Graph (apply_saved since state m))
     = avoid (avoid_keys (fst (ApplyBeliefs (node_Graph m) (ls_Liquidity state) since)) (ls_Avoid state))"
  "candidates (apply_saved since state m) = candidates (restoreCandidates m (ls_Candidates state))"
  by (simp_all add: apply_saved_def Let_def restoreCandidates_def ApplyBeliefs_def)

lemma belief_restored:
  assumes "keys_distinct (Channels g)" "channel_at g i = Some c" "learned c" "channel_at h i = Some c'"
    and "since \<le> Timestamp c" "Timestamp c' < Timestamp c" "Liquidity c \<le> AmountMsat c'"
  shows "map_of (Channels (fst (foldl (ApplyBelief since) (h, 0) (Beliefs g)))) i
    = Some (c'\<lparr>Liquidity := Liquidity c, Timestamp := Timestamp c, Upper := Upper c\<rparr>)"
proof -
  have bs: "Beliefs g = map_vals (\<lambda>_ c. \<lparr>b_Liquidity = Liquidity c, b_Timestamp = Timestamp c, b_Upper = Upper c\<rparr>)
      (filter (\<lambda>(i, c). learned c) (Channels g))"
    by (simp add: Beliefs_def map_vals_def)
  then have distinct: "keys_distinct (Beliefs g)" using assms(1) by simp
  have "map_of (Beliefs g) i = Some \<lparr>b_Liquidity = Liquidity c, b_Timestamp = Timestamp c, b_Upper = Upper c\<rparr>"
    using assms(1-3) by (simp add: bs map_of_filter_key)
  from ApplyBeliefs_at [OF distinct this, of "(h, 0)" c' since] show ?thesis
    using assms(4-) by (simp add: fits_belief_def not_less not_le)
qed

lemma avoided_restored: "avoided_until g key \<le> max 0 (avoided_until (avoid_keys h (avoid g)) key)"
proof (cases "map_of (avoid g) key")
  case (Some t)
  then have "t \<le> avoided_until (avoid_keys h (avoid g)) key" by (intro avoid_keys_all) (rule map_of_SomeD)
  with Some show ?thesis by (simp add: avoided_until_def)
qed (simp add: avoided_until_def)

text \<open>
C20
What a run of the plugin saves is what the next one starts from: each belief that is recent enough and
fits the channel as listed, newer than what the channel says itself, is the channel's belief again;
what was to be avoided still is, until then at least; and candidates have their records back.
\<close>
theorem learned_survives_restart:
  assumes "decodes marshal unmarshal" "keys_distinct (Channels (node_Graph n))"
    and "SaveLearned marshal mpow now e n d = (n', d', True)" "LoadLearned unmarshal legacy d' = Some (state, old)"
  shows "\<not> old \<and>
    (\<forall>i c c'. channel_at (node_Graph n) i = Some c \<and> learned c \<and> channel_at (node_Graph m) i = Some c' \<and>
       since \<le> Timestamp c \<and> Timestamp c' < Timestamp c \<and> Liquidity c \<le> AmountMsat c' \<longrightarrow>
       channel_at (node_Graph (apply_saved since state m)) i =
         Some (c'\<lparr>Liquidity := Liquidity c, Timestamp := Timestamp c, Upper := Upper c\<rparr>)) \<and>
    (\<forall>key. avoided_until (node_Graph n) key \<le> max 0 (avoided_until (node_Graph (apply_saved since state m)) key)) \<and>
    (\<forall>i. map_of (candidates m) i = None \<longrightarrow>
       map_of (candidates (apply_saved since state m)) i = map_of (candidates n) i)"
proof -
  have state: "state = snd (learned_of mpow now n)" "\<not> old"
    using SaveLearned_loads [OF assms(1,3), of legacy] assms(4) by simp_all
  note parts = apply_saved_parts [of since state m, unfolded state(1) learned_parts]
  have until: "avoided_until (node_Graph n) key \<le> max 0 (avoided_until (node_Graph (apply_saved since state m)) key)" for key
    using avoided_restored [of "node_Graph n" key "fst (ApplyBeliefs (node_Graph m) (Beliefs (node_Graph n)) since)"] parts(2)
    by (simp add: state(1) avoided_until_def)
  have candidates: "map_of (candidates (apply_saved since state m)) i = map_of (candidates n) i"
    if "map_of (candidates m) i = None" for i
    using restoreCandidates_at [of m i "candidates n"] that parts(3) by (simp add: state(1))
  show ?thesis
    using state(2) until candidates belief_restored [OF assms(2)] parts(1) by (simp add: state(1))
qed

text \<open>A node that learned that a channel cannot carry 100000 sat, and one that starts over.\<close>

definition sample_learner :: Node where
  "sample_learner = new_node\<lparr>node_Graph := LearnUpperBound 50 sample_graph ''2x2x2/0'' 100000000\<rparr>"

definition sample_restarted :: Node where
  "sample_restarted = new_node\<lparr>node_Graph := sample_graph\<rparr>"

theorem learned_survives_restart_witness:
  "map_option Liquidity (channel_at (node_Graph
     (apply_saved 0 (snd (learned_of (\<lambda>_ _. 0) 60 sample_learner)) sample_restarted)) ''2x2x2/0'') = Some 99999999"
proof -
  let ?state = "snd (learned_of (\<lambda>_ _. 0) 60 sample_learner)"
  let ?codec = "sample_codec ?state"
  obtain n' d' where saved: "SaveLearned (fst ?codec) (\<lambda>_ _. 0) 60 no_errors sample_learner sample_disk = (n', d', True)"
    by (auto simp: SaveLearned_def save_ops_def writeSynced_def sample_codec_def no_errors_def sample_disk_def Let_def split_beta)
  have loads: "LoadLearned (snd ?codec) (\<lambda>_. None) d' = Some (?state, False)"
    by (rule SaveLearned_loads [OF sample_codec_decodes saved])
  have distinct: "keys_distinct (Channels (node_Graph sample_learner))" by code_simp
  obtain c where c: "channel_at (node_Graph sample_learner) ''2x2x2/0'' = Some c"
    "Liquidity c = 99999999" "Timestamp c = 50" "learned c"
  proof -
    have "(case channel_at (node_Graph sample_learner) ''2x2x2/0'' of None \<Rightarrow> False
       | Some c \<Rightarrow> Liquidity c = 99999999 \<and> Timestamp c = 50 \<and> learned c)" by code_simp
    with that show ?thesis by (auto split: option.splits)
  qed
  obtain c' where c': "channel_at (node_Graph sample_restarted) ''2x2x2/0'' = Some c'" "Timestamp c' = 0" "AmountMsat c' = 2000000000"
  proof -
    have "(case channel_at (node_Graph sample_restarted) ''2x2x2/0'' of None \<Rightarrow> False
       | Some c \<Rightarrow> Timestamp c = 0 \<and> AmountMsat c = 2000000000)" by code_simp
    with that show ?thesis by (auto split: option.splits)
  qed
  have "channel_at (node_Graph (apply_saved 0 ?state sample_restarted)) ''2x2x2/0'' =
      Some (c'\<lparr>Liquidity := Liquidity c, Timestamp := Timestamp c, Upper := Upper c\<rparr>)"
    using learned_survives_restart [OF sample_codec_decodes distinct saved loads, of sample_restarted 0,
        THEN conjunct2, THEN conjunct1, rule_format, of "''2x2x2/0''" c c'] c c' by simp
  then show ?thesis by (simp add: c(2))
qed

end
