(* ===== verification/Payments.thy ===== *)
theory Payments
  imports RebalanceRun "HOL-Library.Sublist"
begin

text \<open>
  Paying a route to ourselves: the short-lived invoice (\<^verbatim>\<open>node/invoice.go\<close>), sendpay and what becomes
  of it (\<^verbatim>\<open>node/payment.go\<close>, \<^verbatim>\<open>payInvoice\<close> of \<^verbatim>\<open>rebalance/route.go\<close>), and the database that
  recognises the later notifications as ours (\<^verbatim>\<open>node/db.go\<close>, \<^verbatim>\<open>node/deletestats.go\<close>).

  Badger is a map from keys to contents, in which an operation may fail; what lightningd answers is an
  environment.  Calls that can be repeated are numbered.  \<open>SendPay\<close>, \<open>payInvoice\<close> and \<open>OnPayment\<close> are
  the calls without anything in between; the last section takes them apart, so that a payment and its
  notification can be interleaved.
\<close>

section \<open>The database\<close>

record Store =
  store_closed :: bool
  entries :: "(string \<times> string) list"

datatype store_error = ErrDBClosed | ErrKeyNotFound | DiskError

definition Store_Close :: "Store \<Rightarrow> Store" where
  "Store_Close s = (if store_closed s then s else s\<lparr>store_closed := True\<rparr>)"

definition Store_Set :: "bool \<Rightarrow> string \<Rightarrow> string \<Rightarrow> Store \<Rightarrow> Store \<times> store_error option" where
  "Store_Set fails key content s =
     (if store_closed s then (s, Some ErrDBClosed)
      else if fails then (s, Some DiskError)
      else (s\<lparr>entries := AList.update key content (entries s)\<rparr>, None))"

definition Store_Get :: "bool \<Rightarrow> string \<Rightarrow> Store \<Rightarrow> store_error + string" where
  "Store_Get fails key s =
     (if store_closed s then Inl ErrDBClosed
      else if fails then Inl DiskError
      else (case map_of (entries s) key of None \<Rightarrow> Inl ErrKeyNotFound | Some v \<Rightarrow> Inr v))"

definition Store_Delete :: "bool \<Rightarrow> string \<Rightarrow> Store \<Rightarrow> Store \<times> store_error option" where
  "Store_Delete fails key s =
     (if store_closed s then (s, Some ErrDBClosed)
      else if fails then (s, Some DiskError)
      else (s\<lparr>entries := AList.delete key (entries s)\<rparr>, None))"

definition DropPrefix :: "bool \<Rightarrow> string list \<Rightarrow> Store \<Rightarrow> Store \<times> store_error option" where
  "DropPrefix fails ps s =
     (if store_closed s then (s, Some ErrDBClosed)
      else if fails then (s, Some DiskError)
      else (s\<lparr>entries := filter (\<lambda>(key, _). \<not> list_ex (\<lambda>p. prefix p key) ps) (entries s)\<rparr>, None))"

text \<open>
  \<^verbatim>\<open>ListFailures\<close>, \<^verbatim>\<open>ListSuccesses\<close> and \<^verbatim>\<open>ListRoutes\<close>: the contents under a prefix, in the order of
  their keys; \<^const>\<open>None\<close> once closed, or when one cannot be decoded.
\<close>

fun all_decoded :: "('c \<Rightarrow> 'v option) \<Rightarrow> 'c list \<Rightarrow> 'v list option" where
  "all_decoded decode [] = Some []"
| "all_decoded decode (c # cs) =
     (case decode c of
        None \<Rightarrow> None
      | Some v \<Rightarrow> (case all_decoded decode cs of None \<Rightarrow> None | Some vs \<Rightarrow> Some (v # vs)))"

definition list_prefix :: "(string \<Rightarrow> 'v option) \<Rightarrow> string \<Rightarrow> Store \<Rightarrow> 'v list option" where
  "list_prefix decode p s =
     (if store_closed s then None
      else all_decoded decode (map snd (filter (\<lambda>(key, _). prefix p key) (sort_key fst (entries s)))))"

definition FAILURE_PREFIX :: string where "FAILURE_PREFIX = ''f_''"
definition SUCCESS_PREFIX :: string where "SUCCESS_PREFIX = ''s_''"
definition ROUTE_PREFIX :: string where "ROUTE_PREFIX = ''r_''"
definition TIMEOUT_PREFIX :: string where "TIMEOUT_PREFIX = ''timeout_''"

definition ListFailures :: "(string \<Rightarrow> 'v option) \<Rightarrow> Store \<Rightarrow> 'v list option" where
  "ListFailures decode s = list_prefix decode FAILURE_PREFIX s"

definition ListSuccesses :: "(string \<Rightarrow> 'v option) \<Rightarrow> Store \<Rightarrow> 'v list option" where
  "ListSuccesses decode s = list_prefix decode SUCCESS_PREFIX s"

definition ListRoutes :: "(string \<Rightarrow> 'v option) \<Rightarrow> Store \<Rightarrow> 'v list option" where
  "ListRoutes decode s = list_prefix decode ROUTE_PREFIX s"

definition DeleteStats :: "bool \<Rightarrow> Store \<Rightarrow> Store \<times> bool" where
  "DeleteStats fails s =
     (let (s, err) = DropPrefix fails [SUCCESS_PREFIX, FAILURE_PREFIX, ROUTE_PREFIX] s in (s, err = None))"

section \<open>The payments of a node\<close>

record ActivePayment =
  ap_PaymentHash :: string
  ap_Route :: PrettyRoute
  ap_AmountMsat :: u64
  CreatedAt :: int

text \<open>\<open>calls\<close> counts what was asked of lightningd and of the disk; \<open>deleted\<close> are the invoices asked to
  be deleted, with the status they were to have.\<close>

record Payer =
  ActivePayments :: "(string \<times> ActivePayment) list"
  DB :: Store
  saveStats :: bool
  calls :: nat
  deleted :: "(string \<times> string) list"

record RebalanceInvoice =
  inv_Label :: string
  inv_PaymentHash :: string
  PaymentSecret :: string
  inv_AmountMsat :: u64

text \<open>
  An error of sendpay: lightningd's, with its code and its failure data as far as they are given and
  decode, or another.  Of waitsendpay, \<^verbatim>\<open>TimedOut\<close> is the error that reads \<^const>\<open>ErrSendPayTimeout\<close>.
\<close>

datatype send_error = RpcError int "PaymentErrorData option" | SendError string

datatype wait_answer = WaitPaid | TimedOut | WaitFailed pay_error

record lightningd =
  ln_random :: "8 word list option"
  ln_invoice :: "(string \<times> string) option"
  ln_delinvoice :: "nat \<Rightarrow> string \<Rightarrow> string \<Rightarrow> string option"
  ln_sendpay :: "send_error option"
  ln_wait :: wait_answer
  ln_now :: int
  disk_fails :: "nat \<Rightarrow> bool"

definition AddActivePayment :: "int \<Rightarrow> string \<Rightarrow> PrettyRoute \<Rightarrow> u64 \<Rightarrow> Payer \<Rightarrow> Payer" where
  "AddActivePayment now hash route a p =
     p\<lparr>ActivePayments := AList.update hash
         \<lparr>ap_PaymentHash = hash, ap_Route = route, ap_AmountMsat = a, CreatedAt = now\<rparr> (ActivePayments p)\<rparr>"

definition RemoveActivePayment :: "string \<Rightarrow> Payer \<Rightarrow> Payer" where
  "RemoveActivePayment hash p = p\<lparr>ActivePayments := AList.delete hash (ActivePayments p)\<rparr>"

text \<open>\<^verbatim>\<open>strings.Contains\<close>, and one call of delinvoice.\<close>

definition contains :: "string \<Rightarrow> string \<Rightarrow> bool" where
  "contains text part \<longleftrightarrow> list_ex (prefix part) (suffixes text)"

definition delinvoice :: "lightningd \<Rightarrow> string \<Rightarrow> string \<Rightarrow> Payer \<Rightarrow> Payer \<times> string option" where
  "delinvoice env label status p =
     (p\<lparr>calls := calls p + 1, deleted := deleted p @ [(label, status)]\<rparr>, ln_delinvoice env (calls p) label status)"

definition DeleteRebalanceInvoice :: "lightningd \<Rightarrow> string \<Rightarrow> string \<Rightarrow> Payer \<Rightarrow> Payer \<times> string option" where
  "DeleteRebalanceInvoice env label status p =
     (let (p, err) = delinvoice env label status p in
      case err of
        None \<Rightarrow> (p, None)
      | Some text \<Rightarrow>
          if status \<noteq> ''expired'' \<and> contains text ''status is expired'' then delinvoice env label ''expired'' p
          else (p, Some text))"

definition deleteInvoice :: "lightningd \<Rightarrow> string \<Rightarrow> string \<Rightarrow> Payer \<Rightarrow> Payer" where
  "deleteInvoice env label status p = fst (DeleteRebalanceInvoice env label status p)"

definition db_set :: "lightningd \<Rightarrow> string \<Rightarrow> string \<Rightarrow> Payer \<Rightarrow> Payer \<times> store_error option" where
  "db_set env key content p =
     (let (s, err) = Store_Set (disk_fails env (calls p)) key content (DB p) in (p\<lparr>calls := calls p + 1, DB := s\<rparr>, err))"

definition db_delete :: "lightningd \<Rightarrow> string \<Rightarrow> Payer \<Rightarrow> Payer \<times> store_error option" where
  "db_delete env key p =
     (let (s, err) = Store_Delete (disk_fails env (calls p)) key (DB p) in (p\<lparr>calls := calls p + 1, DB := s\<rparr>, err))"

text \<open>\<open>content\<close> is what encoding/json makes of a value, if it can.\<close>

definition SaveToDb :: "lightningd \<Rightarrow> string \<Rightarrow> string option \<Rightarrow> Payer \<Rightarrow> Payer" where
  "SaveToDb env key content p =
     (if \<not> saveStats p then p
      else (case content of None \<Rightarrow> p | Some c \<Rightarrow> fst (db_set env key c p)))"

section \<open>One payment\<close>

text \<open>\<^verbatim>\<open>hex.EncodeToString\<close>, and the label of an invoice: 16 random bytes, if there are any to have.\<close>

definition hex_digit :: "8 word \<Rightarrow> char" where
  "hex_digit w = ''0123456789abcdef'' ! unat (take_bit 4 w)"

fun hex_encode :: "8 word list \<Rightarrow> string" where
  "hex_encode [] = []"
| "hex_encode (b # bs) = hex_digit (drop_bit 4 b) # hex_digit b # hex_encode bs"

definition newInvoiceLabel :: "lightningd \<Rightarrow> string option" where
  "newInvoiceLabel env = map_option (\<lambda>b. ''circular-'' @ hex_encode b) (ln_random env)"

definition CreateRebalanceInvoice :: "lightningd \<Rightarrow> u64 \<Rightarrow> Payer \<Rightarrow> Payer \<times> (rb_error + RebalanceInvoice)" where
  "CreateRebalanceInvoice env a p =
     (case newInvoiceLabel env of
        None \<Rightarrow> (p, Inl (Text ''no random bytes''))
      | Some label \<Rightarrow>
          (case ln_invoice env of
             None \<Rightarrow> (p, Inl (Text ''invoice failed''))
           | Some (hash, secret) \<Rightarrow>
               if hash = '''' \<or> secret = '''' then (deleteInvoice env label ''unpaid'' p, Inl (Util ErrNoPaymentSecret))
               else
                 (case db_set env hash label p of
                    (p, Some e) \<Rightarrow> (deleteInvoice env label ''unpaid'' p, Inl (Text ''database''))
                  | (p, None) \<Rightarrow>
                      (p, Inr \<lparr>inv_Label = label, inv_PaymentHash = hash, PaymentSecret = secret, inv_AmountMsat = a\<rparr>))))"

definition payTryOtherRoute :: int where "payTryOtherRoute = 204"

definition sendPayError :: "send_error \<Rightarrow> pay_error" where
  "sendPayError e =
     (case e of
        RpcError code (Some data) \<Rightarrow>
          if code = payTryOtherRoute \<and> ErringNode data \<noteq> '''' then PaymentError data
          else OtherError (Wrap ''sendpay'' (Text ''rpc error''))
      | RpcError code None \<Rightarrow> OtherError (Wrap ''sendpay'' (Text ''rpc error''))
      | SendError text \<Rightarrow> OtherError (Wrap ''sendpay'' (Text text)))"

text \<open>The payment may be complete although it timed out: \<^const>\<open>None\<close> is no error.\<close>

definition manageTimeout :: "lightningd \<Rightarrow> RebalanceInvoice \<Rightarrow> Payer \<Rightarrow> Payer \<times> pay_error option" where
  "manageTimeout env invoice p =
     (let (p, err) = DeleteRebalanceInvoice env (inv_Label invoice) ''unpaid'' p in
      if (case err of None \<Rightarrow> False | Some text \<Rightarrow> contains text ''status is paid'')
      then (deleteInvoice env (inv_Label invoice) ''paid'' p, None)
      else
        let p = fst (db_delete env (inv_PaymentHash invoice) p);
            p = fst (db_set env (TIMEOUT_PREFIX @ inv_PaymentHash invoice) ''timeout'' p) in
        (p, Some (OtherError (Util ErrSendPayTimeout))))"

definition SendPay :: "lightningd \<Rightarrow> Graph \<Rightarrow> Route \<Rightarrow> RebalanceInvoice \<Rightarrow> Payer \<Rightarrow> Payer \<times> pay_error option" where
  "SendPay env g route invoice p =
     (let hash = inv_PaymentHash invoice;
          p = AddActivePayment (ln_now env) hash (NewPrettyRoute g route hash) (Amount route) p;
          (p, err) =
            (case ln_sendpay env of
               Some e \<Rightarrow> (deleteInvoice env (inv_Label invoice) ''unpaid'' p, Some (sendPayError e))
             | None \<Rightarrow>
                 (case ln_wait env of
                    TimedOut \<Rightarrow> manageTimeout env invoice p
                  | WaitFailed e \<Rightarrow> (deleteInvoice env (inv_Label invoice) ''unpaid'' p, Some e)
                  | WaitPaid \<Rightarrow> (deleteInvoice env (inv_Label invoice) ''paid'' p, None))) in
      (RemoveActivePayment hash p, err))"

definition payInvoice ::
    "(PrettyRoute \<Rightarrow> string option) \<Rightarrow> lightningd \<Rightarrow> Graph \<Rightarrow> Route \<Rightarrow> Payer \<Rightarrow> Payer \<times> (pay_error + PrettyRoute)" where
  "payInvoice marshal env g route p =
     (case CreateRebalanceInvoice env (Amount route) p of
        (p, Inl e) \<Rightarrow> (p, Inl (OtherError e))
      | (p, Inr invoice) \<Rightarrow>
          let prettyRoute = NewPrettyRoute g route (inv_PaymentHash invoice);
              p = SaveToDb env (ROUTE_PREFIX @ inv_PaymentHash invoice) (marshal prettyRoute) p in
          (case SendPay env g route invoice p of
             (p, Some e) \<Rightarrow> (p, Inl e)
           | (p, None) \<Rightarrow> (p, Inr prettyRoute)))"

section \<open>Notifications\<close>

text \<open>\<^const>\<open>True\<close>: the payment was ours, and its key is gone.\<close>

definition deleteIfOurs :: "lightningd \<Rightarrow> string \<Rightarrow> Payer \<Rightarrow> Payer \<times> bool" where
  "deleteIfOurs env hash p =
     (let found = Store_Get (disk_fails env (calls p)) hash (DB p); p = p\<lparr>calls := calls p + 1\<rparr>;
          marked = Store_Get (disk_fails env (calls p)) (TIMEOUT_PREFIX @ hash) (DB p) in
      if found = Inl ErrKeyNotFound then
        let p = p\<lparr>calls := calls p + 1\<rparr> in
        if marked = Inl ErrKeyNotFound then (p, False)
        else let (p, err) = db_delete env (TIMEOUT_PREFIX @ hash) p in (p, err = None)
      else let (p, err) = db_delete env hash p in (p, err = None))"

definition OnPayment :: "string \<Rightarrow> lightningd \<Rightarrow> string \<Rightarrow> string option \<Rightarrow> Payer \<Rightarrow> Payer" where
  "OnPayment p' env hash content p =
     (let (p, ours) = deleteIfOurs env hash p in if ours then SaveToDb env (p' @ hash) content p else p)"

definition OnPaymentFailure :: "lightningd \<Rightarrow> string \<Rightarrow> string option \<Rightarrow> Payer \<Rightarrow> Payer" where
  "OnPaymentFailure env hash content p = OnPayment FAILURE_PREFIX env hash content p"

definition OnPaymentSuccess :: "lightningd \<Rightarrow> string \<Rightarrow> string option \<Rightarrow> Payer \<Rightarrow> Payer" where
  "OnPaymentSuccess env hash content p = OnPayment SUCCESS_PREFIX env hash content p"

section \<open>A payment and its notification at the same time\<close>

text \<open>
  \<^const>\<open>SendPay\<close> and \<^const>\<open>OnPayment\<close> are each the whole of a call.  In the code they run in two
  goroutines: no lock is held while \<^verbatim>\<open>WaitSendPay\<close> waits, nor between the \<^verbatim>\<open>DB.Delete\<close> and the
  \<^verbatim>\<open>DB.Set\<close> of \<^verbatim>\<open>manageTimeout\<close>, and the notification can be handled at any moment.  Here each call is
  a sequence of steps, one for each access to the database, so that the two can be interleaved; the
  constructors are the places a goroutine can be at.
\<close>

datatype paying = Starting | Waiting | GivingUp | Unrecording | Marking
  | Leaving "pay_error option" | Finished "pay_error option"

fun pay_next :: "lightningd \<Rightarrow> Graph \<Rightarrow> Route \<Rightarrow> RebalanceInvoice \<Rightarrow> paying \<Rightarrow> Payer \<Rightarrow> paying \<times> Payer" where
  "pay_next env g route invoice Starting p =
     (let hash = inv_PaymentHash invoice;
          p = AddActivePayment (ln_now env) hash (NewPrettyRoute g route hash) (Amount route) p in
      case ln_sendpay env of
        Some e \<Rightarrow> (Leaving (Some (sendPayError e)), deleteInvoice env (inv_Label invoice) ''unpaid'' p)
      | None \<Rightarrow> (Waiting, p))"
| "pay_next env g route invoice Waiting p =
     (case ln_wait env of
        TimedOut \<Rightarrow> (GivingUp, p)
      | WaitFailed e \<Rightarrow> (Leaving (Some e), deleteInvoice env (inv_Label invoice) ''unpaid'' p)
      | WaitPaid \<Rightarrow> (Leaving None, deleteInvoice env (inv_Label invoice) ''paid'' p))"
| "pay_next env g route invoice GivingUp p =
     (let (p, err) = DeleteRebalanceInvoice env (inv_Label invoice) ''unpaid'' p in
      if (case err of None \<Rightarrow> False | Some text \<Rightarrow> contains text ''status is paid'')
      then (Leaving None, deleteInvoice env (inv_Label invoice) ''paid'' p)
      else (Unrecording, p))"
| "pay_next env g route invoice Unrecording p = (Marking, fst (db_delete env (inv_PaymentHash invoice) p))"
| "pay_next env g route invoice Marking p =
     (Leaving (Some (OtherError (Util ErrSendPayTimeout))),
      fst (db_set env (TIMEOUT_PREFIX @ inv_PaymentHash invoice) ''timeout'' p))"
| "pay_next env g route invoice (Leaving err) p = (Finished err, RemoveActivePayment (inv_PaymentHash invoice) p)"
| "pay_next env g route invoice (Finished err) p = (Finished err, p)"

datatype noting = Looking | LookingForMark | Found string | Saving | Recorded | Ignored

fun note_next :: "string \<Rightarrow> lightningd \<Rightarrow> string \<Rightarrow> string option \<Rightarrow> noting \<Rightarrow> Payer \<Rightarrow> noting \<times> Payer" where
  "note_next p' env hash content Looking p =
     (if Store_Get (disk_fails env (calls p)) hash (DB p) = Inl ErrKeyNotFound then LookingForMark else Found hash,
      p\<lparr>calls := calls p + 1\<rparr>)"
| "note_next p' env hash content LookingForMark p =
     (if Store_Get (disk_fails env (calls p)) (TIMEOUT_PREFIX @ hash) (DB p) = Inl ErrKeyNotFound
      then Ignored else Found (TIMEOUT_PREFIX @ hash),
      p\<lparr>calls := calls p + 1\<rparr>)"
| "note_next p' env hash content (Found key) p =
     (let (p, err) = db_delete env key p in (if err = None then Saving else Ignored, p))"
| "note_next p' env hash content Saving p = (Recorded, SaveToDb env (p' @ hash) content p)"
| "note_next p' env hash content Recorded p = (Recorded, p)"
| "note_next p' env hash content Ignored p = (Ignored, p)"

text \<open>Without anything in between, the steps are the calls.\<close>

fun pay_steps :: "nat \<Rightarrow> lightningd \<Rightarrow> Graph \<Rightarrow> Route \<Rightarrow> RebalanceInvoice \<Rightarrow> paying \<Rightarrow> Payer \<Rightarrow> paying \<times> Payer" where
  "pay_steps 0 env g route invoice ph p = (ph, p)"
| "pay_steps (Suc n) env g route invoice ph p =
     (let (ph, p) = pay_next env g route invoice ph p in pay_steps n env g route invoice ph p)"

fun note_steps :: "nat \<Rightarrow> string \<Rightarrow> lightningd \<Rightarrow> string \<Rightarrow> string option \<Rightarrow> noting \<Rightarrow> Payer \<Rightarrow> noting \<times> Payer" where
  "note_steps 0 p' env hash content ph p = (ph, p)"
| "note_steps (Suc n) p' env hash content ph p =
     (let (ph, p) = note_next p' env hash content ph p in note_steps n p' env hash content ph p)"

lemma pay_steps_SendPay:
  "pay_steps 6 env g route invoice Starting p = (Finished (snd (SendPay env g route invoice p)), fst (SendPay env g route invoice p))"
  by (simp add: numeral_eq_Suc SendPay_def manageTimeout_def Let_def split_beta split: option.split wait_answer.split)

lemma note_steps_OnPayment:
  "snd (note_steps 4 p' env hash content Looking p) = OnPayment p' env hash content p"
  "fst (note_steps 4 p' env hash content Looking p) = (if snd (deleteIfOurs env hash p) then Recorded else Ignored)"
  by (simp_all add: numeral_eq_Suc OnPayment_def deleteIfOurs_def Let_def split_beta)

text \<open>
  The two goroutines, and what they share: \<open>True\<close> is a step of the payment, \<open>False\<close> one of the
  notification.
\<close>

fun run_race ::
    "lightningd \<Rightarrow> Graph \<Rightarrow> Route \<Rightarrow> RebalanceInvoice \<Rightarrow> string \<Rightarrow> lightningd \<Rightarrow> string option \<Rightarrow>
     bool list \<Rightarrow> paying \<times> noting \<times> Payer \<Rightarrow> paying \<times> noting \<times> Payer" where
  "run_race env g route invoice p' env' content [] c = c"
| "run_race env g route invoice p' env' content (True # sched) (ph, na, p) =
     (let (ph, p) = pay_next env g route invoice ph p in
      run_race env g route invoice p' env' content sched (ph, na, p))"
| "run_race env g route invoice p' env' content (False # sched) (ph, na, p) =
     (let (na, p) = note_next p' env' (inv_PaymentHash invoice) content na p in
      run_race env g route invoice p' env' content sched (ph, na, p))"

end
