(* ===== verification/PaymentClaims.thy ===== *)
theory PaymentClaims
  imports Payments RunResults GraphClaims
begin

text \<open>
  What a payment leaves behind: its invoice is always asked to be deleted, with the status the outcome
  claims; it is no longer active; and its notification is recorded at most once, and nobody else's
  is; when the two are handled at the same time, the moment of a timeout is the only one at which it can
  be missed.
\<close>

section \<open>The invoice\<close>

named_theorems payment_ops

lemmas [payment_ops] = delinvoice_def DeleteRebalanceInvoice_def deleteInvoice_def db_set_def db_delete_def SaveToDb_def
  AddActivePayment_def RemoveActivePayment_def Let_def

text \<open>What was asked to be deleted in the meantime.\<close>

definition asked :: "string \<Rightarrow> string list \<Rightarrow> Payer \<Rightarrow> Payer \<Rightarrow> bool" where
  "asked label ss p p' \<longleftrightarrow> deleted p' = deleted p @ map (Pair label) ss"

lemma asked_refl [simp]: "asked label [] p p" by (simp add: asked_def)

lemma asked_trans: "\<lbrakk>asked label ss p p'; asked label ts p' p''\<rbrakk> \<Longrightarrow> asked label (ss @ ts) p p''"
  by (simp add: asked_def)

lemma asked_same: "deleted p' = deleted p \<Longrightarrow> asked label [] p p'" by (simp add: asked_def)

lemma delete_asks:
  obtains ss where "asked label (status # ss) p (fst (DeleteRebalanceInvoice env label status p))" "set ss \<subseteq> {''expired''}"
proof -
  have "asked label [status] p (fst (DeleteRebalanceInvoice env label status p))
    \<or> asked label [status, ''expired''] p (fst (DeleteRebalanceInvoice env label status p))"
    by (auto simp: payment_ops asked_def split: option.split)
  with that [of "[]"] that [of "[''expired'']"] show thesis by auto
qed

lemma delete_keeps [simp]:
  "ActivePayments (fst (DeleteRebalanceInvoice env label status p)) = ActivePayments p"
  "DB (fst (DeleteRebalanceInvoice env label status p)) = DB p"
  "saveStats (fst (DeleteRebalanceInvoice env label status p)) = saveStats p"
  by (simp_all add: payment_ops split: option.split)

lemma db_keeps [simp]:
  "ActivePayments (fst (db_set env key c p)) = ActivePayments p" "ActivePayments (fst (db_delete env key p)) = ActivePayments p"
  "deleted (fst (db_set env key c p)) = deleted p" "deleted (fst (db_delete env key p)) = deleted p"
  "saveStats (fst (db_set env key c p)) = saveStats p" "saveStats (fst (db_delete env key p)) = saveStats p"
  by (simp_all add: payment_ops split: prod.split)

lemma save_keeps [simp]:
  "ActivePayments (SaveToDb env key c p) = ActivePayments p" "deleted (SaveToDb env key c p) = deleted p"
  "saveStats (SaveToDb env key c p) = saveStats p"
  by (simp_all add: SaveToDb_def split: option.split)

text \<open>What a payment that did not go through, or that did, asks for: first the status it claims.\<close>

definition settles :: "string list \<Rightarrow> bool \<Rightarrow> bool" where
  "settles ss paid \<longleftrightarrow> ss \<noteq> [] \<and> (if paid then ''paid'' \<in> set ss else hd ss = ''unpaid'' \<and> ''paid'' \<notin> set ss)"

lemma delete_settles:
  obtains ss where "asked label ss p (deleteInvoice env label status p)" "hd ss = status" "settles ss (status = ''paid'')
    \<or> status \<notin> {''paid'', ''unpaid''}"
proof -
  obtain ss where "asked label (status # ss) p (deleteInvoice env label status p)" "set ss \<subseteq> {''expired''}"
    using delete_asks unfolding deleteInvoice_def .
  with that [of "status # ss"] show thesis by (force simp: settles_def)
qed

lemma timeout_settles:
  assumes "manageTimeout env invoice p = (p', err)"
  obtains ss where "asked (inv_Label invoice) ss p p'" "settles ss (err = None)"
proof -
  define label where "label = inv_Label invoice"
  obtain ss where ss: "asked label (''unpaid'' # ss) p (fst (DeleteRebalanceInvoice env label ''unpaid'' p))" "set ss \<subseteq> {''expired''}"
    by (rule delete_asks)
  obtain p0 e where d: "DeleteRebalanceInvoice env label ''unpaid'' p = (p0, e)" by fastforce
  show thesis
  proof (cases "case e of None \<Rightarrow> False | Some text \<Rightarrow> contains text ''status is paid''")
    case True
    obtain ts where ts: "asked label ts p0 (deleteInvoice env label ''paid'' p0)" "hd ts = ''paid''" "settles ts True"
      by (rule delete_settles [of label p0 env "''paid''"]) auto
    show thesis
      using assms ss d True ts asked_trans [of label "''unpaid'' # ss" p p0 ts]
      by (intro that [of "''unpaid'' # ss @ ts"]) (auto simp: manageTimeout_def label_def settles_def)
  next
    case False
    show thesis
      using assms ss d False
      by (intro that [of "''unpaid'' # ss"]) (auto simp: manageTimeout_def label_def settles_def asked_def Let_def)
  qed
qed

lemma SendPay_settles:
  assumes "SendPay env g route invoice p = (p', err)"
  obtains ss where "asked (inv_Label invoice) ss p p'" "settles ss (err = None)"
proof -
  let ?hash = "inv_PaymentHash invoice" and ?label = "inv_Label invoice"
  define p0 where "p0 = AddActivePayment (ln_now env) ?hash (NewPrettyRoute g route ?hash) (Amount route) p"
  have p0: "deleted p0 = deleted p" by (simp add: p0_def AddActivePayment_def)
  have remove: "deleted (RemoveActivePayment h q) = deleted q" for h q by (simp add: RemoveActivePayment_def)
  obtain us where us: "asked ?label us p0 (deleteInvoice env ?label ''unpaid'' p0)" "settles us False"
    by (rule delete_settles [of ?label p0 env "''unpaid''"]) auto
  obtain ps where ps: "asked ?label ps p0 (deleteInvoice env ?label ''paid'' p0)" "settles ps True"
    by (rule delete_settles [of ?label p0 env "''paid''"]) auto
  obtain p1 e1 where timeout: "manageTimeout env invoice p0 = (p1, e1)" by fastforce
  from timeout obtain ts where ts: "asked ?label ts p0 p1" "settles ts (e1 = None)" by (rule timeout_settles)
  show thesis
    using assms us ps ts timeout that [of us] that [of ps] that [of ts]
    by (auto simp: SendPay_def Let_def asked_def p0 remove p0_def [symmetric] split: option.splits wait_answer.splits)
qed

lemmas [simp] = delete_update_same

lemma timeout_active: "ActivePayments (fst (manageTimeout env invoice p)) = ActivePayments p"
proof -
  obtain p0 e where d: "DeleteRebalanceInvoice env (inv_Label invoice) ''unpaid'' p = (p0, e)" by fastforce
  have "ActivePayments p0 = ActivePayments p"
    using delete_keeps(1) [of env "inv_Label invoice" "''unpaid''" p] d by simp
  then show ?thesis by (simp add: manageTimeout_def d Let_def deleteInvoice_def)
qed

lemma SendPay_active:
  assumes "SendPay env g route invoice p = (p', err)"
  shows "ActivePayments p' = AList.delete (inv_PaymentHash invoice) (ActivePayments p)"
proof -
  have add: "AList.delete h (ActivePayments (AddActivePayment now h r a q)) = AList.delete h (ActivePayments q)" for now h r a q
    by (simp add: AddActivePayment_def)
  show ?thesis
    using assms timeout_active
    by (auto simp: SendPay_def Let_def RemoveActivePayment_def deleteInvoice_def add split: option.splits wait_answer.splits prod.splits)
      (metis add fst_conv timeout_active)+
qed

lemma created_invoice:
  assumes "CreateRebalanceInvoice env a p = (p', out)" "newInvoiceLabel env = Some label" "ln_invoice env = Some (hash, secret)"
  obtains (refused) e ss where "out = Inl e" "asked label ss p p'" "settles ss False" "ActivePayments p' = ActivePayments p"
  | (created) "out = Inr \<lparr>inv_Label = label, inv_PaymentHash = hash, PaymentSecret = secret, inv_AmountMsat = a\<rparr>"
      "db_set env hash label p = (p', None)" "hash \<noteq> ''''" "secret \<noteq> ''''"
proof -
  have unpaid: "\<exists>ss. asked label ss q (deleteInvoice env label ''unpaid'' q) \<and> settles ss False" for q
    by (rule delete_settles [of label q env "''unpaid''"]) auto
  show thesis
  proof (cases "hash = '''' \<or> secret = ''''")
    case True
    then show thesis
      using assms unpaid [of p] by (auto simp: CreateRebalanceInvoice_def deleteInvoice_def intro: refused)
  next
    case False
    obtain q err where set: "db_set env hash label p = (q, err)" by fastforce
    have q: "deleted q = deleted p" "ActivePayments q = ActivePayments p"
      using db_keeps(1,3) [of env hash label p] set by simp_all
    show thesis
      using assms set False unpaid [of q] q
      by (cases err) (auto simp: CreateRebalanceInvoice_def deleteInvoice_def asked_def intro: refused created)
  qed
qed

lemma paid_route:
  assumes "payInvoice marshal env g route p = (p', Inr pretty)"
    and "newInvoiceLabel env = Some label" "ln_invoice env = Some (hash, secret)"
  shows "pretty = NewPrettyRoute g route hash"
  using assms
  by (auto simp: payInvoice_def CreateRebalanceInvoice_def Let_def split: if_splits prod.splits option.splits sum.splits)

text \<open>
C18
The invoice of every payment is asked to be deleted, whatever happens: once lightningd was asked for an
invoice and answered, \<open>payInvoice\<close> asks it to delete the invoice of that label and none other. If the
payment is reported as made, it asks for it as a paid one; if it is reported as failed, it first asks
for it as an unpaid one and never as a paid one, so a paid invoice of a failed payment stays on record.
In both cases the payment is no longer active afterwards, and a payment made is shown as its route.
\<close>
theorem payment_settles_its_invoice:
  assumes "payInvoice marshal env g route p = (p', res)"
    and "newInvoiceLabel env = Some label" and "ln_invoice env = Some (hash, secret)"
  shows "\<exists>ss. deleted p' = deleted p @ map (Pair label) ss \<and> ss \<noteq> []
      \<and> (case res of Inr pretty \<Rightarrow> ''paid'' \<in> set ss \<and> pretty = NewPrettyRoute g route hash | Inl _ \<Rightarrow> hd ss = ''unpaid'' \<and> ''paid'' \<notin> set ss)
      \<and> (ActivePayments p' = ActivePayments p \<or> ActivePayments p' = AList.delete hash (ActivePayments p))"
proof -
  let ?gone = "\<lambda>q. ActivePayments q = ActivePayments p \<or> ActivePayments q = AList.delete hash (ActivePayments p)"
  have "\<exists>ss. asked label ss p p' \<and> settles ss (\<not> isl res) \<and> ?gone p'
      \<and> (\<forall>pretty. res = Inr pretty \<longrightarrow> pretty = NewPrettyRoute g route hash)"
  proof -
    obtain p0 out where create: "CreateRebalanceInvoice env (Amount route) p = (p0, out)" by fastforce
    from create assms(2,3) show ?thesis
    proof (cases rule: created_invoice)
      case (refused e ss)
      then show ?thesis using assms(1) create by (auto simp: payInvoice_def)
    next
      case created
      define invoice where "invoice = \<lparr>inv_Label = label, inv_PaymentHash = hash, PaymentSecret = secret, inv_AmountMsat = Amount route\<rparr>"
      define p1 where "p1 = SaveToDb env (ROUTE_PREFIX @ hash) (marshal (NewPrettyRoute g route hash)) p0"
      have p1: "deleted p1 = deleted p" "ActivePayments p1 = ActivePayments p"
        using db_keeps(1,3) [of env hash label p] created(2) by (simp_all add: p1_def)
      obtain p2 err where pay: "SendPay env g route invoice p1 = (p2, err)" by fastforce
      from pay obtain ss where "asked label ss p1 p2" "settles ss (err = None)"
        by (rule SendPay_settles) (simp add: invoice_def)
      moreover have "p' = p2" "isl res \<longleftrightarrow> err \<noteq> None" "res = Inr pretty \<Longrightarrow> pretty = NewPrettyRoute g route hash" for pretty
        using assms(1) create created(1) pay
        by (auto simp: payInvoice_def Let_def invoice_def p1_def split: option.splits prod.splits)
      ultimately show ?thesis using SendPay_active [OF pay] p1 by (auto simp: asked_def invoice_def)
    qed
  qed
  then show ?thesis by (cases res) (auto simp: asked_def settles_def)
qed

text \<open>An HTLC that settled while its sender had given up: the payment counts as made.\<close>

definition sample_payer :: Payer where
  "sample_payer = \<lparr>ActivePayments = [], DB = \<lparr>store_closed = False, entries = [(''aa'', ''circular-00'')]\<rparr>,
     saveStats = True, calls = 0, deleted = []\<rparr>"

definition sample_lightningd :: lightningd where
  "sample_lightningd = \<lparr>ln_random = Some [0x1f, 0xa0], ln_invoice = Some (''7c'', ''s3''),
     ln_delinvoice = (\<lambda>n label status. if status = ''unpaid'' then Some ''Invoice status is paid not unpaid'' else None),
     ln_sendpay = None, ln_wait = TimedOut, ln_now = 1700000000, disk_fails = (\<lambda>_. False)\<rparr>"

definition sample_paid :: "Payer \<times> (pay_error + PrettyRoute)" where
  "sample_paid = payInvoice (\<lambda>_. Some ''route'') sample_lightningd sample_graph sample_again sample_payer"

lemma sample_paid: "payInvoice (\<lambda>_. Some ''route'') sample_lightningd sample_graph sample_again sample_payer
    = (fst sample_paid, snd sample_paid)"
  "newInvoiceLabel sample_lightningd = Some ''circular-1fa0''" "ln_invoice sample_lightningd = Some (''7c'', ''s3'')"
  by (simp_all add: sample_paid_def newInvoiceLabel_def sample_lightningd_def hex_digit_def)

theorem payment_settles_its_invoice_witness:
  "\<not> isl (snd sample_paid) \<and>
   (\<exists>ss. deleted (fst sample_paid) = deleted sample_payer @ map (Pair ''circular-1fa0'') ss \<and> ss \<noteq> []
      \<and> (case snd sample_paid of Inr pretty \<Rightarrow> ''paid'' \<in> set ss \<and> pretty = NewPrettyRoute sample_graph sample_again ''7c''
           | Inl _ \<Rightarrow> hd ss = ''unpaid'' \<and> ''paid'' \<notin> set ss)
      \<and> (ActivePayments (fst sample_paid) = ActivePayments sample_payer
           \<or> ActivePayments (fst sample_paid) = AList.delete ''7c'' (ActivePayments sample_payer)))"
proof
  show "\<not> isl (snd sample_paid)" by code_simp
qed (rule payment_settles_its_invoice [OF sample_paid])

text \<open>So the environment of a rebalance whose payments are these is an honest one.\<close>

lemma pretty_fee: "pr_Fee (NewPrettyRoute g route hash) = Fee route"
  by (simp add: NewPrettyRoute_def Fee_def Let_def)

lemma payments_are_honest:
  assumes "\<And>t route. e_pay env t route = snd (payInvoice marshal (answers t) (graphs t) route (payers t))"
    and "\<And>t. newInvoiceLabel (answers t) \<noteq> None" "\<And>t. ln_invoice (answers t) \<noteq> None"
  shows "honest_pay env"
  unfolding honest_pay_def
proof (intro allI impI)
  fix t route pretty
  assume paid: "e_pay env t route = Inr pretty"
  obtain label hash secret where made: "newInvoiceLabel (answers t) = Some label" "ln_invoice (answers t) = Some (hash, secret)"
    using assms(2,3) [of t] by auto
  obtain p' where "payInvoice marshal (answers t) (graphs t) route (payers t) = (p', Inr pretty)"
    using paid assms(1) [of t route] by (metis prod.collapse)
  from paid_route [OF this made] show "pr_Fee pretty = Fee route" by (simp add: pretty_fee)
qed

section \<open>The notification\<close>

abbreviation stored :: "Payer \<Rightarrow> string \<Rightarrow> string option" where
  "stored p \<equiv> map_of (entries (DB p))"

definition works :: "lightningd \<Rightarrow> Payer \<Rightarrow> bool" where
  "works env p \<longleftrightarrow> \<not> store_closed (DB p) \<and> (\<forall>n. \<not> disk_fails env n)"

lemma working_store:
  assumes "works env p"
  shows "stored (fst (db_set env key c p)) = (stored p)(key \<mapsto> c)" "snd (db_set env key c p) = None"
    "works env (fst (db_set env key c p))"
    "stored (fst (db_delete env key p)) = (stored p)(key := None)" "snd (db_delete env key p) = None"
    "works env (fst (db_delete env key p))"
    "works env (SaveToDb env key content p)"
    "stored (SaveToDb env key content p) =
       (case content of Some c \<Rightarrow> if saveStats p then (stored p)(key \<mapsto> c) else stored p | None \<Rightarrow> stored p)"
    "works env (fst (DeleteRebalanceInvoice env label status p))"
  using assms
  by (auto simp: works_def payment_ops Store_Set_def Store_Delete_def AList.update_conv' AList.delete_conv'
      split: option.split)

lemma working_delete:
  "works env p \<Longrightarrow> db_delete env key p
    = (p\<lparr>calls := calls p + 1, DB := (DB p)\<lparr>entries := AList.delete key (entries (DB p))\<rparr>\<rparr>, None)"
  by (simp add: works_def db_delete_def Store_Delete_def)

lemma working_get:
  assumes "works env p"
  shows "Store_Get (disk_fails env n) key (DB p) = (case stored p key of None \<Rightarrow> Inl ErrKeyNotFound | Some v \<Rightarrow> Inr v)"
  using assms by (simp add: works_def Store_Get_def)

lemma prefix_simps [simp]:
  "ROUTE_PREFIX \<noteq> []" "TIMEOUT_PREFIX \<noteq> []" "SUCCESS_PREFIX \<noteq> []" "FAILURE_PREFIX \<noteq> []"
  "ROUTE_PREFIX \<noteq> TIMEOUT_PREFIX" "TIMEOUT_PREFIX \<noteq> ROUTE_PREFIX"
  "SUCCESS_PREFIX \<noteq> TIMEOUT_PREFIX" "TIMEOUT_PREFIX \<noteq> SUCCESS_PREFIX" "SUCCESS_PREFIX \<noteq> ROUTE_PREFIX" "ROUTE_PREFIX \<noteq> SUCCESS_PREFIX"
  "FAILURE_PREFIX \<noteq> TIMEOUT_PREFIX" "TIMEOUT_PREFIX \<noteq> FAILURE_PREFIX" "FAILURE_PREFIX \<noteq> ROUTE_PREFIX" "ROUTE_PREFIX \<noteq> FAILURE_PREFIX"
  by (simp_all add: ROUTE_PREFIX_def TIMEOUT_PREFIX_def SUCCESS_PREFIX_def FAILURE_PREFIX_def)

lemma outcome_keys:
  "outcome \<in> {SUCCESS_PREFIX, FAILURE_PREFIX} \<Longrightarrow>
    outcome \<noteq> [] \<and> outcome \<noteq> TIMEOUT_PREFIX \<and> outcome \<noteq> ROUTE_PREFIX \<and> TIMEOUT_PREFIX \<noteq> outcome"
  by auto

text \<open>The payments that are looked for: known by their hash, or by the mark of a timeout.\<close>

definition ours :: "Payer \<Rightarrow> string \<Rightarrow> bool" where
  "ours p hash \<longleftrightarrow> stored p hash \<noteq> None \<or> stored p (TIMEOUT_PREFIX @ hash) \<noteq> None"

lemma works_calls [simp]: "works env (p\<lparr>calls := n\<rparr>) = works env p" by (simp add: works_def)

lemma deleteIfOurs_works:
  assumes "works env p"
  shows "snd (deleteIfOurs env hash p) = ours p hash" "works env (fst (deleteIfOurs env hash p))"
    "saveStats (fst (deleteIfOurs env hash p)) = saveStats p"
    "stored (fst (deleteIfOurs env hash p)) =
       (if stored p hash \<noteq> None then (stored p)(hash := None)
        else if ours p hash then (stored p)(TIMEOUT_PREFIX @ hash := None) else stored p)"
  using assms
  by (auto simp: deleteIfOurs_def Store_Get_def ours_def Let_def db_delete_def Store_Delete_def works_def AList.delete_conv' split: option.split)

lemma OnPayment_works:
  assumes "works env p"
  shows "stored (OnPayment outcome env hash content p) =
    (if \<not> ours p hash then stored p
     else case content of Some c \<Rightarrow>
         if saveStats p then (stored (fst (deleteIfOurs env hash p)))(outcome @ hash \<mapsto> c)
         else stored (fst (deleteIfOurs env hash p))
       | None \<Rightarrow> stored (fst (deleteIfOurs env hash p)))"
    "works env (OnPayment outcome env hash content p)"
  using deleteIfOurs_works [OF assms, of hash] working_store(7,8) [OF deleteIfOurs_works(2) [OF assms, of hash]]
  by (auto simp: OnPayment_def ours_def split: prod.split option.split)

lemma foreign_payment_ignored:
  assumes "works env p" "\<not> ours p hash"
  shows "stored (OnPayment outcome env hash content p) = stored p"
  using OnPayment_works(1) [OF assms(1)] assms(2) by simp

section \<open>A payment and its notification, interleaved\<close>

text \<open>Where a payment has removed its hash from the database, and where it has set the mark of its timeout.\<close>

definition timed_out :: "lightningd \<Rightarrow> pay_error option \<Rightarrow> bool" where
  "timed_out env err \<longleftrightarrow> ln_sendpay env = None \<and> ln_wait env = TimedOut \<and> err \<noteq> None"

fun marked_at :: "lightningd \<Rightarrow> paying \<Rightarrow> bool" where
  "marked_at env (Leaving err) = timed_out env err"
| "marked_at env (Finished err) = timed_out env err"
| "marked_at env ph = False"

definition unrecorded_at :: "lightningd \<Rightarrow> paying \<Rightarrow> bool" where
  "unrecorded_at env ph \<longleftrightarrow> ph = Marking \<or> marked_at env ph"

text \<open>A timeout is handled only where lightningd answered with one.\<close>

definition consistent_at :: "lightningd \<Rightarrow> paying \<Rightarrow> bool" where
  "consistent_at env ph \<longleftrightarrow>
     (if ph \<in> {GivingUp, Unrecording, Marking} then ln_sendpay env = None \<and> ln_wait env = TimedOut
      else if ph = Waiting then ln_sendpay env = None else True)"

text \<open>How far a payment and a notification still are from their ends.\<close>

fun pay_left :: "paying \<Rightarrow> nat" where
  "pay_left Starting = 6"
| "pay_left Waiting = 5"
| "pay_left GivingUp = 4"
| "pay_left Unrecording = 3"
| "pay_left Marking = 2"
| "pay_left (Leaving err) = 1"
| "pay_left (Finished err) = 0"

fun note_left :: "noting \<Rightarrow> nat" where
  "note_left Looking = 4"
| "note_left LookingForMark = 3"
| "note_left (Found key) = 2"
| "note_left Saving = 1"
| "note_left Recorded = 0"
| "note_left Ignored = 0"

lemma pay_left_0: "pay_left ph = 0 \<longleftrightarrow> (\<exists>err. ph = Finished err)"
  by (cases ph) simp_all

lemma note_left_0: "note_left na = 0 \<longleftrightarrow> na \<in> {Recorded, Ignored}"
  by (cases na) simp_all

lemma pay_left_next: "pay_left (fst (pay_next env g route invoice ph p)) \<le> pay_left ph - 1"
  by (cases ph) (simp_all add: Let_def split_beta split: option.split wait_answer.split)

lemma note_left_next: "note_left (fst (note_next p' env hash content na p)) \<le> note_left na - 1"
  by (cases na) (simp_all add: Let_def split_beta)

text \<open>
  What the database holds while both run.  \<open>s\<close> is what it held before; the entry of the hash goes with
  the payment's timeout or with the notification, whichever is first, and the mark of a timeout goes
  only with a notification that found no hash.
\<close>

definition told :: "noting \<Rightarrow> bool" where
  "told na \<longleftrightarrow> na \<in> {Saving, Recorded}"

definition race_ok ::
    "lightningd \<Rightarrow> string \<Rightarrow> string \<Rightarrow> string \<Rightarrow> (string \<rightharpoonup> string) \<Rightarrow> bool \<Rightarrow> paying \<Rightarrow> noting \<Rightarrow> Payer \<Rightarrow> bool" where
  "race_ok env outcome hash content s save ph na p \<longleftrightarrow>
     \<not> store_closed (DB p) \<and> saveStats p = save \<and> consistent_at env ph \<and>
     stored p hash = (if unrecorded_at env ph \<or> told na then None else s hash) \<and>
     stored p (outcome @ hash) = (if na = Recorded \<and> save then Some content else s (outcome @ hash)) \<and>
     (stored p (TIMEOUT_PREFIX @ hash) = (if marked_at env ph then Some ''timeout'' else None) \<or>
       marked_at env ph \<and> told na \<and> stored p (TIMEOUT_PREFIX @ hash) = None) \<and>
     (\<forall>key. key \<notin> {hash, TIMEOUT_PREFIX @ hash, outcome @ hash} \<longrightarrow> stored p key = s key) \<and>
     (case na of
        Looking \<Rightarrow> True
      | LookingForMark \<Rightarrow> unrecorded_at env ph
      | Found key \<Rightarrow> key = hash \<or> key = TIMEOUT_PREFIX @ hash \<and> marked_at env ph
      | Ignored \<Rightarrow> unrecorded_at env ph
      | _ \<Rightarrow> True)"

lemma delete_DB [simp]: "DB (deleteInvoice env label status p) = DB p" "saveStats (deleteInvoice env label status p) = saveStats p"
  by (simp_all add: deleteInvoice_def)

lemma active_DB [simp]:
  "DB (AddActivePayment now h r a p) = DB p" "saveStats (AddActivePayment now h r a p) = saveStats p"
  "DB (RemoveActivePayment h p) = DB p" "saveStats (RemoveActivePayment h p) = saveStats p"
  by (simp_all add: AddActivePayment_def RemoveActivePayment_def)

lemma race_ok_cong:
  "race_ok env outcome hash content s save ph na p \<Longrightarrow> DB p' = DB p \<Longrightarrow> saveStats p' = saveStats p \<Longrightarrow>
    consistent_at env ph' \<Longrightarrow> marked_at env ph' = marked_at env ph \<Longrightarrow> unrecorded_at env ph' = unrecorded_at env ph \<Longrightarrow>
    race_ok env outcome hash content s save ph' na p'"
  by (auto simp: race_ok_def split: noting.splits)

lemma race_ok_consistent: "race_ok env outcome hash content s save ph na p \<Longrightarrow> consistent_at env ph"
  by (simp add: race_ok_def)

lemmas race_facts = race_ok_def told_def unrecorded_at_def consistent_at_def timed_out_def

lemma pay_next_ok:
  assumes ok: "race_ok env outcome (inv_PaymentHash invoice) content s save ph na p"
    and disk: "\<And>n. \<not> disk_fails env n" and outcome: "outcome \<in> {SUCCESS_PREFIX, FAILURE_PREFIX}"
  shows "race_ok env outcome (inv_PaymentHash invoice) content s save
    (fst (pay_next env g route invoice ph p)) na (snd (pay_next env g route invoice ph p))"
proof (cases ph)
  case Unrecording
  have w: "works env p" using ok disk by (simp add: race_ok_def works_def)
  show ?thesis
    using ok outcome_keys [OF outcome] working_store(4) [OF w, of "inv_PaymentHash invoice"] working_store(6) [OF w, of "inv_PaymentHash invoice"]
    by (auto simp: Unrecording race_facts works_def split: noting.splits if_splits)
next
  case Marking
  have w: "works env p" using ok disk by (simp add: race_ok_def works_def)
  show ?thesis
    using ok outcome_keys [OF outcome] working_store(1,3) [OF w, of "TIMEOUT_PREFIX @ inv_PaymentHash invoice" "''timeout''"]
    by (auto simp: Marking race_facts works_def split: noting.splits if_splits)
qed (use ok [THEN race_ok_consistent] in \<open>auto intro!: race_ok_cong [OF ok]
      simp: Let_def split_beta consistent_at_def unrecorded_at_def timed_out_def split: option.split wait_answer.split\<close>)

lemma note_next_ok:
  assumes ok: "race_ok env outcome hash content s save ph na p" and s: "s hash \<noteq> None"
    and disk: "\<And>n. \<not> disk_fails env' n" and outcome: "outcome \<in> {SUCCESS_PREFIX, FAILURE_PREFIX}"
  shows "race_ok env outcome hash content s save ph
    (fst (note_next outcome env' hash (Some content) na p)) (snd (note_next outcome env' hash (Some content) na p))"
proof -
  have w: "works env' p" using ok disk by (simp add: race_ok_def works_def)
  note keys = outcome_keys [OF outcome]
  show ?thesis
  proof (cases na)
    case Looking
    then show ?thesis using ok s by (auto simp: race_facts working_get [OF w] split: option.split)
  next
    case LookingForMark
    then show ?thesis using ok by (auto simp: race_facts working_get [OF w] split: option.split if_splits)
  next
    case (Found key)
    then show ?thesis
      using ok keys working_store(4-6) [OF w, of key]
      by (auto simp: race_facts works_def Let_def split_beta split: if_splits)
  next
    case Saving
    then show ?thesis
      using ok keys working_store(7,8) [OF w, of "outcome @ hash" "Some content"]
      by (auto simp: race_facts works_def split: if_splits)
  qed (use ok in simp_all)
qed

lemma run_race_ok:
  assumes "run_race env g route invoice outcome env' (Some content) sched (ph, na, p) = (ph', na', p')"
    and "race_ok env outcome (inv_PaymentHash invoice) content s save ph na p" "s (inv_PaymentHash invoice) \<noteq> None"
    and disk: "\<And>n. \<not> disk_fails env n" "\<And>n. \<not> disk_fails env' n" and outcome: "outcome \<in> {SUCCESS_PREFIX, FAILURE_PREFIX}"
  shows "race_ok env outcome (inv_PaymentHash invoice) content s save ph' na' p'"
  using assms(1,2)
proof (induction sched arbitrary: ph na p)
  case (Cons b sched)
  show ?case
  proof (cases b)
    case True
    then show ?thesis
      using Cons.IH [OF _ pay_next_ok [OF Cons.prems(2) disk(1) outcome]] Cons.prems(1) by (simp add: split_beta)
  next
    case False
    then show ?thesis
      using Cons.IH [OF _ note_next_ok [OF Cons.prems(2) assms(3) disk(2) outcome]] Cons.prems(1) by (simp add: split_beta)
  qed
qed simp

text \<open>Six steps of the payment and four of the notification are enough for both to end.\<close>

lemma run_race_left:
  assumes "run_race env g route invoice outcome env' content sched (ph, na, p) = (ph', na', p')"
  shows "pay_left ph' \<le> pay_left ph - length (filter (\<lambda>b. b) sched)"
    "note_left na' \<le> note_left na - length (filter Not sched)"
proof -
  have "pay_left ph' \<le> pay_left ph - length (filter (\<lambda>b. b) sched) \<and> note_left na' \<le> note_left na - length (filter Not sched)"
    using assms
  proof (induction sched arbitrary: ph na p)
    case (Cons b sched)
    show ?case
    proof (cases b)
      case True
      then show ?thesis
        using Cons.IH [of "fst (pay_next env g route invoice ph p)" na "snd (pay_next env g route invoice ph p)"]
          Cons.prems pay_left_next [of env g route invoice ph p] by (auto simp: split_beta)
    next
      case False
      then show ?thesis
        using Cons.IH [of ph "fst (note_next outcome env' (inv_PaymentHash invoice) content na p)"
            "snd (note_next outcome env' (inv_PaymentHash invoice) content na p)"]
          Cons.prems note_left_next [of outcome env' "inv_PaymentHash invoice" content na p] by (auto simp: split_beta)
    qed
  qed simp
  then show "pay_left ph' \<le> pay_left ph - length (filter (\<lambda>b. b) sched)"
    "note_left na' \<le> note_left na - length (filter Not sched)" by simp_all
qed

lemma run_race_append:
  "run_race env g route invoice outcome env' content (xs @ ys) c
     = run_race env g route invoice outcome env' content ys (run_race env g route invoice outcome env' content xs c)"
proof (induction xs arbitrary: c)
  case (Cons b xs)
  then show ?case by (cases b; cases c) (simp_all add: split_beta)
qed simp

text \<open>The notification keeps to its steps, and if it is looked for after the payment has ended, it is told
  by what the payment left: the hash, or the mark.\<close>

definition well_told :: "lightningd \<Rightarrow> string \<Rightarrow> paying \<Rightarrow> noting \<Rightarrow> Payer \<Rightarrow> bool" where
  "well_told env hash ph na p \<longleftrightarrow> pay_left ph = 0 \<and> na \<noteq> Ignored \<and>
     (na = LookingForMark \<longrightarrow> marked_at env ph) \<and>
     (case na of Found key \<Rightarrow> key = (if marked_at env ph then TIMEOUT_PREFIX @ hash else hash) | _ \<Rightarrow> True) \<and>
     (told na \<longrightarrow> stored p (TIMEOUT_PREFIX @ hash) = None)"

lemma note_next_well_told:
  assumes ok: "race_ok env outcome hash content s save ph na p" and told: "well_told env hash ph na p"
    and s: "s hash \<noteq> None" and disk: "\<And>n. \<not> disk_fails env' n" and outcome: "outcome \<in> {SUCCESS_PREFIX, FAILURE_PREFIX}"
  shows "well_told env hash ph
    (fst (note_next outcome env' hash (Some content) na p)) (snd (note_next outcome env' hash (Some content) na p))"
proof -
  have w: "works env' p" using ok disk by (simp add: race_ok_def works_def)
  note keys = outcome_keys [OF outcome]
  have ended: "unrecorded_at env ph = marked_at env ph"
    using told by (auto simp: well_told_def pay_left_0 unrecorded_at_def)
  show ?thesis
  proof (cases na)
    case Looking
    then show ?thesis
      using ok told s ended by (auto simp: race_ok_def well_told_def told_def working_get [OF w] split: option.split if_splits)
  next
    case LookingForMark
    then show ?thesis
      using ok told by (auto simp: race_ok_def well_told_def told_def working_get [OF w] split: option.split)
  next
    case (Found key)
    then show ?thesis
      using ok told working_store(4,5) [OF w, of key]
      by (auto simp: race_ok_def well_told_def told_def Let_def split_beta split: if_splits)
  next
    case Saving
    then show ?thesis
      using told keys working_store(8) [OF w, of "outcome @ hash" "Some content"]
      by (auto simp: well_told_def told_def)
  qed (use told in simp_all)
qed

lemma run_race_well_told:
  assumes "run_race env g route invoice outcome env' (Some content) sched (ph, na, p) = (ph', na', p')"
    and "race_ok env outcome (inv_PaymentHash invoice) content s save ph na p"
    and "well_told env (inv_PaymentHash invoice) ph na p" and s: "s (inv_PaymentHash invoice) \<noteq> None"
    and disk: "\<And>n. \<not> disk_fails env n" "\<And>n. \<not> disk_fails env' n" and outcome: "outcome \<in> {SUCCESS_PREFIX, FAILURE_PREFIX}"
  shows "well_told env (inv_PaymentHash invoice) ph' na' p'"
  using assms(1-3)
proof (induction sched arbitrary: ph na p)
  case (Cons b sched)
  show ?case
  proof (cases b)
    case True
    obtain err where "ph = Finished err" using Cons.prems(3) by (auto simp: well_told_def pay_left_0)
    then show ?thesis using Cons True by simp
  next
    case False
    then show ?thesis
      using Cons.IH [OF _ note_next_ok [OF Cons.prems(2) s disk(2) outcome]
          note_next_well_told [OF Cons.prems(2,3) s disk(2) outcome]] Cons.prems(1)
      by (simp add: split_beta)
  qed
qed simp

text \<open>What \<open>payInvoice\<close> has done before the payment is sent: the invoice is made and its hash recorded,
  and the route is saved.\<close>

definition invoice_made ::
    "(PrettyRoute \<Rightarrow> string option) \<Rightarrow> lightningd \<Rightarrow> Graph \<Rightarrow> Route \<Rightarrow> RebalanceInvoice \<Rightarrow> Payer \<Rightarrow> Payer \<Rightarrow> bool" where
  "invoice_made marshal env g route invoice p p1 \<longleftrightarrow>
     (let (p0, out) = CreateRebalanceInvoice env (Amount route) p; hash = inv_PaymentHash invoice in
      out = Inr invoice \<and> p1 = SaveToDb env (ROUTE_PREFIX @ hash) (marshal (NewPrettyRoute g route hash)) p0)"

lemma payInvoice_made:
  "invoice_made marshal env g route invoice p p1 \<Longrightarrow>
    payInvoice marshal env g route p =
      (case SendPay env g route invoice p1 of
         (p2, Some e) \<Rightarrow> (p2, Inl e) | (p2, None) \<Rightarrow> (p2, Inr (NewPrettyRoute g route (inv_PaymentHash invoice))))"
  by (auto simp: invoice_made_def payInvoice_def Let_def split: prod.splits)

lemma invoice_made_stores:
  assumes made: "invoice_made marshal env g route invoice p p1" and w: "works env p"
  defines "hash \<equiv> inv_PaymentHash invoice"
  shows "works env p1" "saveStats p1 = saveStats p" "stored p1 hash = Some (inv_Label invoice)"
    "key \<noteq> hash \<Longrightarrow> key \<noteq> ROUTE_PREFIX @ hash \<Longrightarrow> stored p1 key = stored p key"
proof -
  define p0 where "p0 = fst (CreateRebalanceInvoice env (Amount route) p)"
  have create: "CreateRebalanceInvoice env (Amount route) p = (p0, Inr invoice)"
    and p1: "p1 = SaveToDb env (ROUTE_PREFIX @ hash) (marshal (NewPrettyRoute g route hash)) p0"
    using made by (auto simp: invoice_made_def p0_def hash_def split_beta prod_eq_iff Let_def)
  have p0: "p0 = fst (db_set env hash (inv_Label invoice) p)"
    using create by (auto simp: CreateRebalanceInvoice_def hash_def split: option.splits prod.splits if_splits)
  note w0 = working_store(3) [OF w, of hash "inv_Label invoice", folded p0]
  show "works env p1" "saveStats p1 = saveStats p" "stored p1 hash = Some (inv_Label invoice)"
    using working_store(7,8) [OF w0] working_store(1) [OF w, of hash "inv_Label invoice"]
    by (auto simp: p1 p0 split: option.split)
  show "stored p1 key = stored p key" if "key \<noteq> hash" "key \<noteq> ROUTE_PREFIX @ hash"
    using that working_store(8) [OF w0] working_store(1) [OF w, of hash "inv_Label invoice"]
    by (auto simp: p1 p0 split: option.split)
qed

lemma run_race_six:
  "run_race env g route invoice outcome env' content (replicate 6 True) (Starting, Looking, p) =
     (Finished (snd (SendPay env g route invoice p)), Looking, fst (SendPay env g route invoice p))"
  using pay_steps_SendPay [of env g route invoice p] by (simp add: numeral_eq_Suc split_beta prod_eq_iff)

text \<open>
C17
A payment and the notification of its outcome, in two goroutines whose steps at the database interleave
in any way, once \<open>payInvoice\<close> has made the invoice and as long as the database works.  When both have
ended, the hash is no longer in the database, no entry is touched but those of this payment, and a
notification that was recognised is stored, once, under the hash and the prefix of its outcome (if
statistics are kept at all).  It is recognised, nothing is left that tells the payment is ours, and a
second notification stores nothing, if lightningd answered before the timeout, or if the payment was
through with it, timeout included, before the notification was looked at.  Only if a payment that timed
out and its notification are handled at the same moment may a notification go unrecognised or the mark
of the timeout be left over; a notification that goes unrecognised always leaves the mark.
\<close>
theorem own_payment_recorded_once:
  assumes made: "invoice_made marshal env g route invoice p p1" and h: "hash = inv_PaymentHash invoice"
    and w: "works env p" "works env' p" and fresh: "stored p (TIMEOUT_PREFIX @ hash) = None"
    and outcome: "outcome \<in> {SUCCESS_PREFIX, FAILURE_PREFIX}"
    and race: "run_race env g route invoice outcome env' (Some content) sched (Starting, Looking, p1) = (ph, na, p2)"
    and enough: "length (filter (\<lambda>b. b) sched) \<ge> 6" "length (filter Not sched) \<ge> 4"
  shows "pay_left ph = 0 \<and> na \<in> {Recorded, Ignored} \<and> stored p2 hash = None
    \<and> stored p2 (outcome @ hash) = (if na = Recorded \<and> saveStats p then Some content else stored p (outcome @ hash))
    \<and> stored p2 |` (- {hash, TIMEOUT_PREFIX @ hash, ROUTE_PREFIX @ hash, outcome @ hash})
        = stored p |` (- {hash, TIMEOUT_PREFIX @ hash, ROUTE_PREFIX @ hash, outcome @ hash})
    \<and> (if ln_wait env = TimedOut \<and> take 6 sched \<noteq> replicate 6 True
       then stored p2 (TIMEOUT_PREFIX @ hash) \<in> (if na = Recorded then {None, Some ''timeout''} else {Some ''timeout''})
       else na = Recorded \<and> stored p2 (TIMEOUT_PREFIX @ hash) = None
         \<and> stored (OnPayment outcome' env' hash content' p2) = stored p2)"
proof -
  note disk = w [unfolded works_def]
  note keys = outcome_keys [OF outcome]
  note start = invoice_made_stores [OF made w(1), folded h]
  have ok1: "race_ok env outcome hash content (stored p1) (saveStats p) Starting Looking p1"
    using start fresh keys by (simp add: race_facts works_def)
  have s: "stored p1 hash \<noteq> None" using start(3) by simp
  have ok: "race_ok env outcome hash content (stored p1) (saveStats p) ph na p2"
    using run_race_ok [OF race ok1 [unfolded h] s [unfolded h] _ _ outcome] disk by (simp add: h)
  have ended: "pay_left ph = 0" "note_left na = 0"
    using run_race_left [OF race] enough by simp_all
  then have na: "na \<in> {Recorded, Ignored}" by (simp add: note_left_0)
  obtain err where ph: "ph = Finished err" using ended(1) by (auto simp: pay_left_0)
  have p2: "stored p2 hash = None"
    "stored p2 (outcome @ hash) = (if na = Recorded \<and> saveStats p then Some content else stored p (outcome @ hash))"
    using ok na ph start(4) [of "outcome @ hash"] keys by (auto simp: race_ok_def told_def unrecorded_at_def)
  have rest: "stored p2 key = stored p key" if "key \<notin> {hash, TIMEOUT_PREFIX @ hash, ROUTE_PREFIX @ hash, outcome @ hash}" for key
    using ok that start(4) [of key] by (simp add: race_ok_def)
  have others: "stored p2 |` (- {hash, TIMEOUT_PREFIX @ hash, ROUTE_PREFIX @ hash, outcome @ hash})
      = stored p |` (- {hash, TIMEOUT_PREFIX @ hash, ROUTE_PREFIX @ hash, outcome @ hash})"
    by (rule ext) (simp add: restrict_map_def rest)
  have told: "na = Recorded \<and> stored p2 (TIMEOUT_PREFIX @ hash) = None" if "take 6 sched = replicate 6 True"
  proof -
    have sched: "sched = replicate 6 True @ drop 6 sched" using append_take_drop_id [of 6 sched] that by simp
    let ?p = "fst (SendPay env g route invoice p1)" and ?ph = "Finished (snd (SendPay env g route invoice p1))"
    have first: "run_race env g route invoice outcome env' (Some content) (replicate 6 True) (Starting, Looking, p1)
        = (?ph, Looking, ?p)" by (rule run_race_six)
    have late: "run_race env g route invoice outcome env' (Some content) (drop 6 sched) (?ph, Looking, ?p) = (ph, na, p2)"
      using race by (subst (asm) sched) (simp add: run_race_append first)
    have "race_ok env outcome hash content (stored p1) (saveStats p) ?ph Looking ?p"
      using run_race_ok [OF first ok1 [unfolded h] s [unfolded h] _ _ outcome] disk by (simp add: h)
    from run_race_well_told [OF late this [unfolded h]] have "well_told env hash ph na p2"
      using disk s outcome by (simp add: h well_told_def told_def)
    then show ?thesis using na by (auto simp: well_told_def told_def)
  qed
  have timely: "na = Recorded \<and> stored p2 (TIMEOUT_PREFIX @ hash) = None" if "ln_wait env \<noteq> TimedOut"
    using ok na that ph by (auto simp: race_ok_def unrecorded_at_def timed_out_def)
  have mark: "stored p2 (TIMEOUT_PREFIX @ hash) \<in> (if na = Recorded then {None, Some ''timeout''} else {Some ''timeout''})"
    using ok na ph by (auto simp: race_ok_def unrecorded_at_def told_def)
  have again: "stored (OnPayment outcome' env' hash content' p2) = stored p2" if "stored p2 (TIMEOUT_PREFIX @ hash) = None"
    using ok w(2) that p2(1) by (intro foreign_payment_ignored) (simp_all add: race_ok_def works_def ours_def)
  show ?thesis
  proof (cases "ln_wait env = TimedOut \<and> take 6 sched \<noteq> replicate 6 True")
    case True
    then show ?thesis by (intro conjI ended(1) na p2 others) (simp add: mark)
  next
    case False
    then have "na = Recorded \<and> stored p2 (TIMEOUT_PREFIX @ hash) = None" using told timely by blast
    then show ?thesis using False again by (intro conjI ended(1) na p2 others) simp
  qed
qed

definition sample_timeout :: lightningd where
  "sample_timeout = sample_lightningd\<lparr>ln_delinvoice := \<lambda>_ _ _. None\<rparr>"

definition sample_invoice :: RebalanceInvoice where
  "sample_invoice = \<lparr>inv_Label = ''circular-1fa0'', inv_PaymentHash = ''7c'', PaymentSecret = ''s3'', inv_AmountMsat = Amount sample_again\<rparr>"

definition sample_made :: Payer where
  "sample_made = SaveToDb sample_timeout (ROUTE_PREFIX @ ''7c'') (Some ''route'')
     (fst (CreateRebalanceInvoice sample_timeout (Amount sample_again) sample_payer))"

definition sample_race :: "bool list \<Rightarrow> paying \<times> noting \<times> Payer" where
  "sample_race sched = run_race sample_timeout sample_graph sample_again sample_invoice FAILURE_PREFIX sample_timeout
     (Some ''204'') sched (Starting, Looking, sample_made)"

text \<open>The notification looks for the hash just after it is removed, and for the mark just after it is set.\<close>

definition sample_sched :: "bool list" where
  "sample_sched = replicate 4 True @ [False, True] @ replicate 3 False @ [True]"

theorem own_payment_recorded_once_witness:
  "let (ph, na, p2) = sample_race sample_sched in
     pay_left ph = 0 \<and> na \<in> {Recorded, Ignored} \<and> stored p2 ''7c'' = None
   \<and> stored p2 (FAILURE_PREFIX @ ''7c'')
      = (if na = Recorded \<and> saveStats sample_payer then Some ''204'' else stored sample_payer (FAILURE_PREFIX @ ''7c''))
   \<and> stored p2 |` (- {''7c'', TIMEOUT_PREFIX @ ''7c'', ROUTE_PREFIX @ ''7c'', FAILURE_PREFIX @ ''7c''})
      = stored sample_payer |` (- {''7c'', TIMEOUT_PREFIX @ ''7c'', ROUTE_PREFIX @ ''7c'', FAILURE_PREFIX @ ''7c''})"
proof -
  obtain ph na p2 where race: "sample_race sample_sched = (ph, na, p2)" by (cases "sample_race sample_sched")
  have made: "invoice_made (\<lambda>_. Some ''route'') sample_timeout sample_graph sample_again sample_invoice sample_payer sample_made"
    by (simp add: invoice_made_def CreateRebalanceInvoice_def newInvoiceLabel_def sample_timeout_def sample_lightningd_def
        hex_digit_def db_set_def Store_Set_def sample_payer_def sample_invoice_def sample_made_def)
  have works: "works sample_timeout sample_payer"
    by (simp add: works_def sample_timeout_def sample_lightningd_def sample_payer_def)
  have fresh: "stored sample_payer (TIMEOUT_PREFIX @ ''7c'') = None" by code_simp
  show ?thesis
    using own_payment_recorded_once [OF made _ works works fresh, of FAILURE_PREFIX "''204''" sample_sched ph na p2]
      race [unfolded sample_race_def]
    unfolding race by (simp add: sample_invoice_def sample_sched_def)
qed

text \<open>What may happen otherwise.  A notification handled between the removal of the hash and the setting of
  the mark is taken for somebody else's and lost, and the mark stays for good; one handled just before
  is recorded, and the mark stays as well.\<close>

lemma notification_between_is_lost:
  "(let (ph, na, p2) = sample_race (replicate 4 True @ [False, False, True, True]) in
      na = Ignored \<and> pay_left ph = 0 \<and> stored p2 (FAILURE_PREFIX @ ''7c'') = None
      \<and> stored p2 (TIMEOUT_PREFIX @ ''7c'') = Some ''timeout'')"
  "(let (ph, na, p2) = sample_race (replicate 3 True @ replicate 4 False @ replicate 3 True) in
      na = Recorded \<and> pay_left ph = 0 \<and> stored p2 (FAILURE_PREFIX @ ''7c'') = Some ''204''
      \<and> stored p2 (TIMEOUT_PREFIX @ ''7c'') = Some ''timeout'')"
  by code_simp+

text \<open>
  A read of the database that fails, otherwise than by not finding the key, is taken for a payment of
  ours: the delete of the absent key succeeds, and the outcome of somebody else's payment is recorded.
\<close>

lemma read_error_takes_foreign:
  "\<not> ours sample_payer ''bb'' \<and>
   stored (OnPayment SUCCESS_PREFIX (sample_timeout\<lparr>disk_fails := \<lambda>n. n = 0\<rparr>) ''bb'' (Some ''0'') sample_payer) ''s_bb''
     = Some ''0''"
  by code_simp

section \<open>Statistics\<close>

text \<open>Deleting the statistics keeps every payment that is still to be recognised.\<close>

lemma dropped:
  assumes "DropPrefix fails ps s = (s', None)"
  shows "\<not> store_closed s'" "entries s' = filter (\<lambda>(key, _). \<not> list_ex (\<lambda>p. prefix p key) ps) (entries s)"
  using assms by (auto simp: DropPrefix_def split: if_splits)

lemma map_of_filter_keys: "map_of (filter (\<lambda>(key, _). P key) kvs) k = (if P k then map_of kvs k else None)"
  by (induction kvs) auto

lemma list_prefix_none:
  assumes "\<not> store_closed s" "\<forall>key \<in> fst ` set (entries s). \<not> prefix p key"
  shows "list_prefix decode p s = Some []"
proof -
  have none: "filter (\<lambda>(key, _). prefix p key) (sort_key fst (entries s)) = []"
    using assms(2) by (auto simp: filter_empty_conv)
  show ?thesis by (simp add: list_prefix_def assms(1) none)
qed

lemma delete_stats_exact:
  assumes "DeleteStats fails s = (s', True)"
  shows "ListSuccesses success s' = Some []" "ListFailures failure s' = Some []" "ListRoutes routes s' = Some []"
    "map_of (entries s') (TIMEOUT_PREFIX @ hash) = map_of (entries s) (TIMEOUT_PREFIX @ hash)"
    "\<forall>p \<in> {SUCCESS_PREFIX, FAILURE_PREFIX, ROUTE_PREFIX}. \<not> prefix p hash \<Longrightarrow> map_of (entries s') hash = map_of (entries s) hash"
proof -
  have drop: "DropPrefix fails [SUCCESS_PREFIX, FAILURE_PREFIX, ROUTE_PREFIX] s = (s', None)"
    using assms by (auto simp: DeleteStats_def split: prod.splits)
  note d = dropped [OF drop]
  show "ListSuccesses success s' = Some []" "ListFailures failure s' = Some []" "ListRoutes routes s' = Some []"
    unfolding ListSuccesses_def ListFailures_def ListRoutes_def
    by (rule list_prefix_none [OF d(1)]; force simp: d(2))+
  show "map_of (entries s') (TIMEOUT_PREFIX @ hash) = map_of (entries s) (TIMEOUT_PREFIX @ hash)"
    by (simp add: d(2) map_of_filter_keys TIMEOUT_PREFIX_def SUCCESS_PREFIX_def FAILURE_PREFIX_def ROUTE_PREFIX_def)
  show "map_of (entries s') hash = map_of (entries s) hash"
    if "\<forall>p \<in> {SUCCESS_PREFIX, FAILURE_PREFIX, ROUTE_PREFIX}. \<not> prefix p hash"
    using that by (simp add: d(2) map_of_filter_keys)
qed

end
