(* ===== verification/Reports.thy ===== *)
theory Reports
  imports Payments ParallelState SavedState
begin

text \<open>
  Starting the plugin (\<^verbatim>\<open>setOptions\<close> and \<^verbatim>\<open>Init\<close> of \<^verbatim>\<open>node/node.go\<close>), what a channel earned
  (\<^verbatim>\<open>node/earned.go\<close>), and the commands that report: circular-candidates (\<^verbatim>\<open>node/candidates_cmd.go\<close>),
  circular-nodes (\<^verbatim>\<open>node/nodes.go\<close>), circular-stats (\<^verbatim>\<open>node/stats.go\<close>), circular-active
  (\<^verbatim>\<open>node/active.go\<close>), circular-stop and -resume (\<^verbatim>\<open>node/control.go\<close>), the version (\<^verbatim>\<open>node/version.go\<close>).

  \<^verbatim>\<open>strconv.ParseFloat\<close> is a parameter: the finite number that a text is, if it is one.
\<close>

section \<open>Options and start\<close>

record Options =
  opt_liquidity_refresh :: int
  opt_liquidity_halflife :: int
  opt_node_memory :: int
  opt_risk_ppm :: int
  opt_attempts :: int
  opt_max_hops :: int
  opt_max_node_fails :: int
  opt_max_fail_streak :: int
  opt_max_time :: int
  opt_max_fee :: int
  opt_earn_days :: int
  opt_fee_ratio :: string
  opt_save_stats :: bool

text \<open>\<^verbatim>\<open>time.Minute\<close> and \<^verbatim>\<open>time.Hour\<close>, in nanoseconds.\<close>

definition Minute :: int where "Minute = 60000000000"
definition Hour :: int where "Hour = 3600000000000"

text \<open>What is set besides the node: how long failures of nodes are remembered, and whether statistics are kept.\<close>

definition setOptions :: "(string \<Rightarrow> rat option) \<Rightarrow> Options \<Rightarrow> Node \<Rightarrow> Node \<times> int \<times> bool" where
  "setOptions ParseFloat opts n =
     (let n = n\<lparr>liquidityRefresh := i64 (opt_liquidity_refresh opts * Minute)\<rparr>;
          n = n\<lparr>liquidityHalfLife := i64 (opt_liquidity_halflife opts * Minute)\<rparr>;
          memory = (if opt_node_memory opts > 0 then i64 (opt_node_memory opts * Hour) else 0);
          n = (if opt_risk_ppm opts > 0 then n\<lparr>node_RiskPPM := word_of_int (opt_risk_ppm opts)\<rparr> else n);
          d = \<lparr>def_Attempts = opt_attempts opts, def_MaxHops = opt_max_hops opts, def_MaxNodeFails = opt_max_node_fails opts,
               def_MaxFailStreak = opt_max_fail_streak opts, def_MaxTime = opt_max_time opts, def_MaxFee = opt_max_fee opts,
               def_FeeRatio = 0, def_EarnDays = opt_earn_days opts\<rparr>;
          d = (if opt_fee_ratio opts \<noteq> ''''
               then (case ParseFloat (opt_fee_ratio opts) of None \<Rightarrow> d | Some v \<Rightarrow> d\<lparr>def_FeeRatio := v\<rparr>) else d) in
      (n\<lparr>node_Defaults := d\<rparr>, memory, opt_save_stats opts))"

text \<open>
  \<^verbatim>\<open>Init\<close>, up to the database, the timers and the gossip parser: the id, a new graph, what was saved, the
  first refresh of the peers and the first of the graph, after which what was saved is applied.  What
  lightningd answers to the refreshes are arguments.
\<close>

definition refreshGraph_applied ::
    "(Plugin \<Rightarrow> Plugin) \<Rightarrow> int \<Rightarrow> GlChannel list option \<Rightarrow> (node_id \<times> string) list option \<Rightarrow> Plugin \<Rightarrow> Plugin" where
  "refreshGraph_applied apply now channelList nodes pl =
     (case refreshGraph now (\<lambda>n. n) (pl_Node pl) channelList nodes of
        (n, False) \<Rightarrow> pl\<lparr>pl_Node := n\<rparr>
      | (n, True) \<Rightarrow> apply (pl\<lparr>pl_Node := n\<rparr>))"

definition plugin_Init ::
    "(Plugin \<Rightarrow> Plugin) \<Rightarrow> (Plugin \<Rightarrow> Plugin) \<Rightarrow> (string \<Rightarrow> rat option) \<Rightarrow> Options \<Rightarrow> node_id \<Rightarrow> int
       \<Rightarrow> (node_id \<times> bool) list option \<Rightarrow> PeerChannel list option
       \<Rightarrow> GlChannel list option \<Rightarrow> (node_id \<times> string) list option \<Rightarrow> Plugin \<Rightarrow> Plugin" where
  "plugin_Init load apply ParseFloat opts me now peers peerChannels channelList nodes pl =
     (let (n, memory, _) = setOptions ParseFloat opts (pl_Node pl);
          n = n\<lparr>node_Id := me, node_Graph := SetNodeMemory NewGraph memory\<rparr>;
          pl = load (pl\<lparr>pl_Node := n\<rparr>);
          pl = pl\<lparr>pl_Node := fst (refreshPeers now (pl_Node pl) peers peerChannels now)\<rparr> in
      refreshGraph_applied apply now channelList nodes pl)"

text \<open>circular-stop and circular-resume.\<close>

definition Stop_Call :: "Node \<Rightarrow> Node" where "Stop_Call n = n\<lparr>Stopped := True\<rparr>"
definition Resume_Call :: "Node \<Rightarrow> Node" where "Resume_Call n = n\<lparr>Stopped := False\<rparr>"

section \<open>What a channel earned\<close>

text \<open>Times are nanoseconds.\<close>

definition EARN_CACHE_TTL :: int where "EARN_CACHE_TTL = 10 * Minute"

record earnedEntry =
  ee_ppm :: u64
  ee_volume :: u64
  ee_since :: int
  ee_at :: int

text \<open>What lightningd answers: \<^const>\<open>None\<close> an error, or that there is no connection to it.\<close>

definition Earned :: "Forwarding list option \<Rightarrow> int \<Rightarrow> scid \<Rightarrow> int \<Rightarrow> (scid \<times> earnedEntry) list
    \<Rightarrow> (scid \<times> earnedEntry) list \<times> (u64 \<times> u64) option" where
  "Earned answer now scid since cache =
     (let kept = (case map_of cache scid of
            None \<Rightarrow> None
          | Some e \<Rightarrow> if now - ee_at e < EARN_CACHE_TTL \<and> \<bar>ee_since e - since\<bar> < EARN_CACHE_TTL then Some e else None) in
      case (kept, answer) of
        (Some e, _) \<Rightarrow> (cache, Some (ee_ppm e, ee_volume e))
      | (None, None) \<Rightarrow> (cache, None)
      | (None, Some forwards) \<Rightarrow>
          let (earned, volume) = EarnedPPM forwards (since div 1000000000) in
          (AList.update scid \<lparr>ee_ppm = earned, ee_volume = volume, ee_since = since, ee_at = now\<rparr> cache,
           Some (earned, volume)))"

section \<open>circular-nodes\<close>

record RememberedNode =
  rn_NodeId :: node_id
  rn_Alias :: string
  rn_Score :: rat
  rn_PenaltyPPM :: u64

record nodesResult =
  HalfLifeHours :: int
  nr_RiskPPM :: u64
  nr_Count :: nat
  nr_Nodes :: "RememberedNode list"

text \<open>The score shown has one decimal.\<close>

definition remembered_node :: "Graph \<Rightarrow> u64 \<Rightarrow> node_id \<times> NodeScore \<Rightarrow> RememberedNode" where
  "remembered_node g risk = (\<lambda>(i, s).
     \<lparr>rn_NodeId = i, rn_Alias = GetAlias g i, rn_Score = fdiv (of_int (float_round (fmul (Score s) 10))) 10,
      rn_PenaltyPPM = NodePenaltyPPM (Score s) risk\<rparr>)"

definition rememberedNodes :: "(rat \<Rightarrow> rat \<Rightarrow> rat) \<Rightarrow> int \<Rightarrow> int \<Rightarrow> int \<Rightarrow> Node \<Rightarrow> Node \<times> nodesResult" where
  "rememberedNodes mpow now memory limit n =
     (let limit = (if limit \<le> 0 then 20 else limit);
          (g, scores) = NodeScores mpow now (node_Graph n);
          nodes = sort_key (\<lambda>r. (- rn_Score r, rn_NodeId r)) (map (remembered_node g (node_RiskPPM n)) scores) in
      (n\<lparr>node_Graph := g\<rparr>,
       \<lparr>HalfLifeHours = memory div Hour, nr_RiskPPM = node_RiskPPM n, nr_Count = length scores,
        nr_Nodes = (if int (length nodes) > limit then take (nat limit) nodes else nodes)\<rparr>))"

section \<open>circular-candidates\<close>

text \<open>\<^verbatim>\<open>time.Unix(t, 0).UTC()\<close>: year, month and day of a count of days since 1970, and the time of day.\<close>

definition civil :: "int \<Rightarrow> int \<times> int \<times> int" where
  "civil days =
     (let z = days + 719468; era = z div 146097; doe = z mod 146097;
          yoe = (doe - doe div 1460 + doe div 36524 - doe div 146096) div 365;
          doy = doe - (365 * yoe + yoe div 4 - yoe div 100);
          mp = (5 * doy + 2) div 153;
          m = (if mp < 10 then mp + 3 else mp - 9) in
      (yoe + era * 400 + (if m \<le> 2 then 1 else 0), m, doy - (153 * mp + 2) div 5 + 1))"

definition padded :: "nat \<Rightarrow> int \<Rightarrow> string" where
  "padded k n = replicate (k - length (decimal n)) CHR ''0'' @ decimal n"

text \<open>RFC 3339; for the years 0 to 9999, as the times of results are.\<close>

definition utcTime :: "int \<Rightarrow> string" where
  "utcTime t =
     (if t = 0 then ''''
      else
        let (y, m, d) = civil (t div 86400); s = t mod 86400 in
        padded 4 y @ ''-'' @ padded 2 m @ ''-'' @ padded 2 d @ ''T'' @
        padded 2 (s div 3600) @ '':'' @ padded 2 (s mod 3600 div 60) @ '':'' @ padded 2 (s mod 60) @ ''Z'')"

record CandidateView =
  cv_Scid :: scid
  cv_As :: string
  cv_PeerId :: string
  cv_Alias :: string
  cv_Successes :: u64
  cv_Failures :: u64
  cv_SuccessRate :: rat
  cv_MovedSat :: u64
  cv_PaidPPM :: "u64 option"
  cv_LastSuccess :: string
  cv_LastFailure :: string
  cv_Failing :: bool
  cv_RankedLastUntil :: string

record candidatesResult =
  cr_Count :: nat
  cr_Candidates :: "CandidateView list"

text \<open>\<^verbatim>\<open>strings.Cut\<close> at a slash.\<close>

definition cut_slash :: "string \<Rightarrow> string \<times> string" where
  "cut_slash s = (takeWhile (\<lambda>c. c \<noteq> CHR ''/'') s, drop 1 (dropWhile (\<lambda>c. c \<noteq> CHR ''/'') s))"

text \<open>Whose channel a candidate is: the peer with it, or by the graph; empty if it is not known.\<close>

definition peer_of :: "Node \<Rightarrow> channel_id \<Rightarrow> node_id" where
  "peer_of n i =
     (let owners = foldl (\<lambda>m (peer, p). foldl (\<lambda>m c. m(pc_ShortChannelId c \<mapsto> peer)) m (peer_Channels p)) Map.empty (Peers n);
          owner = (case owners (fst (cut_slash i)) of None \<Rightarrow> '''' | Some peer \<Rightarrow> peer) in
      if owner \<noteq> '''' then owner
      else
        (case GetChannel (node_Graph n) i of
           Inl _ \<Rightarrow> ''''
         | Inr c \<Rightarrow> if node_Id n = Source c then Destination c else if node_Id n = Destination c then Source c else ''''))"

definition candidate_view :: "int \<Rightarrow> Node \<Rightarrow> channel_id \<Rightarrow> CandidateView" where
  "candidate_view now n i =
     (let r = node_CandidateRecord n i; (s, dir) = cut_slash i; peer = peer_of n i; alias = GetAlias (node_Graph n) peer in
      \<lparr>cv_Scid = s,
       cv_As = (if peer = '''' then '''' else if GetDirection (node_Id n) peer = dir then ''pull'' else ''push''),
       cv_PeerId = peer, cv_Alias = (if peer = '''' \<or> alias = peer then '''' else alias),
       cv_Successes = Successes r, cv_Failures = Failures r,
       cv_SuccessRate = fdiv (of_int (float_round (fmul (successRate r) 1000))) 1000,
       cv_MovedSat = cr_AmountMsat r div 1000,
       cv_PaidPPM = (if cr_AmountMsat r > 0
         then Some (u64_of_float (of_int (float_round
                (fdiv (fmul (float_of_u64 (cr_FeeMsat r)) 1000000) (float_of_u64 (cr_AmountMsat r))))))
         else None),
       cv_LastSuccess = utcTime (LastSuccess r), cv_LastFailure = utcTime (LastFailure r), cv_Failing = Failing r,
       cv_RankedLastUntil = (if backingOff r now then utcTime (i64 (LastFailure r + candidateBackoff)) else '''')\<rparr>)"

definition shown_candidates :: "int \<Rightarrow> Node \<Rightarrow> scid \<Rightarrow> channel_id list" where
  "shown_candidates now n scid =
     RankCandidates now n (sort (filter (\<lambda>i. scid = '''' \<or> fst (cut_slash i) = scid) (map fst (candidateList n)))) Map.empty"

definition candidateViews :: "int \<Rightarrow> Node \<Rightarrow> scid \<Rightarrow> int \<Rightarrow> candidatesResult" where
  "candidateViews now n scid limit =
     (let limit = (if limit \<le> 0 then 50 else limit); ids = shown_candidates now n scid in
      \<lparr>cr_Count = length ids, cr_Candidates = map (candidate_view now n) (take (nat limit) ids)\<rparr>)"

section \<open>circular-stats and the version\<close>

record Version =
  Commit :: string
  Time :: string
  Modified :: bool
  Go :: string

text \<open>What the build left in the binary: the version of Go, and settings by their keys.\<close>

definition version_setting :: "Version \<Rightarrow> string \<times> string \<Rightarrow> Version" where
  "version_setting v = (\<lambda>(key, value).
     if key = ''vcs.revision'' then v\<lparr>Commit := (if length value > 7 then take 7 value else value)\<rparr>
     else if key = ''vcs.time'' then v\<lparr>Time := value\<rparr>
     else if key = ''vcs.modified'' then v\<lparr>Modified := value = ''true''\<rparr>
     else v)"

definition versionFrom :: "(string \<times> (string \<times> string) list) option \<Rightarrow> Version" where
  "versionFrom info =
     (let v = \<lparr>Commit = ''unknown'', Time = '''', Modified = False, Go = ''''\<rparr> in
      case info of
        None \<Rightarrow> v
      | Some (GoVersion, built_with) \<Rightarrow> foldl version_setting (v\<lparr>Go := GoVersion\<rparr>) built_with)"

definition version_String :: "Version \<Rightarrow> string" where
  "version_String v =
     (let s = Commit v @ (if Modified v then ''+modified'' else '''');
          about = filter (\<lambda>a. a \<noteq> '''') [Time v, Go v] in
      case about of
        [a] \<Rightarrow> s @ '' ('' @ a @ '')''
      | [a, b] \<Rightarrow> s @ '' ('' @ a @ '', '' @ b @ '')''
      | _ \<Rightarrow> s)"

text \<open>\<^verbatim>\<open>strings.TrimSpace\<close> of ASCII text, \<^verbatim>\<open>strings.TrimSuffix\<close>, and \<^verbatim>\<open>strconv.ParseUint\<close> in base 10.\<close>

definition is_space :: "char \<Rightarrow> bool" where
  "is_space c \<longleftrightarrow> c \<in> {CHR 0x09, CHR 0x0A, CHR 0x0B, CHR 0x0C, CHR 0x0D, CHR 0x20}"

definition TrimSpace :: "string \<Rightarrow> string" where
  "TrimSpace s = rev (dropWhile is_space (rev (dropWhile is_space s)))"

definition TrimSuffix :: "string \<Rightarrow> string \<Rightarrow> string" where
  "TrimSuffix s e = (if e = drop (length s - length e) s then take (length s - length e) s else s)"

definition digit_of :: "char \<Rightarrow> int option" where
  "digit_of c = (let d = int (of_char c) - 48 in if 0 \<le> d \<and> d \<le> 9 then Some d else None)"

definition ParseUint :: "string \<Rightarrow> u64 option" where
  "ParseUint s =
     (if s = '''' then None
      else
        (case those (map digit_of s) of
           None \<Rightarrow> None
         | Some ds \<Rightarrow>
             let n = foldl (\<lambda>n d. 10 * n + d) 0 ds in if n < 18446744073709551616 then Some (word_of_int n) else None))"

record SendPaySuccess =
  sp_MilliSatoshi :: u64
  sp_AmountMilliSatoshi :: string

definition successAmount :: "(string \<Rightarrow> rat option) \<Rightarrow> SendPaySuccess \<Rightarrow> u64" where
  "successAmount ParseFloat success =
     (if sp_MilliSatoshi success > 0 then sp_MilliSatoshi success
      else
        let text = TrimSuffix (TrimSpace (sp_AmountMilliSatoshi success)) ''msat'' in
        (case ParseUint text of
           Some a \<Rightarrow> a
         | None \<Rightarrow>
             (case ParseFloat text of
                Some a \<Rightarrow> if a \<ge> 0 \<and> a < 2 ^ 63 then u64_of_float a else 0
              | None \<Rightarrow> 0)))"

record ('s, 'f, 'r) NodeStats =
  GraphStats :: Stats
  RebalancedMsat :: u64
  stats_Successes :: "'s list"
  stats_Failures :: "'f list"
  stats_Routes :: "'r list"
  stats_Version :: Version

text \<open>The decoders are those of \<^verbatim>\<open>encoding/json\<close>; a list that cannot be read counts as empty.\<close>

definition node_GetStats ::
    "(string \<Rightarrow> rat option) \<Rightarrow> (string \<Rightarrow> SendPaySuccess option) \<Rightarrow> (string \<Rightarrow> 'f option) \<Rightarrow> (string \<Rightarrow> 'r option)
       \<Rightarrow> (string \<times> (string \<times> string) list) option \<Rightarrow> Graph \<Rightarrow> Store \<Rightarrow> (SendPaySuccess, 'f, 'r) NodeStats" where
  "node_GetStats ParseFloat success failure route info g s =
     (let successes = (case ListSuccesses success s of None \<Rightarrow> [] | Some xs \<Rightarrow> xs);
          failures = (case ListFailures failure s of None \<Rightarrow> [] | Some xs \<Rightarrow> xs);
          routes = (case ListRoutes route s of None \<Rightarrow> [] | Some xs \<Rightarrow> xs) in
      \<lparr>GraphStats = GetStats g, RebalancedMsat = foldl (\<lambda>total success. total + successAmount ParseFloat success) 0 successes,
       stats_Successes = successes, stats_Failures = failures, stats_Routes = routes, stats_Version = versionFrom info\<rparr>)"

text \<open>circular-active lists the payments under way.\<close>

definition active_Call :: "Payer \<Rightarrow> ActivePayment list" where
  "active_Call p = map snd (ActivePayments p)"

end
