(* ===== verification/ReportClaims.thy ===== *)
theory ReportClaims
  imports Reports GraphClaims
begin

text \<open>
  What a channel is said to have earned was read a moment ago; the reports list everything they are
  about, in the order they promise, up to their limit.
\<close>

section \<open>Earnings\<close>

text \<open>The calls so far: what lightningd would answer, the time, the channel and the start of the period.\<close>

type_synonym earned_call = "Forwarding list option \<times> int \<times> scid \<times> int"

definition earned_calls :: "earned_call list \<Rightarrow> (scid \<times> earnedEntry) list" where
  "earned_calls past = foldl (\<lambda>cache (answer, now, scid, since). fst (Earned answer now scid since cache)) [] past"

definition read_by :: "earned_call list \<Rightarrow> scid \<Rightarrow> earnedEntry \<Rightarrow> bool" where
  "read_by past scid e \<longleftrightarrow>
     (\<exists>forwards. (Some forwards, ee_at e, scid, ee_since e) \<in> set past
        \<and> EarnedPPM forwards (ee_since e div 1000000000) = (ee_ppm e, ee_volume e))"

lemma read_by_mono: "read_by past scid e \<Longrightarrow> read_by (past @ more') scid e"
  by (auto simp: read_by_def)

lemma Earned_cases:
  assumes "Earned answer now scid since cache = (cache', out)"
  obtains (kept) e where "map_of cache scid = Some e" "now - ee_at e < EARN_CACHE_TTL" "\<bar>ee_since e - since\<bar> < EARN_CACHE_TTL"
      "cache' = cache" "out = Some (ee_ppm e, ee_volume e)"
  | (failed) "cache' = cache" "out = None"
  | (read) forwards e where "answer = Some forwards" "e = \<lparr>ee_ppm = fst (EarnedPPM forwards (since div 1000000000)),
        ee_volume = snd (EarnedPPM forwards (since div 1000000000)), ee_since = since, ee_at = now\<rparr>"
      "cache' = AList.update scid e cache" "out = Some (EarnedPPM forwards (since div 1000000000))"
proof -
  define held where "held = (case map_of cache scid of
            None \<Rightarrow> None
          | Some e \<Rightarrow> if now - ee_at e < EARN_CACHE_TTL \<and> \<bar>ee_since e - since\<bar> < EARN_CACHE_TTL then Some e else None)"
  have out: "Earned answer now scid since cache = (case (held, answer) of
        (Some e, _) \<Rightarrow> (cache, Some (ee_ppm e, ee_volume e))
      | (None, None) \<Rightarrow> (cache, None)
      | (None, Some forwards) \<Rightarrow>
          let (earned, volume) = EarnedPPM forwards (since div 1000000000) in
          (AList.update scid \<lparr>ee_ppm = earned, ee_volume = volume, ee_since = since, ee_at = now\<rparr> cache,
           Some (earned, volume)))"
    unfolding Earned_def held_def Let_def ..
  show thesis
  proof (cases held)
    case (Some e)
    then show thesis
      using assms out by (intro kept [of e]) (auto simp: held_def split: option.splits if_splits)
  next
    case None
    show thesis
    proof (cases answer)
      case (Some forwards)
      with None assms out show thesis by (intro read [of forwards]) (auto simp: Let_def split: prod.splits)
    qed (use None assms out in \<open>auto intro: failed\<close>)
  qed
qed

lemma earned_cache_read: "map_of (earned_calls past) scid = Some e \<Longrightarrow> read_by past scid e"
proof (induction past arbitrary: e rule: rev_induct)
  case Nil
  then show ?case by (simp add: earned_calls_def)
next
  case (snoc call past)
  obtain answer now i since where call: "call = (answer, now, i, since)" by (cases call)
  obtain cache' out where step: "Earned answer now i since (earned_calls past) = (cache', out)" by fastforce
  have after: "earned_calls (past @ [call]) = cache'" using step by (simp add: earned_calls_def call)
  from step show ?case
  proof (cases rule: Earned_cases)
    case (read forwards e')
    then show ?thesis
      using snoc after call read_by_mono [of past scid e "[call]"]
      by (cases "i = scid") (auto simp: read_by_def update_conv')
  qed (use snoc after read_by_mono [of past scid e "[call]"] in auto)
qed

text \<open>
C31
What a channel is said to have earned is always what its settled forwards add up to, as lightningd
listed them less than ten minutes ago, in answer to this call or to an earlier one about the same
channel, for a period that started less than ten minutes before or after the one asked for.
\<close>
theorem earned_is_recent:
  assumes "snd (Earned answer now scid since (earned_calls past)) = Some earned"
  shows "\<exists>forwards read since'. (Some forwards, read, scid, since') \<in> set (past @ [(answer, now, scid, since)])
    \<and> now - read < EARN_CACHE_TTL \<and> \<bar>since' - since\<bar> < EARN_CACHE_TTL
    \<and> earned = EarnedPPM forwards (since' div 1000000000)"
proof -
  obtain cache' where step: "Earned answer now scid since (earned_calls past) = (cache', Some earned)"
    using assms by (metis prod.collapse)
  from step show ?thesis
  proof (cases rule: Earned_cases)
    case (kept e)
    from earned_cache_read [OF kept(1)] obtain forwards where
      "(Some forwards, ee_at e, scid, ee_since e) \<in> set past" "EarnedPPM forwards (ee_since e div 1000000000) = earned"
      using kept(5) by (auto simp: read_by_def)
    with kept(2,3) show ?thesis by (intro exI [of _ forwards] exI [of _ "ee_at e"] exI [of _ "ee_since e"]) auto
  next
    case (read forwards e)
    then show ?thesis
      by (intro exI [of _ forwards] exI [of _ now] exI [of _ since]) (simp add: EARN_CACHE_TTL_def Minute_def)
  qed simp
qed

definition sample_forwards :: "Forwarding list" where
  "sample_forwards = [\<lparr>fw_Status = ''settled'', ResolvedTime = 0, ReceivedTime = 5000, fw_FeeMsat = 3000, fw_OutMsat = 20000000\<rparr>,
     \<lparr>fw_Status = ''failed'', ResolvedTime = 6000, ReceivedTime = 5500, fw_FeeMsat = 9000, fw_OutMsat = 30000000\<rparr>]"

definition sample_calls :: "earned_call list" where
  "sample_calls = [(Some sample_forwards, 7000000000000, ''1x1x1'', 4000000000000)]"

theorem earned_is_recent_witness:
  "\<exists>forwards read since'. (Some forwards, read, ''1x1x1'', since')
      \<in> set (sample_calls @ [(None, 7500000000000, ''1x1x1'', 4500000000000)])
    \<and> 7500000000000 - read < EARN_CACHE_TTL \<and> \<bar>since' - 4500000000000\<bar> < EARN_CACHE_TTL
    \<and> (150, 20000000) = EarnedPPM forwards (since' div 1000000000)"
  by (rule earned_is_recent) code_simp

section \<open>Reports\<close>

text \<open>circular-candidates shows the best ranked of all that are asked for, those failing just now last.\<close>

lemma shown_candidates_complete:
  "mset (shown_candidates now n scid) = mset (filter (\<lambda>i. scid = '''' \<or> fst (cut_slash i) = scid) (map fst (candidateList n)))"
  by (simp add: shown_candidates_def RankCandidates_sort)

lemma views_shown:
  assumes "candidateViews now n scid limit = r"
  shows "cr_Count r = length (shown_candidates now n scid)"
    "map cv_Scid (cr_Candidates r) = map (fst \<circ> cut_slash) (take (length (cr_Candidates r)) (shown_candidates now n scid))"
    "int (length (cr_Candidates r)) = min (if limit \<le> 0 then 50 else limit) (int (cr_Count r))"
  using assms
  by (auto simp: candidateViews_def Let_def candidate_view_def min_def split: prod.splits)

text \<open>circular-nodes shows the worst of them, worst first.\<close>

lemma nodes_shown:
  assumes "rememberedNodes mpow now memory limit n = (n', r)"
  shows "sorted_wrt (\<lambda>a b. rn_Score a > rn_Score b \<or> rn_Score a = rn_Score b \<and> rn_NodeId a \<le> rn_NodeId b) (nr_Nodes r)"
    "int (length (nr_Nodes r)) = min (if limit \<le> 0 then 20 else limit) (int (nr_Count r))"
    "nr_Count r = length (snd (NodeScores mpow now (node_Graph n)))"
proof -
  let ?key = "\<lambda>r. (- rn_Score r, rn_NodeId r)"
  obtain g scores where scores: "NodeScores mpow now (node_Graph n) = (g, scores)" by fastforce
  define nodes where "nodes = sort_key ?key (map (remembered_node g (node_RiskPPM n)) scores)"
  define bound where "bound = (if limit \<le> 0 then 20 else limit)"
  have shown: "nr_Nodes r = (if int (length nodes) > bound then take (nat bound) nodes else nodes)" "nr_Count r = length scores"
    using assms by (auto simp: rememberedNodes_def Let_def scores nodes_def bound_def)
  have len: "length nodes = length scores" by (simp add: nodes_def)
  have ordered: "sorted_wrt (\<lambda>a b. rn_Score a > rn_Score b \<or> rn_Score a = rn_Score b \<and> rn_NodeId a \<le> rn_NodeId b) nodes"
  proof (rule sorted_wrt_mono_rel [of _ "\<lambda>a b. ?key a \<le> ?key b"])
    show "sorted_wrt (\<lambda>a b. ?key a \<le> ?key b) nodes"
      unfolding nodes_def using sorted_sort_key [of ?key] by (simp add: sorted_map)
  qed (auto simp: less_eq_prod_def)
  show "sorted_wrt (\<lambda>a b. rn_Score a > rn_Score b \<or> rn_Score a = rn_Score b \<and> rn_NodeId a \<le> rn_NodeId b) (nr_Nodes r)"
    using ordered by (simp add: shown sorted_wrt_take)
  show "int (length (nr_Nodes r)) = min (if limit \<le> 0 then 20 else limit) (int (nr_Count r))"
    unfolding bound_def [symmetric] by (auto simp: shown len bound_def)
  show "nr_Count r = length (snd (NodeScores mpow now (node_Graph n)))" by (simp add: shown scores)
qed

end
