(* ===== verification/Methods.thy ===== *)
theory Methods
  imports Quotes ParallelClaims
begin

text \<open>
  The methods that circular-pull (\<^verbatim>\<open>rebalance/parallel/pull.go\<close>) and circular-push (\<^verbatim>\<open>push.go\<close>) each give to
  what they share, one by one, as their own file has them, and that the shared definitions, which
  choose by the kind of the run, are these; the contract that both keep with whoever asks which
  channels can be used and how much room they have; and the two commands from their call on.
\<close>

section \<open>circular-pull\<close>

definition pull_GetCandidateDirection :: "node_id \<Rightarrow> Par \<Rightarrow> string" where
  "pull_GetCandidateDirection i p = GetDirection (node_Id (p_Node p)) i"

definition pull_Fire :: "penv \<Rightarrow> Channel \<Rightarrow> u64 \<Rightarrow> Par \<Rightarrow> Par" where
  "pull_Fire pe candidate a p = launch pe candidate (Target p) candidate a p"

definition pull_validateParameters :: "Par \<Rightarrow> checked" where
  "pull_validateParameters p =
     (case validateGenericParameters p of
        Accepted \<Rightarrow>
          if DepleteUpToPercent p > 1 \<or> DepleteUpToPercent p < 0 then Refused ErrDepleteUpToPercentInvalid else Accepted
      | refused \<Rightarrow> refused)"

definition pull_AddSuccess :: "Result \<Rightarrow> Par \<Rightarrow> Par" where
  "pull_AddSuccess res p =
     (let scid = (case res_Route res of
                    Some route \<Rightarrow> if pr_Hops route \<noteq> [] then ph_ShortChannelId (hd (pr_Hops route)) else ''''
                  | None \<Rightarrow> '''') in
      addInvolving scid (Out res) (res_Route res) (AddSuccessGeneric scid (Out res) (res_PPM res) (res_Amount res) p))"

definition pull_EnqueueCandidate :: "int \<Rightarrow> Result \<Rightarrow> Par \<Rightarrow> Par" where
  "pull_EnqueueCandidate now res p =
     (let scid = ph_ShortChannelId (hd (pr_Hops (the (res_Route res)))) in
      case GetOutgoingChannelFromScid now (p_Node p) scid of
        Inl e \<Rightarrow> leftQueue (Candidate res) (goneSkipped e) p
      | Inr candidate \<Rightarrow> p\<lparr>routes := (routes p)(scid \<mapsto> res_Channels res), Queue := candidate # Queue p\<rparr>)"

definition pull_prepare :: "penv \<Rightarrow> ParCall \<Rightarrow> Node \<Rightarrow> prepare_error + Par" where
  "pull_prepare pe k n =
     (let now = pe_now pe 0 in
      if k_scid k = '''' then Inl (PrepareError ErrNoRequiredParameter)
      else
        (case Init (new_run k n) of
           None \<Rightarrow> Inl CallPanics
         | Some p \<Rightarrow>
             let p = setMaxTime (k_MaxTime k) p;
                 p = setMaxFee (k_MaxFee k) p;
                 p = setFeeRatio now (k_FeeRatio k) p;
                 p = setRetryEvery (k_RetryEvery k) p;
                 p = (if CandidatesList p \<noteq> None then p\<lparr>MaxOutPPM := 2 ^ 63\<rparr> else p);
                 p = pull_setDefaults p in
             (case setStepping (k_StepPPM k) (k_CapPPM k) (k_Probe k) p of
                None \<Rightarrow> Inl NeedsCapPPM
              | Some p \<Rightarrow>
                  let p = setMaxIdleRounds (k_MaxIdleRounds k) p;
                      p = setProbeFailStreak (k_ProbeFailStreak k) p in
                  (case pull_validateParameters p of
                     Panics \<Rightarrow> Inl CallPanics
                   | Refused e \<Rightarrow> Inl (PrepareError e)
                   | Accepted \<Rightarrow>
                       (case GetIncomingChannelFromScid now (p_Node p) (k_scid k) of
                          Inl e \<Rightarrow> Inl (PrepareError e)
                        | Inr incoming \<Rightarrow>
                            (case FindCandidates now (Source incoming)
                                    (p\<lparr>Target := incoming, excludePeer := Source incoming\<rparr>) of
                               (p, Some e) \<Rightarrow> Inl (PrepareError e)
                             | (p, None) \<Rightarrow> Inr (prefetchEarnings pe p)))))))"

section \<open>circular-push\<close>

definition push_GetCandidateDirection :: "node_id \<Rightarrow> Par \<Rightarrow> string" where
  "push_GetCandidateDirection i p = GetDirection i (node_Id (p_Node p))"

definition push_Fire :: "penv \<Rightarrow> Channel \<Rightarrow> u64 \<Rightarrow> Par \<Rightarrow> Par" where
  "push_Fire pe candidate a p = launch pe (Target p) candidate candidate a p"

definition push_validateParameters :: "Par \<Rightarrow> checked" where
  "push_validateParameters p =
     (case validateGenericParameters p of
        Accepted \<Rightarrow>
          if FillUpToPercent p > 1 \<or> FillUpToPercent p < 0 then Refused ErrDepleteUpToPercentInvalid else Accepted
      | refused \<Rightarrow> refused)"

definition push_AddSuccess :: "Result \<Rightarrow> Par \<Rightarrow> Par" where
  "push_AddSuccess res p =
     (let scid = (case res_Route res of
                    Some route \<Rightarrow> if pr_Hops route \<noteq> [] then ph_ShortChannelId (last (pr_Hops route)) else ''''
                  | None \<Rightarrow> '''') in
      addInvolving scid (In res) (res_Route res) (AddSuccessGeneric scid (In res) (res_PPM res) (res_Amount res) p))"

definition push_EnqueueCandidate :: "int \<Rightarrow> Result \<Rightarrow> Par \<Rightarrow> Par" where
  "push_EnqueueCandidate now res p =
     (let scid = ph_ShortChannelId (last (pr_Hops (the (res_Route res)))) in
      case GetIncomingChannelFromScid now (p_Node p) scid of
        Inl e \<Rightarrow> leftQueue (Candidate res) (goneSkipped e) p
      | Inr candidate \<Rightarrow> p\<lparr>routes := (routes p)(scid \<mapsto> res_Channels res), Queue := candidate # Queue p\<rparr>)"

definition push_prepare :: "penv \<Rightarrow> ParCall \<Rightarrow> Node \<Rightarrow> prepare_error + Par" where
  "push_prepare pe k n =
     (let now = pe_now pe 0 in
      if k_scid k = '''' then Inl (PrepareError ErrNoRequiredParameter)
      else
        (case Init (new_run k n) of
           None \<Rightarrow> Inl CallPanics
         | Some p \<Rightarrow>
             let p = setMaxTime (k_MaxTime k) p;
                 p = setMaxFee (k_MaxFee k) p;
                 p = setFeeRatio now (k_FeeRatio k) p;
                 p = setRetryEvery (k_RetryEvery k) p;
                 p = (if CandidatesList p \<noteq> None then p\<lparr>MinOutPPM := 0\<rparr> else p);
                 p = push_setDefaults p in
             (case setStepping (k_StepPPM k) (k_CapPPM k) (k_Probe k) p of
                None \<Rightarrow> Inl NeedsCapPPM
              | Some p \<Rightarrow>
                  let p = setMaxIdleRounds (k_MaxIdleRounds k) p;
                      p = setProbeFailStreak (k_ProbeFailStreak k) p in
                  (case push_validateParameters p of
                     Panics \<Rightarrow> Inl CallPanics
                   | Refused e \<Rightarrow> Inl (PrepareError e)
                   | Accepted \<Rightarrow>
                       (case GetOutgoingChannelFromScid now (p_Node p) (k_scid k) of
                          Inl e \<Rightarrow> Inl (PrepareError e)
                        | Inr outgoing \<Rightarrow>
                            (case FindCandidates now (Destination outgoing)
                                    (p\<lparr>Target := outgoing, excludePeer := Destination outgoing\<rparr>) of
                               (p, Some e) \<Rightarrow> Inl (PrepareError e)
                             | (p, None) \<Rightarrow> Inr (prefetchEarnings pe p)))))))"

section \<open>The calls\<close>

text \<open>
  \<^verbatim>\<open>Call\<close> up to the loop of \<^verbatim>\<open>WaitForResult\<close>, with the list of runs; \<^const>\<open>endRun\<close> and
  \<^const>\<open>endRun_entry\<close> are what it ends with.
\<close>

definition pull_Call :: "penv \<Rightarrow> ParCall \<Rightarrow> Node \<Rightarrow> RunEntry list \<Rightarrow> prepare_error + Par \<times> RunEntry list" where
  "pull_Call pe k n runs =
     (case pull_prepare pe k n of
        Inl e \<Rightarrow> Inl e
      | Inr p \<Rightarrow> Inr (start_wait pe p, startRun Pull (k_scid k) (k_Amount k) (k_MaxPPM k) (pe_now pe 0) runs))"

definition push_Call :: "penv \<Rightarrow> ParCall \<Rightarrow> Node \<Rightarrow> RunEntry list \<Rightarrow> prepare_error + Par \<times> RunEntry list" where
  "push_Call pe k n runs =
     (case push_prepare pe k n of
        Inl e \<Rightarrow> Inl e
      | Inr p \<Rightarrow> Inr (start_wait pe p, startRun Push (k_scid k) (k_Amount k) (k_MaxPPM k) (pe_now pe 0) runs))"

section \<open>The shared definitions are these\<close>

lemma kind_setters [simp]:
  "kind (setGenericDefaults p) = kind p" "kind (setMaxTime i p) = kind p" "kind (setMaxFee i p) = kind p"
  "kind (setFeeRatio now ratio p) = kind p" "kind (setRetryEvery i p) = kind p" "kind (pull_setDefaults p) = kind p"
  "kind (push_setDefaults p) = kind p" "kind (setMaxIdleRounds i p) = kind p" "kind (setProbeFailStreak i p) = kind p"
  by (simp_all add: setGenericDefaults_def setMaxTime_def setMaxFee_def setFeeRatio_def setRetryEvery_def
      pull_setDefaults_def push_setDefaults_def setMaxIdleRounds_def setProbeFailStreak_def Let_def)

lemma kind_Init: "Init p = Some p' \<Longrightarrow> kind p' = kind p"
  by (auto simp: Init_def Let_def split: if_splits)

lemma kind_setStepping: "setStepping i j l p = Some p' \<Longrightarrow> kind p' = kind p"
  by (auto simp: setStepping_def Let_def split: if_splits)

lemma kind_new_run [simp]: "kind (new_run k n) = k_kind k" by (simp add: new_run_def)

lemma pull_methods:
  assumes "kind p = Pull"
  shows "Fire pe c a p = pull_Fire pe c a p" "CanUseChannel p ch = pull_CanUseChannel p ch" "quote_room p ch = pull_room p ch"
    "IsGoodCandidate now ch p = (p, pull_IsGoodCandidate now ch p)" "GetCandidateDirection i p = pull_GetCandidateDirection i p"
    "validateParameters p = pull_validateParameters p" "AddSuccess res p = pull_AddSuccess res p"
    "EnqueueCandidate now res p = pull_EnqueueCandidate now res p"
  using assms
  by (simp_all add: Fire_def pull_Fire_def CanUseChannel_def quote_room_def IsGoodCandidate_def GetCandidateDirection_def
      pull_GetCandidateDirection_def validateParameters_def pull_validateParameters_def AddSuccess_def pull_AddSuccess_def
      EnqueueCandidate_def pull_EnqueueCandidate_def moved_hop_def Let_def split: checked.split option.split)

lemma push_methods:
  assumes "kind p = Push"
  shows "Fire pe c a p = push_Fire pe c a p" "CanUseChannel p ch = push_CanUseChannel p ch" "quote_room p ch = push_room p ch"
    "IsGoodCandidate now ch p = push_IsGoodCandidate now ch p" "GetCandidateDirection i p = push_GetCandidateDirection i p"
    "validateParameters p = push_validateParameters p" "AddSuccess res p = push_AddSuccess res p"
    "EnqueueCandidate now res p = push_EnqueueCandidate now res p"
  using assms
  by (simp_all add: Fire_def push_Fire_def CanUseChannel_def quote_room_def IsGoodCandidate_def GetCandidateDirection_def
      push_GetCandidateDirection_def validateParameters_def push_validateParameters_def AddSuccess_def push_AddSuccess_def
      EnqueueCandidate_def push_EnqueueCandidate_def moved_hop_def Let_def split: checked.split option.split)

lemma kind_set_parameters [simp]: "kind (set_parameters now k p) = kind p"
  by (simp add: set_parameters_def Let_def split: kind.split)

lemma kind_stepped:
  assumes "Init (new_run k n) = Some p" "setStepping i j l (set_parameters now k p) = Some p'"
  shows "kind (setProbeFailStreak x (setMaxIdleRounds y p')) = k_kind k"
  using kind_Init [OF assms(1)] kind_setStepping [OF assms(2)] by simp

lemma pull_parameters:
  "kind p = Pull \<Longrightarrow> set_parameters now k p =
    (let p = setMaxTime (k_MaxTime k) p; p = setMaxFee (k_MaxFee k) p; p = setFeeRatio now (k_FeeRatio k) p;
         p = setRetryEvery (k_RetryEvery k) p; p = (if CandidatesList p \<noteq> None then p\<lparr>MaxOutPPM := 2 ^ 63\<rparr> else p) in
     pull_setDefaults p)"
  by (simp add: set_parameters_def Let_def)

lemma push_parameters:
  "kind p = Push \<Longrightarrow> set_parameters now k p =
    (let p = setMaxTime (k_MaxTime k) p; p = setMaxFee (k_MaxFee k) p; p = setFeeRatio now (k_FeeRatio k) p;
         p = setRetryEvery (k_RetryEvery k) p; p = (if CandidatesList p \<noteq> None then p\<lparr>MinOutPPM := 0\<rparr> else p) in
     push_setDefaults p)"
  by (simp add: set_parameters_def Let_def)

lemma pull_prepare_shared:
  assumes "Init (new_run k n) = Some p" "kind p = Pull"
  shows "pull_prepare pe k n =
    (if k_scid k = '''' then Inl (PrepareError ErrNoRequiredParameter)
     else case setStepping (k_StepPPM k) (k_CapPPM k) (k_Probe k) (set_parameters (pe_now pe 0) k p) of
        None \<Rightarrow> Inl NeedsCapPPM
      | Some p \<Rightarrow>
          let p = setProbeFailStreak (k_ProbeFailStreak k) (setMaxIdleRounds (k_MaxIdleRounds k) p) in
          (case pull_validateParameters p of
             Panics \<Rightarrow> Inl CallPanics
           | Refused e \<Rightarrow> Inl (PrepareError e)
           | Accepted \<Rightarrow>
               (case GetIncomingChannelFromScid (pe_now pe 0) (p_Node p) (k_scid k) of
                  Inl e \<Rightarrow> Inl (PrepareError e)
                | Inr incoming \<Rightarrow>
                    (case FindCandidates (pe_now pe 0) (Source incoming) (p\<lparr>Target := incoming, excludePeer := Source incoming\<rparr>) of
                       (p, Some e) \<Rightarrow> Inl (PrepareError e)
                     | (p, None) \<Rightarrow> Inr (prefetchEarnings pe p)))))"
  unfolding pull_prepare_def pull_parameters [OF assms(2)] assms(1) option.case Let_def ..

lemma push_prepare_shared:
  assumes "Init (new_run k n) = Some p" "kind p = Push"
  shows "push_prepare pe k n =
    (if k_scid k = '''' then Inl (PrepareError ErrNoRequiredParameter)
     else case setStepping (k_StepPPM k) (k_CapPPM k) (k_Probe k) (set_parameters (pe_now pe 0) k p) of
        None \<Rightarrow> Inl NeedsCapPPM
      | Some p \<Rightarrow>
          let p = setProbeFailStreak (k_ProbeFailStreak k) (setMaxIdleRounds (k_MaxIdleRounds k) p) in
          (case push_validateParameters p of
             Panics \<Rightarrow> Inl CallPanics
           | Refused e \<Rightarrow> Inl (PrepareError e)
           | Accepted \<Rightarrow>
               (case GetOutgoingChannelFromScid (pe_now pe 0) (p_Node p) (k_scid k) of
                  Inl e \<Rightarrow> Inl (PrepareError e)
                | Inr outgoing \<Rightarrow>
                    (case FindCandidates (pe_now pe 0) (Destination outgoing)
                            (p\<lparr>Target := outgoing, excludePeer := Destination outgoing\<rparr>) of
                       (p, Some e) \<Rightarrow> Inl (PrepareError e)
                     | (p, None) \<Rightarrow> Inr (prefetchEarnings pe p)))))"
  unfolding push_prepare_def push_parameters [OF assms(2)] assms(1) option.case Let_def ..

lemma prepare_methods:
  "prepare_run pe k n = (case k_kind k of Pull \<Rightarrow> pull_prepare pe k n | Push \<Rightarrow> push_prepare pe k n)"
proof (cases "Init (new_run k n)")
  case None
  then show ?thesis by (simp add: prepare_run_def pull_prepare_def push_prepare_def Let_def split: kind.split)
next
  case (Some p)
  note init = this and kind = kind_Init [OF this]
  show ?thesis
  proof (cases "k_kind k")
    case Pull
    with kind have p: "kind p = Pull" by simp
    show ?thesis
      using kind_stepped [OF init, of "k_StepPPM k" "k_CapPPM k" "k_Probe k" "pe_now pe 0"] Pull
      by (simp add: prepare_run_def pull_prepare_shared [OF init p] init pull_methods find_target_def Let_def
          split: option.split checked.split sum.split)
  next
    case Push
    with kind have p: "kind p = Push" by simp
    show ?thesis
      using kind_stepped [OF init, of "k_StepPPM k" "k_CapPPM k" "k_Probe k" "pe_now pe 0"] Push
      by (simp add: prepare_run_def push_prepare_shared [OF init p] init push_methods find_target_def Let_def
          split: option.split checked.split sum.split)
  qed
qed

section \<open>What can be used has room\<close>

text \<open>
  The contract of the two methods with who fires splits and who quotes them: \<open>bal\<close> is the balance
  that a split takes from, \<open>keep\<close> what must stay of it, \<open>need\<close> what one split takes.
\<close>

locale candidate_channels =
  fixes can_use :: "Par \<Rightarrow> PeerChannel \<Rightarrow> util_error option"
    and room :: "Par \<Rightarrow> PeerChannel \<Rightarrow> u64"
    and bal :: "Par \<Rightarrow> PeerChannel \<Rightarrow> u64"
    and keep :: "Par \<Rightarrow> PeerChannel \<Rightarrow> u64"
    and need :: "Par \<Rightarrow> u64"
  assumes usable: "can_use p ch = None \<Longrightarrow> addSaturating_parallel (keep p ch) (need p) \<le> bal p ch
        \<and> State ch = NORMAL \<and> IsPeerConnected (p_Node p) ch"
    and room: "room p ch = wholeSplits (subSaturating (bal p ch) (keep p ch)) (splitAmount p) (need p)"
    and need: "splitAmount p \<le> need p"
begin

lemma keeps:
  assumes "can_use p ch = None" "bal p ch \<noteq> MaxUint64"
  shows "unat (keep p ch) + unat (need p) \<le> unat (bal p ch)"
proof -
  have "unat (bal p ch) < 18446744073709551615" using assms(2) by (simp add: u64_neq_Max_iff)
  then show ?thesis using usable [OF assms(1)] by (simp add: unat_specs min_def split: if_splits)
qed

text \<open>A room shown is a whole number of splits, which fit between the balance and what must stay.\<close>

lemma room_exact:
  assumes "splitAmount p \<noteq> 0"
  shows "unat (room p ch) = (unat (bal p ch) - unat (keep p ch)) div unat (need p) * unat (splitAmount p)"
proof -
  have "need p \<noteq> 0" using need [of p] assms by (auto simp: unat_specs unsigned_eq_0_iff)
  have "(unat (bal p ch) - unat (keep p ch)) div unat (need p) * unat (splitAmount p)
      \<le> (unat (bal p ch) - unat (keep p ch)) div unat (need p) * unat (need p)"
    using need [of p] by (simp add: unat_specs)
  also have "\<dots> \<le> unat (bal p ch)" using div_times_less_eq_dividend [of "unat (bal p ch) - unat (keep p ch)" "unat (need p)"] by linarith
  finally have "(unat (bal p ch) - unat (keep p ch)) div unat (need p) * unat (splitAmount p) < 2 ^ 64"
    using order_le_less_trans [OF _ unat_u64_lt] by simp
  moreover have "unat (quote * splitAmount p) = unat quote * unat (splitAmount p)"
    if "unat quote * unat (splitAmount p) < 2 ^ 64" for quote
    using that by (simp add: unat_word_ariths)
  ultimately show ?thesis
    using assms \<open>need p \<noteq> 0\<close> by (simp add: room wholeSplits_def unat_div unat_subSaturating)
qed

lemma has_room:
  assumes "can_use p ch = None" "bal p ch \<noteq> MaxUint64" "splitAmount p \<noteq> 0"
  shows "splitAmount p \<le> room p ch"
proof -
  have "0 < unat (need p)" using need [of p] assms(3) by (auto simp: unat_specs unat_gt_0 unsigned_eq_0_iff)
  moreover have "unat (need p) \<le> unat (bal p ch) - unat (keep p ch)" using keeps [OF assms(1,2)] by linarith
  ultimately have "1 \<le> (unat (bal p ch) - unat (keep p ch)) div unat (need p)"
    by (metis One_nat_def Suc_leI div_greater_zero_iff)
  then show ?thesis by (simp add: u64_le_iff room_exact [OF assms(3)])
qed

end

interpretation pull: candidate_channels pull_CanUseChannel pull_room "\<lambda>_. localBalance" depleteAmount
  "\<lambda>p. addSaturating_parallel (splitAmount p) (MaxFeeForPPM (splitAmount p) (maxPPM p))"
  by unfold_locales
    (auto simp: pull_CanUseChannel_def pull_room_def Let_def addSaturating_agree addSaturating_ge not_less split: if_splits)

interpretation push: candidate_channels push_CanUseChannel push_room "\<lambda>_. remoteBalance" fillAmount splitAmount
  by unfold_locales (auto simp: push_CanUseChannel_def push_room_def not_less split: if_splits)

text \<open>The contract of whichever command a run is of.\<close>

definition balance_of :: "Par \<Rightarrow> PeerChannel \<Rightarrow> u64" where
  "balance_of p ch = (case kind p of Pull \<Rightarrow> localBalance ch | Push \<Rightarrow> remoteBalance ch)"

definition must_stay :: "Par \<Rightarrow> PeerChannel \<Rightarrow> u64" where
  "must_stay p ch = (case kind p of Pull \<Rightarrow> depleteAmount p ch | Push \<Rightarrow> fillAmount p ch)"

definition one_split :: "Par \<Rightarrow> u64" where
  "one_split p = (case kind p of Pull \<Rightarrow> addSaturating_parallel (splitAmount p) (MaxFeeForPPM (splitAmount p) (maxPPM p))
                               | Push \<Rightarrow> splitAmount p)"

lemmas of_kind = CanUseChannel_def quote_room_def balance_of_def must_stay_def one_split_def

interpretation run: candidate_channels CanUseChannel quote_room balance_of must_stay one_split
proof unfold_locales
  fix p ch
  show "CanUseChannel p ch = None \<Longrightarrow> addSaturating_parallel (must_stay p ch) (one_split p) \<le> balance_of p ch
      \<and> State ch = NORMAL \<and> IsPeerConnected (p_Node p) ch"
    by (cases "kind p") (simp_all add: of_kind pull.usable push.usable)
  show "quote_room p ch = wholeSplits (subSaturating (balance_of p ch) (must_stay p ch)) (splitAmount p) (one_split p)"
    by (cases "kind p") (simp_all add: of_kind pull.room push.room)
  show "splitAmount p \<le> one_split p" by (cases "kind p") (simp_all add: of_kind pull.need)
qed

text \<open>All that this depends on, which firing leaves alone.\<close>

definition usage :: "Par \<Rightarrow> (kind \<times> Node \<times> u64 \<times> u64) \<times> (rat \<times> u64) \<times> (rat \<times> u64)" where
  "usage p = ((kind p, p_Node p, splitAmount p, maxPPM p), (DepleteUpToPercent p, DepleteUpToAmount p),
     (FillUpToPercent p, FillUpToAmount p))"

interpretation usage_view: bystander usage
  by unfold_locales (simp_all add: usage_def)

lemma usage_decides:
  assumes "usage p = usage q"
  shows "CanUseChannel p = CanUseChannel q" "balance_of p = balance_of q" "must_stay p = must_stay q" "one_split p = one_split q"
    "splitAmount p = splitAmount q" "p_Node p = p_Node q"
  using assms
  by (auto simp: usage_def of_kind pull_CanUseChannel_def push_CanUseChannel_def depleteAmount_def fillAmount_def fun_eq_iff
      split: kind.split)

lemma next_candidate_usable:
  "next_candidate pe cs p = (p', Some c) \<Longrightarrow>
    \<exists>ch. GetPeerChannelFromGraphChannel (p_Node p) c = Inr ch \<and> CanUseChannel p ch = None"
proof (induction cs arbitrary: p)
  case (Cons d cs)
  have same: "usage (p\<lparr>Queue := cs\<rparr>) = usage p" by simp
  have left: "usage (leftQueue i why q) = usage q" for i why q by (simp add: leftQueue_def)
  have worth: "usage (fst (notWorth pe q d)) = usage q" for q
    by (simp add: notWorth_def Let_def split_beta usage_view.splitEconomics)
  have tail: ?case if "next_candidate pe cs q = (p', Some c)" "usage q = usage p" for q
    using Cons.IH [OF that(1)] usage_decides [OF that(2)] by simp
  show ?case
  proof (cases "GetPeerChannelFromGraphChannel (p_Node p) d")
    case (Inl e)
    with Cons.prems show ?thesis
      by (intro tail [of "leftQueue (candidateId d) (goneSkipped e) (p\<lparr>Queue := cs\<rparr>)"]) (auto simp: left Let_def)
  next
    case (Inr ch)
    note usable = usage_decides(1) [OF same]
    show ?thesis
    proof (cases "CanUseChannel p ch")
      case (Some e)
      with Inr Cons.prems show ?thesis
        by (intro tail [of "leftQueue (candidateId d) (goneSkipped e) (p\<lparr>Queue := cs\<rparr>)"]) (auto simp: left usable Let_def)
    next
      case None
      obtain q skip where w: "notWorth pe (p\<lparr>Queue := cs\<rparr>) d = (q, skip)" by fastforce
      have q: "usage q = usage p" using worth [of "p\<lparr>Queue := cs\<rparr>"] w by simp
      show ?thesis
      proof (cases skip)
        case True
        with Inr None w q Cons.prems show ?thesis
          by (intro tail [of "(leftQueue (candidateId d) notWorthIt q)\<lparr>feeratioSkipped :=
                List.insert (candidateId d) (feeratioSkipped (leftQueue (candidateId d) notWorthIt q))\<rparr>"])
            (auto simp: left usable Let_def)
      next
        case False
        with Inr None w Cons.prems show ?thesis by (auto simp: usable Let_def)
      qed
    qed
  qed
qed simp

text \<open>What a split in flight was fired at.\<close>

definition fired_at :: "Par \<Rightarrow> channel_id \<times> u64 \<times> Rebalance \<Rightarrow> bool" where
  "fired_at p = (\<lambda>(i, a, r). a \<le> splitAmount p \<and>
     (\<exists>c ch. i = candidateId c \<and> GetPeerChannelFromGraphChannel (p_Node p) c = Inr ch \<and> State ch = NORMAL
        \<and> IsPeerConnected (p_Node p) ch
        \<and> (balance_of p ch = MaxUint64 \<or> unat (must_stay p ch) + unat (one_split p) \<le> unat (balance_of p ch))))"

lemma fired_at_usage: "usage p = usage q \<Longrightarrow> fired_at p = fired_at q"
  unfolding fired_at_def using usage_decides [of p q] by simp

lemma fire_once_fired_at:
  assumes "fire_once pe p = (q, fired)"
  shows "\<exists>new. flights q = flights p @ new \<and> list_all (fired_at p) new"
proof (cases fired)
  case False
  then show ?thesis using fire_once_account(2) [OF assms] by (auto simp: account_def)
next
  case True
  let ?a = "split_size p"
  have small: "?a \<le> splitAmount p" by (auto simp: split_size_def Let_def)
  obtain p1 c where found: "GetNextCandidate pe p = (p1, Some c)"
    using assms True by (auto simp: fire_once_def Let_def split: if_splits option.splits prod.splits)
  let ?q = "reserveFee ?a ((noteFired pe c p1)\<lparr>heldByStop := False\<rparr>)"
  obtain r where "account (Fire pe c ?a ?q) = fired_account (candidateId c) ?a r (account ?q)"
    using Fire_frame(2) by blast
  moreover have "flights ?q = flights p"
    using GetNextCandidate_frame(2) [of pe p] noteFired_frame(2) [of pe c p1] found
    by (simp add: account_def reserveFee_def)
  moreover have "flights q = flights (Fire pe c ?a ?q)"
    using assms True found by (auto simp: fire_once_def Let_def split: if_splits)
  ultimately have "flights q = flights p @ [(candidateId c, ?a, r)]" by (simp add: account_def fired_account_def)
  moreover obtain ch where "GetPeerChannelFromGraphChannel (p_Node p) c = Inr ch" "CanUseChannel p ch = None"
    using next_candidate_usable found unfolding GetNextCandidate_def by blast
  ultimately show ?thesis
    using small run.usable [of p ch] run.keeps [of p ch] by (auto simp: fired_at_def)
qed

text \<open>
C14
circular-pull and circular-push leave every channel what it must keep. Whatever the candidates, each
split that firing adds is of at most the split amount, over a channel of ours in normal state to a
connected peer, whose balance (ours for pull, the peer's for push, less what is in flight on it) had
room for what the run must leave (the deplete or fill threshold) and for a whole split with, for pull,
its fee at the highest rate the run pays.
\<close>
theorem firing_keeps_the_thresholds:
  "\<exists>new. flights (FireCandidates pe p) = flights p @ new \<and> list_all (fired_at p) new"
proof -
  let ?kept = "\<lambda>q. usage q = usage p \<and> (\<exists>new. flights q = flights p @ new \<and> list_all (fired_at p) new)"
  have "?kept (FireCandidates pe p)"
  proof (rule FireCandidates_keeps [where P = ?kept])
    show "?kept p" by (intro conjI exI [of _ "[]"]) simp_all
    fix q r fired
    assume kept: "?kept q" and once: "fire_once pe q = (r, fired)"
    obtain new where "flights r = flights q @ new" "list_all (fired_at q) new"
      using fire_once_fired_at [OF once] by blast
    with kept usage_view.fire_once [OF once] fired_at_usage [of q p] show "?kept r" by auto
  qed
  then show ?thesis by blast
qed

end
