(* ===== verification/RoundEnds.thy ===== *)
theory RoundEnds
  imports ParallelLimits RunEnds
begin

text \<open>
  A round of a run ends: only finitely many results arrive in it, whatever they say.  A success moves
  the run on; a failure leaves its candidate out, uses up its one retry or the one recheck of the
  target, lowers the limit on splits at once, or waits for the other splits.
\<close>

section \<open>What waits and what is in flight\<close>

definition load :: "(channel_id \<Rightarrow> nat) \<Rightarrow> Par \<Rightarrow> nat" where
  "load h p = (\<Sum>c\<leftarrow>Queue p. h (candidateId c)) + (\<Sum>(i, a, r)\<leftarrow>flights p. h i)"

text \<open>A candidate that is put back is the one that was launched under its id.\<close>

definition launched_ok :: "Par \<Rightarrow> bool" where
  "launched_ok p \<longleftrightarrow> (\<forall>i c. launched p i = Some c \<longrightarrow> candidateId c = i)"

definition asks_something :: "Par \<Rightarrow> bool" where
  "asks_something p \<longleftrightarrow> splitAmount p \<noteq> 0 \<and> (\<forall>(i, a, r) \<in> set (flights p). a \<noteq> 0)"

definition standing :: "Par \<Rightarrow> (channel_id set \<times> bool \<times> int) \<times> int \<times> u64 \<times> u64 \<times> u64" where
  "standing p = ((retried p, targetRechecked p, targetCap p), splits p, amount p, AmountRebalanced p, splitAmount p)"

interpretation standing_view: bystander standing
  by unfold_locales (simp_all add: standing_def)

lemma splitEconomics_launched [simp]:
  "launched (fst (splitEconomics pe p c)) = launched p" "Queue (fst (splitEconomics pe p c)) = Queue p"
  by (simp_all add: splitEconomics_def earns_def keepEarning_def Let_def split_beta split: option.split)

lemma notWorth_launched [simp]:
  "launched (fst (notWorth pe p c)) = launched p" "Queue (fst (notWorth pe p c)) = Queue p"
  by (simp_all add: notWorth_def Let_def split_beta)

lemma leftQueue_launched [simp]:
  "launched (leftQueue i why p) = launched p" "Queue (leftQueue i why p) = Queue p"
  by (simp_all add: leftQueue_def)

lemma noteStop_launched [simp]:
  "launched (noteStop why p) = launched p" "Queue (noteStop why p) = Queue p" "flights (noteStop why p) = flights p"
  by (simp_all add: noteStop_def Let_def)

lemma next_candidate_load:
  "next_candidate pe cs p = (q, found) \<Longrightarrow>
    launched q = launched p \<and>
    (\<Sum>c\<leftarrow>Queue q. h (candidateId c)) + (case found of None \<Rightarrow> 0 | Some c \<Rightarrow> h (candidateId c)) \<le> (\<Sum>c\<leftarrow>cs. h (candidateId c) :: nat)"
proof (induction cs arbitrary: p)
  case (Cons d cs)
  have tail: ?case if "next_candidate pe cs r = (q, found)" "launched r = launched p" for r
    using Cons.IH [OF that(1)] that(2) by simp
  show ?case
  proof (cases "GetPeerChannelFromGraphChannel (p_Node p) d")
    case (Inl e)
    with Cons.prems show ?thesis
      by (intro tail [of "leftQueue (candidateId d) (goneSkipped e) (p\<lparr>Queue := cs\<rparr>)"]) (auto simp: Let_def)
  next
    case (Inr ch)
    show ?thesis
    proof (cases "CanUseChannel (p\<lparr>Queue := cs\<rparr>) ch")
      case (Some e)
      with Inr Cons.prems show ?thesis
        by (intro tail [of "leftQueue (candidateId d) (goneSkipped e) (p\<lparr>Queue := cs\<rparr>)"]) (auto simp: Let_def)
    next
      case None
      obtain r skip where w: "notWorth pe (p\<lparr>Queue := cs\<rparr>) d = (r, skip)" by fastforce
      have r: "launched r = launched p" "Queue r = cs"
        using notWorth_launched [of pe "p\<lparr>Queue := cs\<rparr>" d] w by simp_all
      show ?thesis
      proof (cases skip)
        case True
        with Inr None w r Cons.prems show ?thesis
          by (intro tail [of "(leftQueue (candidateId d) notWorthIt r)\<lparr>feeratioSkipped :=
                List.insert (candidateId d) (feeratioSkipped (leftQueue (candidateId d) notWorthIt r))\<rparr>"])
            (auto simp: Let_def)
      next
        case False
        with Inr None w r Cons.prems show ?thesis by (auto simp: Let_def)
      qed
    qed
  qed
qed auto

lemma launch_fields:
  "launched (launch pe out inc c a p) = (launched p)(candidateId c \<mapsto> c)" "Queue (launch pe out inc c a p) = Queue p"
  by (simp_all add: launch_def newSplit_def Let_def split_beta)

lemma Fire_fields [simp]:
  "launched (Fire pe c a p) = (launched p)(candidateId c \<mapsto> c)" "Queue (Fire pe c a p) = Queue p"
  by (simp_all add: Fire_def launch_fields split: kind.split)

lemma note_fields [simp]:
  "launched (noteFired pe c p) = launched p" "Queue (noteFired pe c p) = Queue p"
  "launched (reserveFee a p) = launched p" "Queue (reserveFee a p) = Queue p"
  by (simp_all add: noteFired_def reserveFee_def Let_def)

text \<open>A split that is fired is a candidate that no longer waits.\<close>

lemma fire_once_moves:
  assumes "fire_once pe p = (q, fired)"
  shows "load h q \<le> load h p" "launched_ok p \<Longrightarrow> launched_ok q"
    "asks_something p \<Longrightarrow> account_ok p \<Longrightarrow> may_fire p \<Longrightarrow> asks_something q"
proof -
  let ?a = "split_size p"
  obtain p1 c where n: "GetNextCandidate pe p = (p1, c)" by fastforce
  have next1: "launched p1 = launched p"
    "(\<Sum>c\<leftarrow>Queue p1. h (candidateId c)) + (case c of None \<Rightarrow> 0 | Some c \<Rightarrow> h (candidateId c)) \<le> (\<Sum>c\<leftarrow>Queue p. h (candidateId c))"
    using next_candidate_load [of pe "Queue p" p p1 c h] n by (simp_all add: GetNextCandidate_def)
  have flights1: "flights p1 = flights p"
    using GetNextCandidate_frame(2) [of pe p] n by (simp add: account_def)
  have both: "load h q \<le> load h p \<and> (launched_ok p \<longrightarrow> launched_ok q)
      \<and> (flights q = flights p \<or> (\<exists>i r. flights q = flights p @ [(i, ?a, r)]))"
  proof (cases "Stopped (p_Node p) \<or> \<not> withinBudget p ?a \<or> c = None")
    case True
    then show ?thesis using assms n next1 flights1
      by (auto simp: fire_once_def Let_def load_def launched_ok_def split: if_splits)
  next
    case False
    then obtain cand where c: "c = Some cand" by auto
    let ?q = "reserveFee ?a ((noteFired pe cand p1)\<lparr>heldByStop := False\<rparr>)"
    have q: "q = (Fire pe cand ?a ?q)\<lparr>InFlightAmount := InFlightAmount (Fire pe cand ?a ?q) + ?a,
        splitsInFlight := splitsInFlight (Fire pe cand ?a ?q) + 1\<rparr>"
      using assms False n c by (auto simp: fire_once_def Let_def)
    obtain r where f: "account (Fire pe cand ?a ?q) = fired_account (candidateId cand) ?a r (account ?q)"
      using Fire_frame(2) by blast
    have "flights ?q = flights p"
      using noteFired_frame(2) [of pe cand p1] flights1 by (simp add: account_def reserveFee_def)
    with f have fl: "flights q = flights p @ [(candidateId cand, ?a, r)]" by (simp add: q account_def fired_account_def)
    have "Queue q = Queue p1" "launched q = (launched p)(candidateId cand \<mapsto> cand)" by (simp_all add: q next1(1))
    then show ?thesis using fl next1(2) by (auto simp: load_def c launched_ok_def)
  qed
  then show "load h q \<le> load h p" "launched_ok p \<Longrightarrow> launched_ok q" by blast+
  show "asks_something q" if ask: "asks_something p" and ok: "account_ok p" and may: "may_fire p"
  proof -
    have "splitAmount q = splitAmount p" using standing_view.fire_once [OF assms] by (simp add: standing_def)
    moreover have "?a \<noteq> 0"
    proof -
      let ?rest = "roundGoal p - AmountRebalanced p - InFlightAmount p"
      have fits: "unat (AmountRebalanced p) + unat (InFlightAmount p) \<le> unat (roundGoal p)"
        using ok by (simp add: account_ok_def)
      then have "unat (AmountRebalanced p + InFlightAmount p) = unat (AmountRebalanced p) + unat (InFlightAmount p)"
        using unat_u64_lt_pow [of "roundGoal p"] by (intro unat_u64_add_exact) linarith
      then have "unat (AmountRebalanced p) + unat (InFlightAmount p) < unat (roundGoal p)"
        using may by (simp add: may_fire_def u64_less_iff)
      moreover have "unat ?rest = unat (roundGoal p) - unat (AmountRebalanced p) - unat (InFlightAmount p)"
        using fits by (simp add: unat_u64_sub_exact u64_le_iff)
      ultimately have "?rest \<noteq> 0" by (auto simp: u64_eq_iff)
      then show ?thesis using ask by (simp add: split_size_def asks_something_def Let_def)
    qed
    ultimately show ?thesis using both ask by (auto simp: asks_something_def)
  qed
qed

lemma FireCandidates_load: "load h (FireCandidates pe p) \<le> load h p"
  by (rule FireCandidates_keeps [where P = "\<lambda>q. load h q \<le> load h p"]) (auto dest: fire_once_moves(1) [where h = h] intro: le_trans)

lemma FireCandidates_launched_ok: "launched_ok p \<Longrightarrow> launched_ok (FireCandidates pe p)"
  by (rule FireCandidates_keeps [where P = launched_ok]) (auto intro: fire_once_moves(2))

lemma FireCandidates_asks:
  assumes "asks_something p" "account_ok p"
  shows "asks_something (FireCandidates pe p)"
proof -
  have "asks_something (FireCandidates pe p) \<and> account_ok (FireCandidates pe p)"
    by (rule FireCandidates_keeps [where P = "\<lambda>q. asks_something q \<and> account_ok q"])
      (use assms in \<open>auto intro: fire_once_moves(3) fire_once_account_ok\<close>)
  then show ?thesis by simp
qed

section \<open>What a failed split does to what waits\<close>

text \<open>
  What judging a failed split of candidate \<open>i\<close>, with \<open>others\<close> still in flight, does: the candidate is
  left out; or it uses up its retry; or the target takes fewer splits at once; or it waits for the
  others; or the target is read again.
\<close>

definition waiting :: "Par \<Rightarrow> Channel list \<times> (channel_id \<Rightarrow> Channel option) \<times> channel_id set \<times> bool \<times> int" where
  "waiting p = (Queue p, launched p, retried p, targetRechecked p, targetCap p)"

definition judged :: "channel_id \<Rightarrow> int \<Rightarrow> Par \<Rightarrow> Par \<Rightarrow> bool" where
  "judged i others p q \<longleftrightarrow>
     waiting q = waiting p
   \<or> (\<exists>c cs. launched p i = Some c \<and> mset cs = mset (c # Queue p) \<and>
       (i \<notin> retried p \<and> waiting q = (cs, launched p, insert i (retried p), targetRechecked p, targetCap p)
      \<or> targetCap p \<noteq> 0 \<and> others \<ge> targetCap p \<and> waiting q = (cs, launched p, retried p, targetRechecked p, targetCap p)))
   \<or> others > 0 \<and> (targetCap p = 0 \<or> others < targetCap p) \<and> launched q = launched p \<and> retried q = retried p
       \<and> targetCap q = others
   \<or> targetRechecked q \<and> \<not> targetRechecked p \<and> launched q = launched p \<and> retried q = retried p \<and> targetCap q = targetCap p
   \<or> i \<notin> retried p \<and> launched p i = None \<and> waiting q = (Queue p, launched p, insert i (retried p), targetRechecked p, targetCap p)"

lemma waiting_simps [simp]:
  "waiting (p\<lparr>p_Node := n\<rparr>) = waiting p" "waiting (p\<lparr>probeSeq := k\<rparr>) = waiting p" "waiting (p\<lparr>halt := b\<rparr>) = waiting p"
  "waiting (p\<lparr>timeStopped := b\<rparr>) = waiting p"
  "waiting (p\<lparr>targetStopped := b\<rparr>) = waiting p" "waiting (p\<lparr>refusedAlone := i\<rparr>) = waiting p"
  "waiting (p\<lparr>TotalAttempts := x\<rparr>) = waiting p" "waiting (p\<lparr>failStreak := k\<rparr>) = waiting p"
  "waiting (p\<lparr>streakStopped := b\<rparr>) = waiting p" "waiting (p\<lparr>p_failedAt := m\<rparr>) = waiting p"
  "waiting (p\<lparr>outcome := oc\<rparr>) = waiting p" "waiting (p\<lparr>firstStop := st\<rparr>) = waiting p" "waiting (p\<lparr>gone := g\<rparr>) = waiting p"
  "waiting (p\<lparr>roundPriced := b\<rparr>) = waiting p" "waiting (p\<lparr>roundCheapest := x\<rparr>) = waiting p"
  "waiting (p\<lparr>busyRefusals := bs\<rparr>) = waiting p" "waiting (p\<lparr>probing := b\<rparr>) = waiting p" "waiting (p\<lparr>capBackoff := k\<rparr>) = waiting p"
  by (simp_all add: waiting_def)

lemma noteStop_waiting_view [simp]: "waiting (noteStop why p) = waiting p"
  by (simp add: noteStop_def Let_def)

lemma par_refreshPeers_waiting_view [simp]: "waiting (fst (par_refreshPeers pe is p)) = waiting p"
  by (simp add: par_refreshPeers_def split_beta)

lemma countFailStreak_waiting_view [simp]: "waiting (countFailStreak res p) = waiting p"
  by (simp add: countFailStreak_def Let_def)

lemma countFailedNodes_waiting_view [simp]: "waiting (countFailedNodes res p) = waiting p"
  unfolding countFailedNodes_def by (rule foldl_keeps [where P = "\<lambda>q. waiting q = waiting p"]) auto

lemma requeue_waiting_view:
  "waiting (requeue i b p) = waiting p \<and> launched p i = None
   \<or> (\<exists>c cs. launched p i = Some c \<and> mset cs = mset (c # Queue p) \<and>
        waiting (requeue i b p) = (cs, launched p, retried p, targetRechecked p, targetCap p))"
  by (cases "launched p i") (auto simp: requeue_def waiting_def)

lemma requeue_fields [simp]:
  "launched (requeue i b p) = launched p" "retried (requeue i b p) = retried p" "targetRechecked (requeue i b p) = targetRechecked p"
  "targetCap (requeue i b p) = targetCap p"
  by (simp_all add: requeue_def split: option.split)

text \<open>A refusal because the target is busy with other splits.\<close>

lemma targetBusy_judged:
  assumes "others > 0"
  shows "judged i others p (targetBusy i others p)"
proof (cases "targetCap p = 0 \<or> others < targetCap p")
  case True
  then have "launched (targetBusy i others p) = launched p \<and> retried (targetBusy i others p) = retried p
      \<and> targetCap (targetBusy i others p) = others"
    by (simp add: targetBusy_def setTargetCap_def Let_def)
  with True assms show ?thesis by (simp add: judged_def)
next
  case False
  obtain b p' where p': "targetBusy i others p = requeue i b p'" "waiting p' = waiting p"
  proof (cases "\<not> (case firedAt p i of None \<Rightarrow> 0 | Some k \<Rightarrow> k) \<le> capSetAt p \<and> \<not> probing p")
    case True
    let ?p = "p\<lparr>busyRefusals := (busyRefusals p)(i \<mapsto> (case busyRefusals p i of None \<Rightarrow> 0 | Some k \<Rightarrow> k) + 1)\<rparr>"
    show thesis by (rule that [of _ ?p]) (use False True in \<open>simp_all add: targetBusy_def Let_def\<close>)
  next
    case explained: False
    then show thesis by (intro that [of True p]) (use False in \<open>auto simp: targetBusy_def Let_def\<close>)
  qed
  then have same: "launched p' = launched p" "Queue p' = Queue p" "retried p' = retried p"
    "targetRechecked p' = targetRechecked p" "targetCap p' = targetCap p" by (simp_all add: waiting_def)
  from requeue_waiting_view [of i b p'] show ?thesis
    using False p'(2) unfolding judged_def p'(1) same by (auto simp: not_less)
qed


text \<open>A refusal with nothing else in flight.\<close>

lemma targetRefusedAlone_judged: "judged i others p (fst (targetRefusedAlone pe res p))"
proof (cases "Precheck res \<and> \<not> targetRechecked p")
  case True
  obtain q ok where r: "par_refreshPeers pe [if FailedAt res = SideOut then Out res else In res] (p\<lparr>targetRechecked := True\<rparr>) = (q, ok)"
    by fastforce
  then have "waiting q = waiting (p\<lparr>targetRechecked := True\<rparr>)" by (metis fst_conv par_refreshPeers_waiting_view)
  then have "launched q = launched p" "retried q = retried p" "targetCap q = targetCap p" "targetRechecked q"
    by (simp_all add: waiting_def)
  with True show ?thesis by (auto simp: targetRefusedAlone_def r judged_def)
next
  case False
  then have "waiting (fst (targetRefusedAlone pe res p)) = waiting p"
    by (auto simp: targetRefusedAlone_def Let_def)
  then show ?thesis by (simp add: judged_def)
qed

lemma waiting_fields:
  "waiting q = waiting p \<Longrightarrow> Queue q = Queue p \<and> launched q = launched p \<and> retried q = retried p
    \<and> targetRechecked q = targetRechecked p \<and> targetCap q = targetCap p"
  by (simp add: waiting_def)

lemma judged_cong:
  assumes "waiting q' = waiting q" "waiting p' = waiting p"
  shows "judged i others p' q' = judged i others p q"
  unfolding judged_def assms(1) using waiting_fields [OF assms(1)] waiting_fields [OF assms(2)] assms(2) by simp

lemma judge_side_judged: "judged (Candidate res) (splitsInFlight p - 1) p (judge_side pe res p)"
proof (cases "FailedAt res = candidateSide p \<or> FailedAt res = SideRoute \<or> FailedAt res = SideNone")
  case True
  then have "waiting (judge_side pe res p) = waiting p" by (auto simp: judge_side_def)
  then show ?thesis by (simp add: judged_def)
next
  case False
  let ?others = "splitsInFlight p - 1" let ?stop = "\<lambda>q. noteStop StopTarget (q\<lparr>targetStopped := True, halt := True\<rparr>)"
  have stop: "waiting (?stop q) = waiting q" for q
    using waiting_simps(3) [where p = "q\<lparr>targetStopped := True\<rparr>" and b = True] by simp
  obtain q go where alone: "targetRefusedAlone pe res p = (q, go)" by fastforce
  have q: "judged (Candidate res) ?others p q"
    using targetRefusedAlone_judged [of "Candidate res" ?others p pe res] by (simp add: alone)
  have same: "judged (Candidate res) ?others p p" by (simp add: judged_def)
  consider "res_Retry res = RetryWhenFree" "?others > 0" | "res_Retry res = RetryWhenFree" "\<not> ?others > 0" go
    | "res_Retry res = RetryWhenFree" "\<not> ?others > 0" "\<not> go" | "res_Retry res \<noteq> RetryWhenFree" by blast
  then show ?thesis
  proof cases
    case 1
    then show ?thesis using False targetBusy_judged [of ?others "Candidate res" p] by (simp add: judge_side_def)
  next
    case 2
    then show ?thesis using False q alone by (simp add: judge_side_def)
  next
    case 3
    then show ?thesis using False q judged_cong [OF stop refl] alone by (simp add: judge_side_def)
  next
    case 4
    then show ?thesis using False same judged_cong [OF stop refl] by (simp add: judge_side_def)
  qed
qed

lemma judge_failure_judged: "judged (Candidate res) (splitsInFlight p - 1) p (judge_failure pe res p)"
proof (cases "res_Retry res = RetryNow \<and> FailedAt res \<noteq> SideNone \<and> FailedAt res \<noteq> SideRoute \<and> Candidate res \<notin> retried p")
  case True
  let ?i = "Candidate res" let ?p = "p\<lparr>retried := insert ?i (retried p)\<rparr>"
  from requeue_waiting_view [of ?i True ?p] show ?thesis
  proof (elim disjE)
    assume "waiting (requeue ?i True ?p) = waiting ?p \<and> launched ?p ?i = None"
    then show ?thesis using True by (simp add: judge_failure_def judged_def) (simp add: waiting_def)
  next
    assume "\<exists>c cs. launched ?p ?i = Some c \<and> mset cs = mset (c # Queue ?p) \<and>
        waiting (requeue ?i True ?p) = (cs, launched ?p, retried ?p, targetRechecked ?p, targetCap ?p)"
    then show ?thesis using True by (auto simp: judge_failure_def judged_def)
  qed
next
  case False
  then show ?thesis using judge_side_judged [of res p pe] by (auto simp: judge_failure_def)
qed

lemma judgeCandidate_judged:
  assumes "Status res \<noteq> ''success''"
  shows "judged (Candidate res) (splitsInFlight p - 1) p (judgeCandidate pe res p)"
proof (cases "Candidate res = ''''")
  case True
  then show ?thesis by (simp add: judgeCandidate_def judged_def)
next
  case False
  have "waiting (judgeCandidate pe res p) = waiting (judge_failure pe res p)"
    using False assms by (simp add: judgeCandidate_def Let_def)
  then show ?thesis using judged_cong [OF _ refl] judge_failure_judged by blast
qed

lemma UpdateAmounts_waiting:
  "Status res \<noteq> ''success'' \<Longrightarrow> waiting (UpdateAmounts pe res p) = waiting p"
  by (simp add: UpdateAmounts_def releaseFee_def Let_def waiting_def)

lemma note_failure_waiting: "waiting (note_failure res p) = waiting p"
  by (simp add: note_failure_def Let_def waiting_def)

lemma failed_result_judged:
  assumes "Status res \<noteq> ''success''"
  shows "judged (Candidate res) (splitsInFlight p - 1) p (note_result_of pe res p)"
proof -
  let ?p = "countFailStreak res (countFailedNodes res (p\<lparr>TotalAttempts := TotalAttempts p + res_Attempts res\<rparr>))"
  have w: "waiting ?p = waiting p" by simp
  have "account ?p = account p" by simp
  then have n: "splitsInFlight ?p = splitsInFlight p" by (simp add: account_def)
  have "waiting (note_result_of pe res p) = waiting (judgeCandidate pe res ?p)"
    using assms by (simp add: note_result_of_def Let_def UpdateAmounts_waiting note_failure_waiting leftQueue_def)
  then have "judged (Candidate res) (splitsInFlight p - 1) p (note_result_of pe res p)
      = judged (Candidate res) (splitsInFlight p - 1) ?p (judgeCandidate pe res ?p)"
    by (rule judged_cong) (rule w [symmetric])
  then show ?thesis using judgeCandidate_judged [OF assms, of ?p pe] by (simp only: n)
qed

section \<open>The rank of a round\<close>

text \<open>The limit on splits at once, with none the largest.\<close>

definition cap_rank :: "Par \<Rightarrow> nat" where
  "cap_rank p = (if targetCap p = 0 then nat (splits p) + 1 else nat (targetCap p))"

definition tries_left :: "channel_id set \<Rightarrow> channel_id \<Rightarrow> nat" where
  "tries_left tried i = (if i \<in> tried then 1 else 2)"

definition weight :: "Par \<Rightarrow> nat" where
  "weight p = load (tries_left (retried p)) p"

definition rank :: "Par \<Rightarrow> nat \<times> nat \<times> nat \<times> nat \<times> nat" where
  "rank p = (unat (amount p) - unat (AmountRebalanced p), cap_rank p, if targetRechecked p then 0 else 1,
     weight p, length (flights p))"

abbreviation below :: "((nat \<times> nat \<times> nat \<times> nat \<times> nat) \<times> (nat \<times> nat \<times> nat \<times> nat \<times> nat)) set" where
  "below \<equiv> less_than <*lex*> less_than <*lex*> less_than <*lex*> less_than <*lex*> less_than"

lemma weight_insert: "tries_left (insert i tried) j \<le> tries_left tried j"
  by (simp add: tries_left_def)

lemma load_mono: "(\<And>j. g j \<le> h j) \<Longrightarrow> load g p \<le> load h p"
  unfolding load_def by (intro add_mono sum_list_mono) (auto simp: split_beta)

lemma load_waiting: "Queue q = Queue p \<Longrightarrow> flights q = flights p \<Longrightarrow> load h q = load h p"
  by (simp add: load_def)

lemma load_requeued:
  assumes "mset cs = mset (c # Queue p)" "Queue q = cs" "flights q = flights p"
  shows "load h q = load h p + h (candidateId c)"
proof -
  have "(\<Sum>d\<leftarrow>cs. h (candidateId d)) = sum_mset (image_mset (\<lambda>d. h (candidateId d)) (mset cs))"
    by (simp add: sum_mset_sum_list flip: mset_map)
  also have "\<dots> = h (candidateId c) + (\<Sum>d\<leftarrow>Queue p. h (candidateId d))"
    by (simp add: assms(1) sum_mset_sum_list flip: mset_map)
  finally show ?thesis by (simp add: load_def assms(2,3))
qed

lemma load_landed: "flights p = fs @ (i, a, r) # gs \<Longrightarrow> load h p = load h (p\<lparr>flights := fs @ gs\<rparr>) + h i"
  by (simp add: load_def)

text \<open>A failure, before more splits are fired.\<close>

lemma failure_below:
  assumes fl: "flights p = fs @ (i, a, r) # gs" and ok: "launched_ok p" "splitsInFlight p \<le> splits p"
    and judged: "judged i (splitsInFlight p - 1) (p\<lparr>flights := fs @ gs\<rparr>) q"
    and q: "flights q = fs @ gs" "splits q = splits p" "splitsInFlight q = splitsInFlight p - 1"
    and z: "standing z = standing q" "\<And>h. load h z \<le> load h q" "\<not> may_fire q \<Longrightarrow> z = q"
    and same: "amount q = amount p" "AmountRebalanced q = AmountRebalanced p"
  shows "(rank z, rank p) \<in> below"
proof -
  let ?p = "p\<lparr>flights := fs @ gs\<rparr>" let ?h = "tries_left (retried p)"
  have pos: "0 < tries_left t j" for t j by (simp add: tries_left_def)
  have landed: "load h p = load h ?p + h i" for h by (rule load_landed [OF fl])
  have z': "retried z = retried q" "targetRechecked z = targetRechecked q" "targetCap z = targetCap q" "splits z = splits q"
    "amount z = amount q" "AmountRebalanced z = AmountRebalanced q"
    using z(1) by (simp_all add: standing_def)
  have left: "rank z = (unat (amount p) - unat (AmountRebalanced p), cap_rank q, if targetRechecked q then 0 else 1,
      weight z, length (flights z))" "weight z \<le> weight q"
    using z(2) by (simp_all add: rank_def z' same cap_rank_def weight_def)
  have lighter: ?thesis if "targetCap q = targetCap p" "targetRechecked q = targetRechecked p" "weight q < weight p"
    using that left q(2) by (simp add: rank_def cap_rank_def)
  have requeued: "load h q = load h ?p + h i"
    if "launched p i = Some c" "mset cs = mset (c # Queue ?p)" "Queue q = cs" for c cs h
  proof -
    have "candidateId c = i" using ok(1) that(1) by (simp add: launched_ok_def)
    with load_requeued [OF that(2,3), of h] q(1) show ?thesis by simp
  qed
  consider (left_out) "waiting q = waiting ?p"
    | (retry) c cs where "launched p i = Some c" "mset cs = mset (c # Queue ?p)" "i \<notin> retried p"
        "waiting q = (cs, launched p, insert i (retried p), targetRechecked p, targetCap p)"
    | (wait) c cs where "launched p i = Some c" "mset cs = mset (c # Queue ?p)" "targetCap p \<noteq> 0" "splitsInFlight p - 1 \<ge> targetCap p"
        "waiting q = (cs, launched p, retried p, targetRechecked p, targetCap p)"
    | (fewer) "splitsInFlight p - 1 > 0" "targetCap p = 0 \<or> splitsInFlight p - 1 < targetCap p" "targetCap q = splitsInFlight p - 1"
    | (recheck) "targetRechecked q" "\<not> targetRechecked p" "targetCap q = targetCap p"
    | (lost) "i \<notin> retried p" "waiting q = (Queue p, launched p, insert i (retried p), targetRechecked p, targetCap p)"
    using judged unfolding judged_def by simp blast
  then show ?thesis
  proof cases
    case left_out
    then have w: "Queue q = Queue p" "retried q = retried p" "targetRechecked q = targetRechecked p" "targetCap q = targetCap p"
      by (simp_all add: waiting_def)
    have "weight q = load ?h ?p" using load_waiting [of q ?p ?h] w q(1) by (simp add: weight_def)
    also have "\<dots> < weight p" using landed [of ?h] pos [of "retried p" i] by (simp add: weight_def)
    finally show ?thesis using w by (intro lighter)
  next
    case retry
    then have w: "Queue q = cs" "retried q = insert i (retried p)" "targetRechecked q = targetRechecked p" "targetCap q = targetCap p"
      by (simp_all add: waiting_def)
    let ?g = "tries_left (insert i (retried p))"
    have "weight q = load ?g ?p + ?g i" using requeued [OF retry(1,2) w(1), of ?g] by (simp add: weight_def w)
    also have "\<dots> < load ?h ?p + ?h i"
      using load_mono [of ?g ?h ?p] weight_insert retry(3) by (auto simp: tries_left_def)
    also have "\<dots> = weight p" using landed [of ?h] by (simp add: weight_def)
    finally show ?thesis using w by (intro lighter)
  next
    case wait
    then have w: "Queue q = cs" "retried q = retried p" "targetRechecked q = targetRechecked p" "targetCap q = targetCap p"
      by (simp_all add: waiting_def)
    have "weight q = weight p" using requeued [OF wait(1,2) w(1), of ?h] landed [of ?h] by (simp add: weight_def w)
    moreover have "\<not> may_fire q" using wait(3,4) w(4) q(3) by (simp add: may_fire_def)
    ultimately show ?thesis using z(3) w q fl by (simp add: rank_def cap_rank_def same)
  next
    case fewer
    have "cap_rank q < cap_rank p" using fewer ok(2) by (auto simp: cap_rank_def)
    then show ?thesis using left by (simp add: rank_def)
  next
    case recheck
    then show ?thesis using left q(2) by (simp add: rank_def cap_rank_def)
  next
    case lost
    then have w: "Queue q = Queue p" "retried q = insert i (retried p)" "targetRechecked q = targetRechecked p" "targetCap q = targetCap p"
      by (simp_all add: waiting_def)
    let ?g = "tries_left (insert i (retried p))"
    have "weight q = load ?g ?p" using load_waiting [of q ?p ?g] w q(1) by (simp add: weight_def)
    also have "\<dots> \<le> load ?h ?p" by (rule load_mono) (rule weight_insert)
    also have "\<dots> < weight p" using landed [of ?h] pos [of "retried p" i] by (simp add: weight_def)
    finally show ?thesis using w by (intro lighter)
  qed
qed

text \<open>A success.\<close>

lemma success_moves:
  assumes "split_result (i, a, r) res" "split_of a limit r" "a \<noteq> 0" "Status res = ''success''"
  shows "AmountMsat_moved res \<noteq> 0"
  using assms(1)
proof (cases rule: split_result.cases)
  case (ran env n)
  then have "paid_result (r\<lparr>rb_Node := n\<rparr>) (snd (Run env (r\<lparr>rb_Node := n\<rparr>)))"
    using assms(4) by (intro Run_pays) simp_all
  then show ?thesis
    using ran assms(2,3) by (auto simp: paid_result_def within_limits_def split_of_def)
next
  case panicked
  then show ?thesis using assms(4) by (simp add: NewResult_def)
qed

section \<open>What every reachable state keeps\<close>

lemma AddSuccess_launched [simp]: "launched (AddSuccess res p) = launched p"
  by (simp add: AddSuccess_def AddSuccessGeneric_def addInvolving_def Let_def)

lemma note_success_launched [simp]: "launched (note_success pe res p) = launched p"
  by (simp add: note_success_def EnqueueCandidate_def Let_def split: sum.split)

lemma UpdateAmounts_launched [simp]: "launched (UpdateAmounts pe res p) = launched p"
  by (simp add: UpdateAmounts_def releaseFee_def par_refreshPeers_def Let_def split_beta)

lemma timeUp_launched [simp]: "launched (timeUp p) = launched p" "waiting (timeUp p) = waiting p"
  by (simp_all add: timeUp_def Let_def)

lemma success_launched:
  assumes "Status res = ''success''"
  shows "launched (note_result_of pe res p) = launched p"
proof -
  let ?p = "countFailStreak res (countFailedNodes res (p\<lparr>TotalAttempts := TotalAttempts p + res_Attempts res\<rparr>))"
  have "waiting ?p = waiting p" by simp
  then have "launched ?p = launched p" using waiting_fields by blast
  moreover have "launched (judgeCandidate pe res q) = launched q" for q
    using assms by (simp add: judgeCandidate_def targetSucceeded_def setTargetCap_def Let_def)
  ultimately show ?thesis using assms by (simp add: note_result_of_def Let_def)
qed

lemma note_result_of_launched: "launched (note_result_of pe res p) = launched p"
proof (cases "Status res = ''success''")
  case False
  from failed_result_judged [OF this, of p pe] show ?thesis
    by (auto simp: judged_def waiting_def)
qed (rule success_launched)

lemma found_launched: "launched (fst (FindCandidates now i p)) = launched p"
proof -
  let ?same = "\<lambda>acc :: Par \<times> (channel_id \<times> Channel) list. launched (fst acc) = launched p"
  have "launched (fst (IsGoodCandidate now ch q)) = launched q" for ch q
    by (auto simp: IsGoodCandidate_def push_IsGoodCandidate_def inPeerFeeFits_def Let_def split_beta split: kind.split sum.split)
  then have c: "launched (fst (consider_channel now peer acc ch)) = launched (fst acc)" for peer acc ch
    by (simp add: consider_channel_def Let_def split_beta)
  have "?same (foldl (\<lambda>acc peer. foldl (consider_channel now peer) acc (peer_Channels peer)) (p, []) ps)" for ps
    by (rule foldl_keeps [where P = ?same]) (simp, rule foldl_keeps [where P = ?same], simp_all add: c)
  then show ?thesis by (simp add: FindCandidates_def Let_def split_beta)
qed

lemma fetched_launched: "launched (prefetchEarnings pe p) = launched p"
proof -
  have "launched (fst (keepEarning q s i a)) = launched q" for q s i a by (simp add: keepEarning_def Let_def)
  then have "launched (foldl (\<lambda>q (scid, peer). fst (keepEarning q scid peer (pe_forwards pe (rounds q) scid))) p rs) = launched p" for rs
    by (intro foldl_keeps [where P = "\<lambda>q. launched q = launched p"]) auto
  then show ?thesis by (simp add: prefetchEarnings_def)
qed

lemma launched_set [simp]:
  "launched (setMaxTime k p) = launched p" "launched (setMaxFee k p) = launched p"
  "launched (setFeeRatio now f p) = launched p" "launched (setRetryEvery k p) = launched p"
  "launched (pull_setDefaults p) = launched p" "launched (push_setDefaults p) = launched p"
  "launched (setMaxIdleRounds k p) = launched p" "launched (setProbeFailStreak k p) = launched p"
  by (simp_all add: setMaxTime_def setMaxFee_def setFeeRatio_def setRetryEvery_def pull_setDefaults_def push_setDefaults_def
      setMaxIdleRounds_def setProbeFailStreak_def Let_def if_update_field)

lemma launched_defaults [simp]: "launched (setGenericDefaults p) = launched p"
  by (simp add: setGenericDefaults_def Let_def if_update_field)

lemma launched_parameters [simp]: "launched (set_parameters now k p) = launched p"
  by (simp add: set_parameters_def Let_def split: kind.split)

lemma launched_stages:
  "setStepping s c z p = Some q \<Longrightarrow> launched q = launched p" "find_target now i p = Inr q \<Longrightarrow> launched q = launched p"
  by (auto simp: setStepping_def find_target_def Let_def split: if_splits sum.splits)

definition round_kept :: "Par \<Rightarrow> bool" where
  "round_kept p \<longleftrightarrow> launched_ok p \<and> asks_something p"

lemma arrives_round_kept:
  assumes kept: "round_kept p" "account_ok p" "\<not> no_outcome p" and fl: "flights p = fs @ f # gs" and res: "split_result f res"
  shows "round_kept (handle_result pe res (p\<lparr>flights := fs @ gs\<rparr>))"
proof -
  let ?p = "p\<lparr>flights := fs @ gs\<rparr>" let ?q = "note_result_of pe res ?p"
  have "flights ?q = fs @ gs" "splitAmount ?q = splitAmount p"
    using note_result_of_account [of ?p pe res] kept(3) by (simp_all add: account_def parameters_def)
  then have "asks_something ?q" using kept(1) fl by (auto simp: round_kept_def asks_something_def)
  moreover have "account_ok ?q" by (rule arrives_account_ok [OF kept(2,3) fl res])
  moreover have "launched_ok ?q" using kept(1) by (simp add: round_kept_def launched_ok_def note_result_of_launched)
  ultimately show ?thesis
    by (simp add: handle_result_def round_kept_def FireCandidates_asks FireCandidates_launched_ok)
qed

lemma round_kept_cong:
  "launched q = launched p \<Longrightarrow> flights q = flights p \<Longrightarrow> splitAmount q = splitAmount p \<Longrightarrow> round_kept q = round_kept p"
  by (simp add: round_kept_def launched_ok_def asks_something_def)

lemma start_round_kept:
  assumes "prepare_run pe k n = Inr p"
  shows "round_kept (start_wait pe' p)"
proof -
  let ?now = "pe_now pe 0"
  obtain p0 p1 p2 p3 where s: "Init (new_run k n) = Some p0"
    "setStepping (k_StepPPM k) (k_CapPPM k) (k_Probe k) (set_parameters ?now k p0) = Some p1"
    "p2 = setProbeFailStreak (k_ProbeFailStreak k) (setMaxIdleRounds (k_MaxIdleRounds k) p1)"
    "validateParameters p2 = Accepted" "find_target ?now (k_scid k) p2 = Inr p3"
    "snd (FindCandidates ?now (excludePeer p3) p3) = None"
    "p = prefetchEarnings pe (fst (FindCandidates ?now (excludePeer p3) p3))"
    using assms by (rule prepare_run_stages)
  have "splitAmount p2 \<noteq> 0"
    using s(4) by (auto simp: validateParameters_def validateGenericParameters_def Let_def split: if_splits checked.splits)
  moreover have "parameters p = parameters p3" unfolding s(7) by (rule found_parameters)
  ultimately have amount: "splitAmount p \<noteq> 0" using s(5) by (auto simp: parameters_def find_target_def split: sum.splits)
  have "launched p0 = Map.empty" using s(1) by (auto simp: Init_def Let_def split: if_splits)
  then have "launched p1 = Map.empty" using launched_stages(1) [OF s(2)] by simp
  then have "launched p3 = Map.empty" using s(3) launched_stages(2) [OF s(5)] by simp
  then have "launched p = Map.empty" by (simp add: s(7) fetched_launched found_launched)
  moreover have "flights p = []" using prepare_fresh [OF assms] by (simp add: fresh_account_def account_def)
  ultimately have "launched_ok p" "asks_something p" using amount by (simp_all add: launched_ok_def asks_something_def)
  then have "round_kept (FireCandidates pe' p)"
    using prepare_account_ok [OF assms] by (simp add: round_kept_def FireCandidates_asks FireCandidates_launched_ok)
  then show ?thesis by (simp add: start_wait_def) (subst round_kept_cong, auto)
qed

text \<open>A round that starts after another.\<close>

lemma clear_stop_fields [simp]:
  "launched (clear_stop p) = launched p" "splitAmount (clear_stop p) = splitAmount p"
  by (simp_all add: clear_stop_def)

lemma between_rounds_fields [simp]:
  "launched (closeRound p) = launched p" "splitAmount (closeRound p) = splitAmount p"
  "launched (why_round p) = launched p" "splitAmount (why_round p) = splitAmount p"
  "launched (countIdle p) = launched p" "splitAmount (countIdle p) = splitAmount p"
  "launched (fst (waitRetry w p)) = launched p" "splitAmount (fst (waitRetry w p)) = splitAmount p"
  "launched (begin_round x b p) = launched p" "splitAmount (begin_round x b p) = splitAmount p"
proof -
  show "launched (fst (waitRetry w p)) = launched p" by (simp add: waitRetry_def split: waited.split)
  have "splitAmount (timeUp (clear_stop p)) = splitAmount p"
    using timeUp_frame(1) [of "clear_stop p"] by (simp add: parameters_def)
  then show "splitAmount (fst (waitRetry w p)) = splitAmount p" by (simp add: waitRetry_def split: waited.split)
qed (simp_all add: closeRound_def why_round_def countIdle_def begin_round_def Let_def)

lemma next_round_kept:
  assumes "round_kept p" "account_ok p" "splitsInFlight p = 0" "anotherRound pe w (closeRound p) = (q, True)"
  shows "round_kept q"
proof -
  obtain x b wait p1 where p1: "p1 = (if wait then fst (waitRetry w (countIdle (why_round (closeRound p)))) else countIdle (why_round (closeRound p)))"
    and q: "q = newRound pe x b p1"
    using assms(4) by (rule anotherRound_True)
  let ?r = "prefetchEarnings pe (fst (FindCandidates (pe_now pe (fireSeq (begin_round x b p1))) (excludePeer (begin_round x b p1))
      (begin_round x b p1)))"
  have acc: "account p1 = account p" by (simp add: p1)
  have one: "launched p1 = launched p" "splitAmount p1 = splitAmount p" by (simp_all add: p1)
  have none: "splitsInFlight p1 = 0" "flights p1 = []"
    using acc assms(2,3) by (simp_all add: account_def account_ok_def)
  have ok: "account_ok p1"
  proof -
    have "account_ok p1 = account_ok (countIdle (why_round (closeRound p)))"
      by (intro account_ok_cong) (simp_all add: p1)
    moreover have "account_ok (closeRound p) = account_ok p" by (intro account_ok_cong) simp_all
    ultimately show ?thesis using assms(2) by (simp add: account_ok_idle)
  qed
  have "parameters ?r = parameters (begin_round x b p1)" "account ?r = account p"
    using acc begin_round_account(1) [of x b p1] by simp_all
  then have r: "splitAmount ?r = splitAmount p" "flights ?r = []" "launched ?r = launched p"
    using none acc one by (simp_all add: parameters_def account_def fetched_launched found_launched)
  have "account_ok ?r"
    using begin_round_account_ok [OF ok none(1), of x b] account_ok_cong [of ?r "begin_round x b p1"] by simp
  moreover have "launched_ok ?r" "asks_something ?r"
    using r assms(1) by (simp_all add: round_kept_def launched_ok_def asks_something_def)
  ultimately show ?thesis
    by (simp add: q newRound_def Let_def round_kept_def FireCandidates_asks FireCandidates_launched_ok)
qed

lemma reachable_round_kept: "run_reachable p \<Longrightarrow> round_kept p"
proof (induction rule: run_reachable.induct)
  case (called pe k n p pe')
  then show ?case by (rule start_round_kept)
next
  case (stepped p q)
  then have kept: "account_ok p" "\<not> no_outcome p" using reachable_kept by blast+
  from stepped(2) show ?case
  proof (cases rule: run_step.cases)
    case (arrives fs f gs res pe)
    then show ?thesis using arrives_round_kept [OF stepped.IH kept] by simp
  next
    case (others n)
    then show ?thesis using stepped.IH by (subst round_kept_cong [of _ p]) simp_all
  next
    case deadline
    have "flights (timeUp p) = flights p" "splitAmount (timeUp p) = splitAmount p"
      using timeUp_frame [of p] by (simp_all add: account_def parameters_def)
    then show ?thesis using stepped.IH deadline round_kept_cong [of "timeUp p" p] by simp
  next
    case (next_round pe w q')
    have "round_kept q'" using next_round_kept [OF stepped.IH kept(1) next_round(2,3)] .
    then show ?thesis using next_round(1) by (subst round_kept_cong [of _ q']) simp_all
  qed
qed

section \<open>A round ends\<close>

text \<open>What happens while a round waits for a result: other goroutines change the node, and the time limit may pass.\<close>

inductive quiet_step :: "Par \<Rightarrow> Par \<Rightarrow> bool" where
  "quiet_step p (p\<lparr>p_Node := n\<rparr>)"
| "maxTime p > 0 \<Longrightarrow> quiet_step p (timeUp p)"

definition result_step :: "Par \<Rightarrow> Par \<Rightarrow> bool" where
  "result_step p q \<longleftrightarrow> (\<exists>p' pe fs f gs res. quiet_step\<^sup>*\<^sup>* p p' \<and> flights p' = fs @ f # gs \<and> split_result f res
     \<and> q = handle_result pe res (p'\<lparr>flights := fs @ gs\<rparr>))"

lemma rank_cong:
  assumes "waiting q = waiting p" "parameters q = parameters p" "account q = account p"
  shows "rank q = rank p"
proof -
  have "amount q = amount p" "splits q = splits p" using assms(2) by (simp_all add: parameters_def)
  moreover have "AmountRebalanced q = AmountRebalanced p" "flights q = flights p" using assms(3) by (simp_all add: account_def)
  ultimately show ?thesis using waiting_fields [OF assms(1)] by (simp add: rank_def cap_rank_def weight_def load_def)
qed

lemma rank_quiet: "quiet_step\<^sup>*\<^sup>* p q \<Longrightarrow> rank q = rank p"
proof (induction rule: rtranclp_induct)
  case (step q r)
  from step(2) have "rank r = rank q" by (cases rule: quiet_step.cases) (auto intro: rank_cong)
  with step.IH show ?case by simp
qed simp

lemma quiet_reachable: "quiet_step\<^sup>*\<^sup>* p q \<Longrightarrow> run_reachable p \<Longrightarrow> run_reachable q"
proof (induction rule: rtranclp_induct)
  case (step q r)
  from step(2) have "run_step q r" by (cases rule: quiet_step.cases) (auto intro: run_step.intros)
  with step show ?case by (auto intro: run_reachable.stepped)
qed

lemma handle_result_below:
  assumes ok: "account_ok p" "\<not> no_outcome p" "round_kept p" and fl: "flights p = fs @ f # gs" and res: "split_result f res"
  shows "(rank (handle_result pe res (p\<lparr>flights := fs @ gs\<rparr>)), rank p) \<in> below"
proof -
  obtain i a r where f: "f = (i, a, r)" by (cases f)
  let ?p = "p\<lparr>flights := fs @ gs\<rparr>" let ?q = "note_result_of pe res ?p"
  have r: "split_of a (maxPPM p) r" "a \<noteq> 0"
    using ok fl f by (auto simp: account_ok_def round_kept_def asks_something_def)
  note b = split_result_bounds [OF res [unfolded f] r(1)]
  have "parameters ?q = parameters p" using note_result_of_account(1) [of ?p pe res] ok(2) by (simp add: parameters_def)
  then have par: "splits ?q = splits p" "amount ?q = amount p" by (simp_all add: parameters_def)
  have q: "flights ?q = fs @ gs" "splitsInFlight ?q = splitsInFlight p - 1"
    "AmountRebalanced ?q = (if Status res = ''success'' then AmountRebalanced p + AmountMsat_moved res else AmountRebalanced p)"
    using note_result_of_account(2) [of ?p pe res] ok(2) by (simp_all add: account_def)
  have stands: "standing (FireCandidates pe ?q) = standing ?q" by (rule standing_view.FireCandidates)
  show ?thesis
  proof (cases "Status res = ''success''")
    case True
    have "AmountMsat_moved res \<noteq> 0" by (rule success_moves [OF res [unfolded f] r True])
    then have moved: "0 < unat (AmountMsat_moved res)" by (simp add: unat_gt_0)
    have "unat (AmountRebalanced p) + in_flight p \<le> unat (roundGoal p)" "unat a \<le> in_flight p"
      using ok(1) by (simp_all add: account_ok_def in_flight_def fl f)
    then have fits: "unat (AmountRebalanced p) + unat (AmountMsat_moved res) \<le> unat (amount p)"
      using b(3) [OF True] roundGoal_le [of p] by (simp add: u64_le_iff)
    then have "unat (AmountRebalanced ?q) = unat (AmountRebalanced p) + unat (AmountMsat_moved res)"
      using True fits unat_u64_lt_pow [of "amount p"] by (subst unat_u64_add_exact [symmetric]) (linarith, simp add: q)
    then have "unat (amount p) - unat (AmountRebalanced ?q) < unat (amount p) - unat (AmountRebalanced p)"
      using moved fits by linarith
    then show ?thesis using stands by (simp add: handle_result_def rank_def standing_def par)
  next
    case False
    have "judged i (splitsInFlight p - 1) ?p ?q"
      using failed_result_judged [OF False, of ?p pe] b(2) by simp
    moreover have "FireCandidates pe ?q = ?q" if "\<not> may_fire ?q" using that by (simp add: FireCandidates.simps [of pe ?q])
    ultimately show ?thesis
      unfolding handle_result_def using ok(1,3) q par False
      by (intro failure_below [OF fl [unfolded f] _ _ _ q(1) par(1) q(2) stands FireCandidates_load])
        (simp_all add: account_ok_def round_kept_def)
  qed
qed

lemma result_step_below:
  assumes "run_reachable p" "result_step p q"
  shows "(rank q, rank p) \<in> below" "run_reachable q"
proof -
  obtain p' pe fs f gs res where s: "quiet_step\<^sup>*\<^sup>* p p'" "flights p' = fs @ f # gs" "split_result f res"
    "q = handle_result pe res (p'\<lparr>flights := fs @ gs\<rparr>)"
    using assms(2) by (auto simp: result_step_def)
  have reach: "run_reachable p'" by (rule quiet_reachable [OF s(1) assms(1)])
  then show "run_reachable q" using s(2-4) by (auto intro: run_reachable.stepped run_step.arrives)
  show "(rank q, rank p) \<in> below"
    using handle_result_below [OF _ _ reachable_round_kept [OF reach] s(2,3), of pe] reachable_kept [OF reach] rank_quiet [OF s(1)] s(4)
    by simp
qed

text \<open>
C6
A round ends: no run, however it was called and whatever happened to it, can be kept waiting by its
splits forever. Each result that arrives, a success or a failure of any kind, and however the other
goroutines change the node in between, uses up something that the round does not get back: an amount
still to move; the target's limit on splits at once; the one recheck of the target; a candidate, or the
one retry a candidate has; or a split in flight that no other follows. So there is no endless sequence of
results.
\<close>
theorem round_ends: "\<not> (\<exists>s. run_reachable (s 0) \<and> (\<forall>k. result_step (s k) (s (Suc k))))"
proof
  assume "\<exists>s. run_reachable (s 0) \<and> (\<forall>k. result_step (s k) (s (Suc k)))"
  then obtain s where s: "run_reachable (s 0)" "\<And>k. result_step (s k) (s (Suc k))" by blast
  have "run_reachable (s k)" for k by (induction k) (use s result_step_below(2) in blast)+
  then have "(rank (s (Suc k)), rank (s k)) \<in> below" for k using s(2) by (intro result_step_below(1))
  moreover have "wf below" by (intro wf_lex_prod wf_less_than)
  ultimately show False using wf_no_infinite_down_chainE [of below "\<lambda>k. rank (s k)"] by blast
qed

end
