(* ===== verification/PriceClaims.thy ===== *)
theory PriceClaims
  imports RoundEnds
begin

text \<open>
  What a run pays for what it moves: over everything lightningd answered as paid, the fees of a run stay
  below the rate it was given, the cap when it steps its price up.
\<close>

section \<open>One payment\<close>

text \<open>A fee within \<^const>\<open>MaxFeeForPPM\<close> costs less than the next whole rate.\<close>

lemma fee_below_rate:
  assumes "fee \<le> MaxFeeForPPM m limit" "m \<noteq> 0" "(unat limit + 1) * unat m < 2 ^ 64"
  shows "unat fee * 1000000 < (unat limit + 1) * unat m"
proof -
  have pos: "1 \<le> unat m" using unat_gt_0 [of m] assms(2) by linarith
  then have "unat limit + 1 \<le> (unat limit + 1) * unat m" by (cases "unat m") simp_all
  then have "limit \<noteq> MaxUint64" using assms(3) by (auto simp: u64_neq_Max_iff)
  then show ?thesis
    using assms MaxFeeForPPM_adjoint [of m limit fee] feePPM_rebalance_le_iff [of m limit fee] by blast
qed

lemma split_pays_rate:
  assumes res: "split_result (i, a, r) res" "Status res = ''success''"
    and r: "split_of a limit r" "a \<noteq> 0" and small: "(unat limit + 1) * unat a < 2 ^ 64"
  shows "unat (res_Fee res) * 1000000 < (unat limit + 1) * unat (AmountMsat_moved res)"
  using res(1)
proof (cases rule: split_result.cases)
  case (ran env n)
  then have "paid_result (r\<lparr>rb_Node := n\<rparr>) (snd (Run env (r\<lparr>rb_Node := n\<rparr>)))"
    using res(2) by (intro Run_pays) simp_all
  then obtain route where route: "within_limits (r\<lparr>rb_Node := n\<rparr>) route" "AmountMsat_moved res = Amount route" "res_Fee res = Fee route"
    using ran by (auto simp: paid_result_def)
  have "Amount route \<le> a" "Amount route \<noteq> 0" "MaxPPM r \<le> limit"
    using route(1) r by (auto simp: within_limits_def split_of_def)
  then have le: "unat (Amount route) \<le> unat a" "Amount route \<noteq> 0" "unat (MaxPPM r) \<le> unat limit"
    by (simp_all add: u64_le_iff)
  have up: "(unat (MaxPPM r) + 1) * unat (Amount route) \<le> (unat limit + 1) * unat (Amount route)"
    using le by (intro mult_right_mono) simp_all
  also have "\<dots> \<le> (unat limit + 1) * unat a" using le by (intro mult_left_mono) simp_all
  finally have "(unat (MaxPPM r) + 1) * unat (Amount route) < 2 ^ 64" using small by linarith
  from fee_below_rate [OF _ le(2) this] route(1)
  have "unat (Fee route) * 1000000 < (unat (MaxPPM r) + 1) * unat (Amount route)" by (simp add: within_limits_def)
  then have "unat (Fee route) * 1000000 < (unat limit + 1) * unat (Amount route)" using up by (rule less_le_trans)
  then show ?thesis using route by simp
next
  case panicked
  then show ?thesis using res(2) by (simp add: NewResult_def)
qed

section \<open>All payments of a run\<close>

text \<open>The highest rate a run may pay: what it was given, or the cap when it steps up.\<close>

definition highestPPM :: "Par \<Rightarrow> u64" where
  "highestPPM p = (if stepPPM p = 0 then maxPPM p else capPPM p)"

definition paid_so_far :: "Par \<Rightarrow> u64 \<times> u64" where
  "paid_so_far p = (AmountRebalanced p, feesPaid p)"

definition price_ok :: "Par \<Rightarrow> bool" where
  "price_ok p \<longleftrightarrow>
     (feesPaid p = 0 \<and> AmountRebalanced p = 0 \<or>
      unat (feesPaid p) * 1000000 < (unat (highestPPM p) + 1) * unat (AmountRebalanced p))"

text \<open>So small that no limit on fees saturates.\<close>

definition exact_rates :: "Par \<Rightarrow> bool" where
  "exact_rates p \<longleftrightarrow> (unat (highestPPM p) + 1) * unat (amount p) < 2 ^ 64"

lemma price_cong:
  "parameters q = parameters p \<Longrightarrow> highestPPM q = highestPPM p"
  "parameters q = parameters p \<Longrightarrow> exact_rates q = exact_rates p"
  "parameters q = parameters p \<Longrightarrow> paid_so_far q = paid_so_far p \<Longrightarrow> price_ok q = price_ok p"
  "account q = account p \<Longrightarrow> paid_so_far q = paid_so_far p"
  by (simp_all add: parameters_def highestPPM_def exact_rates_def price_ok_def paid_so_far_def account_def)

lemma FireCandidates_paid: "paid_so_far (FireCandidates pe p) = paid_so_far p"
proof (rule FireCandidates_keeps [where P = "\<lambda>q. paid_so_far q = paid_so_far p"])
  fix q q' fired
  assume "paid_so_far q = paid_so_far p" "fire_once pe q = (q', fired)"
  then show "paid_so_far q' = paid_so_far p"
    using fire_once_account(2,3) [of pe q q' fired]
    by (cases fired) (auto simp: paid_so_far_def account_def)
qed simp

lemma start_price_ok:
  assumes "prepare_run pe k n = Inr p"
  shows "price_ok (start_wait pe' p)"
proof -
  have "paid_so_far p = (0, 0)" using prepare_fresh [OF assms] by (simp add: fresh_account_def account_def paid_so_far_def)
  then have "paid_so_far (FireCandidates pe' p) = (0, 0)" by (simp add: FireCandidates_paid)
  then show ?thesis by (auto simp: start_wait_def price_ok_def paid_so_far_def feesPaid_def NewRunResult_def)
qed

text \<open>A result that arrives: a payment that was made is added to the account, at its rate.\<close>

lemma arrives_price_ok:
  assumes ok: "price_ok p" "account_ok p" "\<not> no_outcome p" "round_kept p" "stepping_ok p" "exact_rates p"
    and fl: "flights p = fs @ f # gs" and res: "split_result f res"
  shows "price_ok (handle_result pe res (p\<lparr>flights := fs @ gs\<rparr>))"
proof -
  obtain i a r where f: "f = (i, a, r)" by (cases f)
  let ?p = "p\<lparr>flights := fs @ gs\<rparr>" let ?q = "note_result_of pe res ?p" and ?h = "unat (highestPPM p) + 1"
  have r: "split_of a (maxPPM p) r" "a \<noteq> 0"
    using ok(2,4) fl f by (auto simp: account_ok_def round_kept_def asks_something_def)
  note b = split_result_bounds [OF res [unfolded f] r(1)]
  have "parameters ?q = parameters p" using note_result_of_account(1) [of ?p pe res] ok(3) by (simp add: parameters_def)
  then have h: "highestPPM ?q = highestPPM p" by (rule price_cong)
  have q: "AmountRebalanced ?q = (if Status res = ''success'' then AmountRebalanced p + AmountMsat_moved res else AmountRebalanced p)"
    "feesPaid ?q = (if Status res = ''success'' then feesPaid p + res_Fee res else feesPaid p)"
    using note_result_of_account(2) [of ?p pe res] ok(3) by (simp_all add: account_def feesPaid_def)
  have "price_ok ?q"
  proof (cases "Status res = ''success''")
    case True
    have limit: "maxPPM p \<le> highestPPM p" using ok(5) by (auto simp: stepping_ok_def highestPPM_def)
    have goal: "unat (AmountRebalanced p) + in_flight p \<le> unat (amount p)" "unat a \<le> in_flight p"
      using ok(2) roundGoal_le [of p] by (auto simp: account_ok_def in_flight_def fl f u64_le_iff intro: order_trans)
    have m: "unat (AmountMsat_moved res) \<le> unat a" using b(3) [OF True] by (simp add: u64_le_iff)
    have "?h * unat a \<le> ?h * unat (amount p)" using goal by (intro mult_left_mono) simp_all
    then have "?h * unat a < 2 ^ 64" using ok(6) by (simp add: exact_rates_def)
    moreover have "split_of a (highestPPM p) r" using r(1) limit by (auto simp: split_of_def)
    ultimately have paid: "unat (res_Fee res) * 1000000 < ?h * unat (AmountMsat_moved res)"
      using split_pays_rate [OF res [unfolded f] True _ r(2)] by simp
    have moved: "unat (AmountRebalanced ?q) = unat (AmountRebalanced p) + unat (AmountMsat_moved res)"
      using goal m True unat_u64_lt_pow [of "amount p"] by (simp only: q True if_True simp_thms) (intro unat_u64_add_exact, linarith)
    have sum: "(unat (feesPaid p) + unat (res_Fee res)) * 1000000 < ?h * unat (AmountRebalanced ?q)"
      using ok(1) paid unfolding moved by (auto simp: price_ok_def distrib_left distrib_right)
    have "unat (AmountRebalanced ?q) \<le> unat (amount p)" using moved goal m by linarith
    then have "?h * unat (AmountRebalanced ?q) \<le> ?h * unat (amount p)" by (intro mult_left_mono) simp_all
    then have "unat (feesPaid p) + unat (res_Fee res) < 2 ^ 64" using sum ok(6) by (simp add: exact_rates_def)
    then have "unat (feesPaid ?q) = unat (feesPaid p) + unat (res_Fee res)"
      unfolding q by (simp add: True unat_u64_add_exact)
    then show ?thesis using sum by (simp add: price_ok_def h)
  next
    case False
    then show ?thesis using ok(1) by (simp add: price_ok_def h q)
  qed
  then show ?thesis
    using price_cong(3) [OF parameters_view.FireCandidates FireCandidates_paid] by (simp add: handle_result_def)
qed

text \<open>A next round keeps the account and the highest rate.\<close>

lemma next_round_price:
  assumes "anotherRound pe w (closeRound p) = (q, True)"
  shows "paid_so_far q = paid_so_far p" "highestPPM q = highestPPM p" "amount q = amount p"
proof -
  let ?c = "countIdle (why_round (closeRound p))"
  obtain x b wait p1 where n: "nextStep ?c = (x, b, wait)" and p1: "p1 = (if wait then fst (waitRetry w ?c) else ?c)"
    and q: "q = newRound pe x b p1"
    using assms by (rule anotherRound_True)
  have idle: "paid_so_far (countIdle r) = paid_so_far r" "amount (countIdle r) = amount r" for r
    by (simp_all add: countIdle_def paid_so_far_def feesPaid_def)
  have "paid_so_far p1 = paid_so_far ?c" by (intro price_cong(4)) (simp add: p1)
  also have "\<dots> = paid_so_far p" unfolding idle by (intro price_cong(4)) simp
  finally have paid1: "paid_so_far p1 = paid_so_far p" .
  have fetched: "paid_so_far (prefetchEarnings pe (fst (FindCandidates now i (begin_round x b p1)))) = paid_so_far p1" for now i
    by (intro price_cong(4)) (simp add: begin_round_account)
  then show "paid_so_far q = paid_so_far p"
    unfolding q newRound_def Let_def FireCandidates_paid using paid1 by simp
  have par: "parameters p1 = parameters ?c" "parameters (why_round (closeRound p)) = parameters p"
    by (simp_all add: p1)
  have "parameters q = parameters (begin_round x b p1)"
    unfolding q by (simp add: newRound_def Let_def parameters_view.FireCandidates)
  then show "amount q = amount p" using par by (simp add: parameters_def begin_round_fields idle)
  from assms obtain x' b' wait' where "nextStep ?c = (x', b', wait')" and f: "maxPPM q = x'" "capPPM q = capPPM p" "stepPPM q = stepPPM p"
    by (rule next_round_parameters)
  then have "x' = maxPPM p" if "stepPPM p = 0"
    using that par(2) by (simp add: nextStep_def parameters_def)
  then show "highestPPM q = highestPPM p" using f by (simp add: highestPPM_def)
qed

lemma run_step_price_ok:
  assumes step: "run_step p q"
    and ok: "exact_rates p \<Longrightarrow> price_ok p" "account_ok p" "\<not> no_outcome p" "round_kept p" "stepping_ok p"
    and "exact_rates q"
  shows "price_ok q"
  using step
proof (cases rule: run_step.cases)
  case (arrives fs f gs res pe)
  have "exact_rates q = exact_rates p"
    using arrives_parameters [OF ok(3)] arrives(1) by (intro price_cong(2)) simp
  then show ?thesis using arrives assms(7) ok arrives_price_ok by blast
next
  case (others n)
  then show ?thesis using ok(1) assms(7) price_cong(2,3) [of q p] price_cong(4) [of q p] by simp
next
  case deadline
  then show ?thesis using ok(1) assms(7) price_cong(2,3) [of q p] price_cong(4) [of q p] by simp
next
  case (next_round pe w q')
  note n = next_round_price [OF next_round(3)]
  have same: "highestPPM (q'\<lparr>rounds := z\<rparr>) = highestPPM q'" "paid_so_far (q'\<lparr>rounds := z\<rparr>) = paid_so_far q'" for z
    by (simp_all add: highestPPM_def paid_so_far_def feesPaid_def)
  have q: "highestPPM q = highestPPM p" "amount q = amount p" "paid_so_far q = paid_so_far p"
    using n next_round(1) by (simp_all add: same)
  then have "price_ok p" using ok(1) assms(7) by (simp add: exact_rates_def)
  then show ?thesis using q by (simp add: price_ok_def paid_so_far_def)
qed

lemma reachable_price_ok: "run_reachable p \<Longrightarrow> exact_rates p \<Longrightarrow> price_ok p"
proof (induction rule: run_reachable.induct)
  case (called pe k n p pe')
  then show ?case by (simp add: start_price_ok)
next
  case (stepped p q)
  then show ?case
    using run_step_price_ok [OF stepped(2)] reachable_kept [OF stepped(1)] reachable_round_kept [OF stepped(1)] by blast
qed

text \<open>
C5
A run that steps its price up never tries more than capppm, and whatever a run does, what it paid on
average for what it moved, as it counts and reports it, is no more than the highest rate it may pay:
capppm when it steps up, otherwise maxppm.  The counters are of the payments that were answered as
made, so a payment that settles after its timeout is in neither of them; and the rate times the amount
asked for must fit in 64 bits, beyond which \<open>MaxFeeForPPM\<close> sets no limit.
\<close>
theorem never_dearer_than_the_limit:
  assumes "run_reachable p" and "(unat (highestPPM p) + 1) * unat (amount p) < 2 ^ 64"
  shows "(if stepPPM p = 0 then highestPPM p = maxPPM p else highestPPM p = capPPM p \<and> maxPPM p \<le> capPPM p) \<and>
    avgPPM (feesPaid p) (AmountRebalanced p) \<le> highestPPM p"
proof
  show "if stepPPM p = 0 then highestPPM p = maxPPM p else highestPPM p = capPPM p \<and> maxPPM p \<le> capPPM p"
    using reachable_kept [OF assms(1)] by (auto simp: highestPPM_def stepping_ok_def)
  have "price_ok p" using reachable_price_ok [OF assms(1)] assms(2) by (simp add: exact_rates_def)
  show "avgPPM (feesPaid p) (AmountRebalanced p) \<le> highestPPM p"
  proof (cases "AmountRebalanced p = 0 \<or> highestPPM p = MaxUint64")
    case True
    then show ?thesis using word_le_nat_alt by (auto simp: avgPPM_def u64_le_iff)
  next
    case False
    then show ?thesis
      using feePPM_rebalance_le_iff [of "AmountRebalanced p" "highestPPM p" "feesPaid p"] \<open>price_ok p\<close>
      by (auto simp: avgPPM_eq price_ok_def)
  qed
qed

theorem never_dearer_than_the_limit_witness:
  "maxPPM sample_idle \<le> 1000 \<and> avgPPM (feesPaid sample_idle) (AmountRebalanced sample_idle) \<le> 1000"
proof -
  have reach: "run_reachable sample_idle"
    unfolding sample_idle_def by (rule run_reachable.called [OF sample_push_prepared])
  have "highestPPM sample_idle = 1000" "stepPPM sample_idle \<noteq> 0" "amount sample_idle = 400000000" "capPPM sample_idle = 1000"
    using sample_idle_view by (simp_all add: round_view_def highestPPM_def)
  with never_dearer_than_the_limit [OF reach] show ?thesis by simp
qed

end
