(* ===== verification/Parameters.thy ===== *)
theory Parameters
  imports Reports "HOL-Library.Monad_Syntax" "HOL-Library.Sublist"
begin

text \<open>
  What reaches the plugin from outside before any of its commands runs: numbers in the parameters of a
  call (\<^verbatim>\<open>util/param.go\<close>), the options that it registers (\<^verbatim>\<open>cmd/circular/options.go\<close>) and reads
  (\<^verbatim>\<open>setOptions\<close> of \<^verbatim>\<open>node/node.go\<close>, \<^verbatim>\<open>setupCronJobs\<close> of \<^verbatim>\<open>node/cron.go\<close>), and the log it opens
  (\<^verbatim>\<open>cmd/circular/main.go\<close>).

  \<^verbatim>\<open>strconv.ParseFloat\<close> is a parameter as in \<^theory_text>\<open>Reports\<close>: the finite number that a text is, if it is
  one; so is the decoding of a JSON string, \<open>unquote\<close>.
\<close>

section \<open>Numbers\<close>

definition parseNumber :: "(string \<Rightarrow> string option) \<Rightarrow> (string \<Rightarrow> rat option) \<Rightarrow> string \<Rightarrow> rat option" where
  "parseNumber unquote ParseFloat data =
     (let s = TrimSpace data in
      if s = ''null'' then Some 0
      else
        do {
          s \<leftarrow> (if prefix [CHR 0x22] s then map_option TrimSpace (unquote data) else Some s);
          ParseFloat s
        })"

definition math_Trunc :: "rat \<Rightarrow> int" where "math_Trunc f = (if f \<ge> 0 then \<lfloor>f\<rfloor> else \<lceil>f\<rceil>)"

text \<open>The value is left as it was when the text is not a whole number; the boolean says whether it is one.\<close>

definition Int_UnmarshalJSON :: "(string \<Rightarrow> string option) \<Rightarrow> (string \<Rightarrow> rat option) \<Rightarrow> string \<Rightarrow> int \<Rightarrow> int \<times> bool" where
  "Int_UnmarshalJSON unquote ParseFloat data i =
     (case parseNumber unquote ParseFloat data of
        None \<Rightarrow> (i, False)
      | Some f \<Rightarrow> if f \<noteq> of_int (math_Trunc f) \<or> \<bar>f\<bar> > 2 ^ 53 then (i, False) else (math_Trunc f, True))"

definition Float_UnmarshalJSON :: "(string \<Rightarrow> string option) \<Rightarrow> (string \<Rightarrow> rat option) \<Rightarrow> string \<Rightarrow> rat \<Rightarrow> rat \<times> bool" where
  "Float_UnmarshalJSON unquote ParseFloat data f =
     (case parseNumber unquote ParseFloat data of None \<Rightarrow> (f, False) | Some v \<Rightarrow> (v, True))"

definition Float_MarshalJSON :: "(rat \<Rightarrow> string) \<Rightarrow> rat \<Rightarrow> string" where
  "Float_MarshalJSON marshal f = marshal f"

text \<open>\<^verbatim>\<open>strconv.Itoa\<close>.\<close>

definition Itoa :: "int \<Rightarrow> string" where
  "Itoa k = (if k < 0 then CHR ''-'' # decimal (- k) else decimal k)"

section \<open>Options\<close>

datatype option_value = IntOption int | StringOption string | BoolOption bool

fun same_kind :: "option_value \<Rightarrow> option_value \<Rightarrow> bool" where
  "same_kind (IntOption _) (IntOption _) = True"
| "same_kind (StringOption _) (StringOption _) = True"
| "same_kind (BoolOption _) (BoolOption _) = True"
| "same_kind _ _ = False"

definition DEFAULT_GRAPH_REFRESH_INTERVAL :: int where "DEFAULT_GRAPH_REFRESH_INTERVAL = 10"
definition DEFAULT_PEER_REFRESH_INTERVAL :: int where "DEFAULT_PEER_REFRESH_INTERVAL = 30"
definition DEFAULT_LIQUIDITY_RESET_INTERVAL :: int where "DEFAULT_LIQUIDITY_RESET_INTERVAL = 300"
definition DEFAULT_LIQUIDITY_HALF_LIFE :: int where "DEFAULT_LIQUIDITY_HALF_LIFE = 60"
definition DEFAULT_RISK_PPM :: int where "DEFAULT_RISK_PPM = 200"
definition DEFAULT_NODE_MEMORY :: int where "DEFAULT_NODE_MEMORY = 24"
definition LIQUIDITY_REFRESH_INTERVAL :: int where "LIQUIDITY_REFRESH_INTERVAL = 10"

text \<open>The options that are registered, with their defaults.\<close>

definition registerOptions :: "(string \<times> option_value) list" where
  "registerOptions =
     [(''circular-graph-refresh'', IntOption DEFAULT_GRAPH_REFRESH_INTERVAL),
      (''circular-peer-refresh'', IntOption DEFAULT_PEER_REFRESH_INTERVAL),
      (''circular-liquidity-refresh'', IntOption DEFAULT_LIQUIDITY_RESET_INTERVAL),
      (''circular-liquidity-halflife'', IntOption DEFAULT_LIQUIDITY_HALF_LIFE),
      (''circular-node-memory'', IntOption DEFAULT_NODE_MEMORY),
      (''circular-risk-ppm'', IntOption DEFAULT_RISK_PPM),
      (''circular-attempts'', IntOption DEFAULT_ATTEMPTS),
      (''circular-max-hops'', IntOption DEFAULT_MAXHOPS),
      (''circular-max-node-fails'', IntOption DEFAULT_MAX_NODE_FAILS),
      (''circular-max-fail-streak'', IntOption DEFAULT_MAX_FAIL_STREAK),
      (''circular-max-time'', IntOption 0),
      (''circular-max-fee'', IntOption 0),
      (''circular-earn-days'', IntOption DEFAULT_EARN_DAYS),
      (''circular-fee-ratio'', StringOption ''0''),
      (''circular-save-stats'', BoolOption True)]"

text \<open>
  \<^verbatim>\<open>options[name].GetValue().(int)\<close> and the like: \<^const>\<open>None\<close> is the panic, of an option that was not
  registered or is of another kind.
\<close>

definition int_option :: "(string \<Rightarrow> option_value option) \<Rightarrow> string \<Rightarrow> int option" where
  "int_option options name = (case options name of Some (IntOption k) \<Rightarrow> Some k | _ \<Rightarrow> None)"

definition string_option :: "(string \<Rightarrow> option_value option) \<Rightarrow> string \<Rightarrow> string option" where
  "string_option options name = (case options name of Some (StringOption s) \<Rightarrow> Some s | _ \<Rightarrow> None)"

definition bool_option :: "(string \<Rightarrow> option_value option) \<Rightarrow> string \<Rightarrow> bool option" where
  "bool_option options name = (case options name of Some (BoolOption b) \<Rightarrow> Some b | _ \<Rightarrow> None)"

definition read_options :: "(string \<Rightarrow> option_value option) \<Rightarrow> Options option" where
  "read_options options =
     do {
       refresh \<leftarrow> int_option options ''circular-liquidity-refresh'';
       halflife \<leftarrow> int_option options ''circular-liquidity-halflife'';
       memory \<leftarrow> int_option options ''circular-node-memory'';
       risk \<leftarrow> int_option options ''circular-risk-ppm'';
       attempts \<leftarrow> int_option options ''circular-attempts'';
       hops \<leftarrow> int_option options ''circular-max-hops'';
       fails \<leftarrow> int_option options ''circular-max-node-fails'';
       streak \<leftarrow> int_option options ''circular-max-fail-streak'';
       time \<leftarrow> int_option options ''circular-max-time'';
       fee \<leftarrow> int_option options ''circular-max-fee'';
       days \<leftarrow> int_option options ''circular-earn-days'';
       ratio \<leftarrow> string_option options ''circular-fee-ratio'';
       stats \<leftarrow> bool_option options ''circular-save-stats'';
       Some \<lparr>opt_liquidity_refresh = refresh, opt_liquidity_halflife = halflife, opt_node_memory = memory,
          opt_risk_ppm = risk, opt_attempts = attempts, opt_max_hops = hops, opt_max_node_fails = fails,
          opt_max_fail_streak = streak, opt_max_time = time, opt_max_fee = fee, opt_earn_days = days,
          opt_fee_ratio = ratio, opt_save_stats = stats\<rparr>
     }"

text \<open>
  The timers; \<open>accepts\<close> says which texts the timer library reads.  The outer \<^const>\<open>None\<close> is the panic of
  an option, the inner one the end of the program at a text that is refused.
\<close>

datatype cron_job = RefreshGraph | RefreshPeers | RefreshLiquidity

definition addCronJob :: "(string \<Rightarrow> bool) \<Rightarrow> string \<Rightarrow> cron_job \<Rightarrow> (string \<times> cron_job) list \<Rightarrow> (string \<times> cron_job) list option" where
  "addCronJob accepts interval job jobs =
     (if accepts (''@every '' @ interval) then Some (jobs @ [(''@every '' @ interval, job)]) else None)"

definition setupCronJobs ::
    "(string \<Rightarrow> bool) \<Rightarrow> (string \<Rightarrow> option_value option) \<Rightarrow> (string \<times> cron_job) list option option" where
  "setupCronJobs accepts options =
     do {
       graph \<leftarrow> int_option options ''circular-graph-refresh'';
       peers \<leftarrow> int_option options ''circular-peer-refresh'';
       Some (do {
         jobs \<leftarrow> addCronJob accepts (Itoa graph @ ''m'') RefreshGraph [];
         jobs \<leftarrow> addCronJob accepts (Itoa peers @ ''s'') RefreshPeers jobs;
         addCronJob accepts (Itoa LIQUIDITY_REFRESH_INTERVAL @ ''m'') RefreshLiquidity jobs
       })
     }"

section \<open>The log of errors\<close>

definition stderrLog :: string where "stderrLog = ''stderr.log''"
definition stderrLogMaxSize :: nat where "stderrLogMaxSize = 10 * 2 ^ 20"

record log_errors =
  fails_rename_log :: bool
  fails_remove_log :: "string \<Rightarrow> bool"
  fails_open_log :: bool

text \<open>What the pattern \<^verbatim>\<open>stderr-*.log\<close> finds that is empty: the logs of single starts of earlier versions.\<close>

definition stale_log :: "disk \<Rightarrow> string \<Rightarrow> bool" where
  "stale_log d name \<longleftrightarrow> prefix ''stderr-'' name \<and> suffix ''.log'' name \<and> files d name = Some []"

definition openStderrLog :: "log_errors \<Rightarrow> string \<Rightarrow> disk \<Rightarrow> disk \<times> bool" where
  "openStderrLog e now d =
     (let large = (case files d stderrLog of None \<Rightarrow> False | Some s \<Rightarrow> length s > stderrLogMaxSize) in
      if large \<and> fails_rename_log e then (d, False)
      else
        let d = (if large then fs_exec (Rename stderrLog (stderrLog @ ''.old'')) d else d);
            d = d\<lparr>files := (\<lambda>f. if stale_log d f \<and> \<not> fails_remove_log e f then None else files d f)\<rparr> in
        if fails_open_log e then (d, False)
        else
          let before = (case files d stderrLog of None \<Rightarrow> '''' | Some s \<Rightarrow> s) in
          (d\<lparr>files := (files d)(stderrLog \<mapsto>
             before @ ''--- circular started at '' @ now @ '' ---'' @ [CHR 0x0A])\<rparr>, True))"

section \<open>The program\<close>

text \<open>\<^verbatim>\<open>GetNode\<close>: the node before it is initialised, all of whose other fields are zero.\<close>

definition GetNode :: Node where
  "GetNode =
     \<lparr>node_Id = '''', node_RiskPPM = 0,
      node_Defaults = \<lparr>def_Attempts = 0, def_MaxHops = 0, def_MaxNodeFails = 0, def_MaxFailStreak = 0, def_MaxTime = 0,
        def_MaxFee = 0, def_FeeRatio = 0, def_EarnDays = 0\<rparr>,
      Peers = [], scidToPeer = [], peersReadAt = 0, channelsReadAt = [], connectedAt = [], node_Graph = NewGraph,
      Stopped = False, candidates = [], liquidityRefresh = 0, liquidityHalfLife = 0, new_addr = 0\<rparr>"

text \<open>
  \<^verbatim>\<open>onInit\<close>; \<open>connects\<close> says whether the connection to lightningd can be made, \<open>init\<close> is
  \<^const>\<open>plugin_Init\<close> with what lightningd answers to it.  \<^const>\<open>None\<close> is the end of the program.
\<close>

definition onInit :: "bool \<Rightarrow> log_errors \<Rightarrow> bool \<Rightarrow> string \<Rightarrow> (Plugin \<Rightarrow> Plugin) \<Rightarrow> Plugin \<Rightarrow> Plugin option" where
  "onInit mkdir_fails e connects now init pl =
     (if \<not> has_dir (pl_Disk pl) \<and> mkdir_fails then None
      else
        let d = (if has_dir (pl_Disk pl) then pl_Disk pl else fs_exec Mkdir (pl_Disk pl));
            (d, ok) = openStderrLog e now d in
        if \<not> ok \<or> \<not> connects then None else Some (init (pl\<lparr>pl_Disk := d\<rparr>)))"

end
