(* ===== verification/ParameterClaims.thy ===== *)
theory ParameterClaims
  imports Parameters
begin

text \<open>
  What holds of the parameters, options and log of \<^theory_text>\<open>Parameters\<close>: numbers are read back as they are
  written, in either form; the options that are read are those that are registered; and opening the log
  loses no text.
\<close>

section \<open>Numbers\<close>

lemma digit_chars: "0 \<le> n \<Longrightarrow> n < 10 \<Longrightarrow> ''0123456789'' ! nat n \<in> set ''0123456789''"
  by (rule nth_mem) simp

lemma decimal_digits: "0 \<le> n \<Longrightarrow> decimal n \<noteq> [] \<and> set (decimal n) \<subseteq> set ''0123456789''"
proof (induction n rule: decimal.induct)
  case (1 n)
  show ?case
  proof (cases "n < 10")
    case True
    then show ?thesis using digit_chars [of n] 1 by (subst (1 2) decimal.simps) simp
  next
    case False
    with 1 have "set (decimal (n div 10)) \<subseteq> set ''0123456789''" by simp
    moreover have "''0123456789'' ! nat (n mod 10) \<in> set ''0123456789''" by (intro digit_chars) simp_all
    ultimately show ?thesis using False by (subst (1 2) decimal.simps) auto
  qed
qed

lemma Itoa_chars: "Itoa k \<noteq> []" "set (Itoa k) \<subseteq> set ''-0123456789''"
  using decimal_digits [of k] decimal_digits [of "- k"] by (auto simp: Itoa_def)

lemma Itoa_not_space: "c \<in> set (Itoa k) \<Longrightarrow> \<not> is_space c"
  using Itoa_chars(2) [of k] by (auto simp: is_space_def)

lemma dropWhile_spaces: "list_all is_space l \<Longrightarrow> s = [] \<or> \<not> is_space (hd s) \<Longrightarrow> dropWhile is_space (l @ s) = s"
  by (induction l) (auto simp: dropWhile_eq_self_iff)

lemma TrimSpace_padded:
  assumes "list_all is_space l" "list_all is_space r" "s \<noteq> []" "\<not> is_space (hd s)" "\<not> is_space (last s)"
  shows "TrimSpace (l @ s @ r) = s"
proof -
  have "dropWhile is_space (l @ s @ r) = s @ r" using assms by (intro dropWhile_spaces) auto
  moreover have "dropWhile is_space (rev r @ rev s) = rev s" using assms by (intro dropWhile_spaces) (auto simp: hd_rev)
  ultimately show ?thesis by (simp add: TrimSpace_def)
qed

lemma TrimSpace_Itoa: "list_all is_space l \<Longrightarrow> list_all is_space r \<Longrightarrow> TrimSpace (l @ Itoa k @ r) = Itoa k"
  using Itoa_not_space [of _ k] Itoa_chars(1) [of k] by (intro TrimSpace_padded) auto

definition quoted :: "string \<Rightarrow> string" where "quoted s = [CHR 0x22] @ s @ [CHR 0x22]"

lemma TrimSpace_quoted: "list_all is_space l \<Longrightarrow> list_all is_space r \<Longrightarrow> TrimSpace (l @ quoted s @ r) = quoted s"
  by (rule TrimSpace_padded) (simp_all add: quoted_def is_space_def)

text \<open>
C32
A whole number of a call is read as itself, whichever way the client sends it: as a bare JSON number or,
as lightning-cli sends maxfee=-1, in a string, with spaces around it or not. Every whole number that a
float64 holds exactly is (up to 2^53 in size), and a parameter that is read never ends up outside that.
What is relied on is that strconv.ParseFloat reads the decimal form of the number, and encoding/json a
string of digits.
\<close>
theorem number_read_back:
  assumes "\<bar>k\<bar> \<le> 2 ^ 53" "list_all is_space l" "list_all is_space r"
    and "ParseFloat (Itoa k) = Some (of_int k)" "unquote (l @ quoted (Itoa k) @ r) = Some (Itoa k)"
  shows "Int_UnmarshalJSON unquote ParseFloat (l @ Itoa k @ r) i = (k, True)
    \<and> Int_UnmarshalJSON unquote ParseFloat (l @ quoted (Itoa k) @ r) i = (k, True)
    \<and> (if snd (Int_UnmarshalJSON unquote ParseFloat any i)
        then \<bar>fst (Int_UnmarshalJSON unquote ParseFloat any i)\<bar> \<le> 2 ^ 53
        else fst (Int_UnmarshalJSON unquote ParseFloat any i) = i)"
proof (intro conjI)
  have whole: "math_Trunc (of_int k) = k" by (simp add: math_Trunc_def)
  have "\<not> 2 ^ 53 < \<bar>of_int k :: rat\<bar>"
  proof -
    have "\<bar>of_int k :: rat\<bar> = of_int \<bar>k\<bar>" by simp
    also have "\<dots> \<le> of_int (2 ^ 53)" using assms(1) by (simp only: of_int_le_iff)
    finally show ?thesis by simp
  qed
  then have int: "parseNumber unquote ParseFloat s = Some (of_int k) \<Longrightarrow> Int_UnmarshalJSON unquote ParseFloat s i = (k, True)" for s
    by (simp add: Int_UnmarshalJSON_def whole)
  have plain: "Itoa k \<noteq> ''null''" "\<not> prefix [CHR 0x22] (Itoa k)"
    using Itoa_chars [of k] by (auto simp: prefix_def)
  show "Int_UnmarshalJSON unquote ParseFloat (l @ Itoa k @ r) i = (k, True)"
    by (rule int) (simp add: parseNumber_def TrimSpace_Itoa assms plain)
  have quote: "quoted s \<noteq> ''null''" "prefix [CHR 0x22] (quoted s)" for s by (auto simp: quoted_def)
  have "TrimSpace (Itoa k) = Itoa k" using TrimSpace_Itoa [of "[]" "[]" k] by simp
  then show "Int_UnmarshalJSON unquote ParseFloat (l @ quoted (Itoa k) @ r) i = (k, True)"
    by (intro int) (simp add: parseNumber_def TrimSpace_quoted assms quote)
  show "if snd (Int_UnmarshalJSON unquote ParseFloat any i)
        then \<bar>fst (Int_UnmarshalJSON unquote ParseFloat any i)\<bar> \<le> 2 ^ 53
        else fst (Int_UnmarshalJSON unquote ParseFloat any i) = i"
  proof (cases "parseNumber unquote ParseFloat any")
    case (Some f)
    have "\<bar>math_Trunc f\<bar> \<le> 2 ^ 53" if "f = of_int (math_Trunc f)" "\<bar>f\<bar> \<le> 2 ^ 53"
    proof -
      have "of_int \<bar>math_Trunc f\<bar> \<le> (of_int (2 ^ 53) :: rat)" using that by simp
      then show ?thesis by (simp only: of_int_le_iff)
    qed
    with Some show ?thesis by (auto simp: Int_UnmarshalJSON_def)
  qed (simp add: Int_UnmarshalJSON_def)
qed

theorem number_read_back_witness:
  "Int_UnmarshalJSON (\<lambda>_. Some ''-1'') (\<lambda>_. Some (- 1)) (quoted ''-1'') 7 = (- 1, True)"
proof -
  have k: "Itoa (- 1) = ''-1''" by code_simp
  from number_read_back [of "- 1" "[]" "[]" "\<lambda>_. Some (- 1)" "\<lambda>_. Some ''-1''" 7 "[]"] show ?thesis
    by (simp add: k)
qed

section \<open>Options\<close>

text \<open>lightningd answers each option that was registered, with a value of its kind.\<close>

definition answered :: "(string \<times> option_value) list \<Rightarrow> (string \<Rightarrow> option_value option) \<Rightarrow> bool" where
  "answered registered options \<longleftrightarrow>
     list_all (\<lambda>(name, default). case options name of None \<Rightarrow> False | Some v \<Rightarrow> same_kind default v) registered"

lemma kind_options:
  "(case options name of None \<Rightarrow> False | Some v \<Rightarrow> same_kind (IntOption k) v) \<longleftrightarrow> int_option options name \<noteq> None"
  "(case options name of None \<Rightarrow> False | Some v \<Rightarrow> same_kind (StringOption s) v) \<longleftrightarrow> string_option options name \<noteq> None"
  "(case options name of None \<Rightarrow> False | Some v \<Rightarrow> same_kind (BoolOption b) v) \<longleftrightarrow> bool_option options name \<noteq> None"
  by (auto simp: int_option_def string_option_def bool_option_def elim!: same_kind.elims split: option.splits option_value.splits)

text \<open>The start does not panic at its options, and the defaults are those of the documentation.\<close>

lemma options_read:
  assumes "answered registerOptions options"
  shows "read_options options \<noteq> None" "setupCronJobs accepts options \<noteq> None"
  using assms
  by (auto simp: answered_def registerOptions_def kind_options read_options_def setupCronJobs_def bind_eq_Some_conv)

lemma default_options:
  "map_option (\<lambda>opts. (opt_attempts opts, opt_max_hops opts, opt_risk_ppm opts, opt_fee_ratio opts)) (read_options (map_of registerOptions))
     = Some (DEFAULT_ATTEMPTS, DEFAULT_MAXHOPS, 200, ''0'')"
  "setupCronJobs (\<lambda>_. True) (map_of registerOptions)
     = Some (Some [(''@every 10m'', RefreshGraph), (''@every 30s'', RefreshPeers), (''@every 10m'', RefreshLiquidity)])"
  by code_simp+

section \<open>The log\<close>

text \<open>
  What earlier starts wrote stays: under its name, at the front of the log, or, of a log that grew too
  large, in the old log, whose earlier text is the only one that is given up.
\<close>

lemma log_kept:
  assumes "files d f = Some s" "s \<noteq> []" "openStderrLog e now d = (d', ok)"
  shows "files d' f = Some s \<or> f = stderrLog \<and> (\<exists>t. files d' f = Some (s @ t))
    \<or> f = stderrLog \<and> files d' (stderrLog @ ''.old'') = Some s
    \<or> f = stderrLog @ ''.old'' \<and> (case files d stderrLog of None \<Rightarrow> False | Some s \<Rightarrow> stderrLogMaxSize < length s)"
  using assms
  by (auto simp: openStderrLog_def Let_def stale_log_def stderrLog_def split: if_splits option.splits)

lemma log_bounded:
  assumes "openStderrLog e now d = (d', True)" "files d' stderrLog = Some s"
  shows "length s \<le> stderrLogMaxSize + length now + 32"
  using assms
  by (auto simp: openStderrLog_def Let_def stale_log_def stderrLog_def not_less split: if_splits option.splits)

text \<open>What was learned is read as if the log had not been opened.\<close>

lemma log_leaves_saved:
  assumes "openStderrLog e now d = (d', ok)"
  shows "LoadLearned unmarshal legacy d' = LoadLearned unmarshal legacy d"
proof -
  have "files d' f = files d f" if "\<not> prefix ''stderr'' f" for f
  proof -
    have "prefix ''stderr'' f" if "prefix ''stderr-'' f" using that by (auto simp: prefix_def)
    moreover have "prefix ''stderr'' stderrLog" "prefix ''stderr'' (stderrLog @ ''.old'')" by (simp_all add: stderrLog_def)
    ultimately have "f \<noteq> stderrLog" "f \<noteq> stderrLog @ ''.old''" "\<not> prefix ''stderr-'' f" using that by auto
    then show ?thesis using assms
      by (auto simp: openStderrLog_def stale_log_def Let_def split: if_splits option.splits)
  qed
  then have same: "files d' LEARNED_FILE = files d LEARNED_FILE" "files d' (LEARNED_FILE @ ''.old'') = files d (LEARNED_FILE @ ''.old'')"
    "files d' legacyGraphFile = files d legacyGraphFile" "files d' (legacyGraphFile @ ''.old'') = files d (legacyGraphFile @ ''.old'')"
    by (simp_all add: LEARNED_FILE_def legacyGraphFile_def)
  then have "readLearned unmarshal d' f = readLearned unmarshal d f" if "f \<in> {LEARNED_FILE, LEARNED_FILE @ ''.old''}" for f
    using that by (auto simp: readLearned_def)
  moreover have "readLegacyGraph legacy d' f = readLegacyGraph legacy d f" if "f \<in> {legacyGraphFile, legacyGraphFile @ ''.old''}" for f
    using that same by (auto simp: readLegacyGraph_def)
  ultimately show ?thesis by (simp add: LoadLearned_def List.map_filter_def)
qed

end
