(* ===== verification/StartClaims.thy ===== *)
theory StartClaims
  imports ReportClaims SavedClaims FailureClaims ParameterClaims
begin

text \<open>
  Starting the plugin: whatever was saved, a start leaves the graph and the peers well formed, and what
  was saved is written again only after it has been applied; and the graph stays well formed from then
  on, through every operation there is.
\<close>

section \<open>The graph\<close>

text \<open>Our channels as lightningd lists them are between the nodes that their ids name.\<close>

definition channel_fits :: "(channel_id \<Rightarrow> node_id \<times> node_id) \<Rightarrow> node_id \<Rightarrow> PeerChannel \<Rightarrow> bool" where
  "channel_fits ends self ch \<longleftrightarrow>
     ends (dir_id (pc_ShortChannelId ch) self (pc_PeerId ch)) = (self, pc_PeerId ch)
     \<and> ends (dir_id (pc_ShortChannelId ch) (pc_PeerId ch) self) = (pc_PeerId ch, self)"

lemma channel_fits_graph:
  "channel_fits ends (node_Id n) ch \<Longrightarrow> fits_ends ends (ConvertPeerChannelToGraphChannel now n ch b)"
  by (cases b) (simp_all add: channel_fits_def ConvertPeerChannelToGraphChannel_def fits_ends_def NewChannel_def GlChannel.defs)

lemma add_local_ok:
  assumes "graph_ok ends (node_Graph n)" "channel_fits ends (node_Id n) ch"
  shows "graph_ok ends (node_Graph (add_local now n ch b))"
  using graph_ok_add [OF assms(1) channel_fits_graph [OF assms(2)]] by (simp add: add_local_def Let_def split_beta)

lemma addLocal_ok:
  assumes "graph_ok ends (node_Graph n)" "list_all (channel_fits ends (node_Id n)) chs"
  shows "graph_ok ends (node_Graph (addLocalChannelsToGraph now n chs))"
  using assms unfolding addLocalChannelsToGraph_def
  by (induction chs arbitrary: n) (simp_all add: add_local_ok)

text \<open>The open channels that a first reading of the peers finds are among those listed.\<close>

definition channels_among :: "PeerChannel set \<Rightarrow> (node_id \<times> Peer) list \<Rightarrow> bool" where
  "channels_among C m \<longleftrightarrow> (\<forall>ip \<in> set m. set (peer_Channels (snd ip)) \<subseteq> C)"

lemma update_subset: "set (AList.update k v m) \<subseteq> insert (k, v) (set m)"
  by (induction m) auto

lemma channels_among_update:
  "\<lbrakk>channels_among C m; set (peer_Channels p) \<subseteq> C\<rbrakk> \<Longrightarrow> channels_among C (AList.update i p m)"
  using update_subset [of i p m] by (fastforce simp: channels_among_def)

lemma channels_among_at: "\<lbrakk>channels_among C m; map_of m i = Some p\<rbrakk> \<Longrightarrow> set (peer_Channels p) \<subseteq> C"
  by (force simp: channels_among_def dest: map_of_SomeD)

lemma channels_amongD: "\<lbrakk>channels_among C m; (i, p) \<in> set m; ch \<in> set (peer_Channels p)\<rbrakk> \<Longrightarrow> ch \<in> C"
  by (fastforce simp: channels_among_def)

lemma listed_peers_among: "channels_among C (fst (listed_peers a peers))"
proof -
  have "channels_among C (fst (foldl (\<lambda>(m, a) (i, conn).
        (AList.update i \<lparr>addr = a, peer_Id = i, Connected = conn, peer_Channels = []\<rparr> m, a + 1)) st peers))"
    if "channels_among C (fst st)" for st
    using that by (induction peers arbitrary: st) (auto simp: channels_among_update split_beta)
  from this [of "([], a)"] show ?thesis by (simp add: listed_peers_def channels_among_def)
qed

lemma add_open_among:
  assumes "channels_among C (fst st)" "ch \<in> C"
  shows "channels_among C (fst (add_open st ch))"
proof (cases "map_of (fst st) (pc_PeerId ch)")
  case (Some p)
  with channels_among_at [OF assms(1) this] assms show ?thesis
    by (auto simp: add_open_def split_beta Let_def intro!: channels_among_update)
qed (use assms in \<open>auto simp: add_open_def split_beta Let_def intro!: channels_among_update\<close>)

lemma keep_connection_among: "channels_among C m \<Longrightarrow> channels_among C (keep_connection old m i)"
  using channels_among_at [of C m i]
  by (auto simp: keep_connection_def intro!: channels_among_update split: option.split)

lemma setPeers_among:
  assumes "channelsReadAt n = []" "setPeers n peers channels readAt = (n', opened)"
  shows "set opened \<subseteq> set channels"
proof -
  obtain fresh a where fresh: "foldl add_open (listed_peers (new_addr n) peers) channels = (fresh, a)" by fastforce
  have "channels_among (set channels) (fst (foldl add_open st chs))"
    if "channels_among (set channels) (fst st)" "set chs \<subseteq> set channels" for st chs
    using that by (induction chs arbitrary: st) (simp_all add: add_open_among)
  from this [OF listed_peers_among [of _ "new_addr n" peers], of channels] have "channels_among (set channels) fresh"
    by (simp add: fresh)
  moreover have "channels_among C (foldl (keep_connection old) m is)" if "channels_among C m" for C old m "is"
    using that by (induction "is" arbitrary: m) (simp_all add: keep_connection_among)
  ultimately have "channels_among (set channels) (foldl (keep_connection (Peers n)) fresh (map fst (filter (\<lambda>(i, t). t > readAt) (connectedAt n))))"
    by blast
  then show ?thesis
    using assms fresh by (auto simp: setPeers_def Let_def dest: channels_amongD split: if_splits)
qed

lemma first_refreshPeers_ok:
  assumes "graph_ok ends (node_Graph n)" "channelsReadAt n = []"
    and "\<And>chs. channels = Some chs \<Longrightarrow> list_all (channel_fits ends (node_Id n)) chs"
  shows "graph_ok ends (node_Graph (fst (refreshPeers now n peers channels readAt)))"
proof (cases peers)
  case (Some ps)
  show ?thesis
  proof (cases channels)
    case (Some chs)
    obtain n' opened where set: "setPeers n ps chs readAt = (n', opened)" by fastforce
    have n': "node_Graph n' = node_Graph n" "node_Id n' = node_Id n"
      using set by (auto simp: setPeers_def Let_def split_beta split: if_splits)
    have "list_all (channel_fits ends (node_Id n)) opened"
      using assms(3) [OF Some] setPeers_among [OF assms(2) set] by (auto simp: list_all_iff)
    with addLocal_ok [of ends n' opened now] assms(1) n' show ?thesis
      using \<open>peers = Some ps\<close> by (simp add: refreshPeers_def Some set)
  qed (simp add: refreshPeers_def assms(1) \<open>peers = Some ps\<close>)
qed (simp add: refreshPeers_def assms(1))

section \<open>What was saved\<close>

lemma avoid_all_ok: "graph_ok ends (avoid_keys g ks) = graph_ok ends g"
proof -
  have "Inbound (avoid_keys g ks) = Inbound g"
    by (induction ks arbitrary: g) (auto simp: avoid_key_def split_beta)
  then show ?thesis by (intro graph_ok_cong) simp_all
qed

lemma node_scores_ok: "graph_ok ends (fst (ApplyNodeScores g scores)) = graph_ok ends g"
proof -
  have "graph_ok ends (fst (foldl ApplyNodeScore st scores)) = graph_ok ends (fst st)" for st
    by (induction scores arbitrary: st) (simp_all add: ApplyNodeScore_def split_beta)
  then show ?thesis by (simp add: ApplyNodeScores_def)
qed

lemma apply_saved_ok:
  assumes "graph_ok ends (node_Graph n)"
  shows "graph_ok ends (node_Graph (apply_saved since state n))"
  using assms ApplyBeliefs_ok [OF assms, of "ls_Liquidity state" since]
  by (simp add: apply_saved_def Let_def avoid_all_ok node_scores_ok restoreCandidates_def)

lemma save_keeps_graph:
  "node_Graph (fst (SaveLearned marshal mpow now e n d)) = node_Graph n
    \<or> (\<exists>scores. node_Graph (fst (SaveLearned marshal mpow now e n d)) = (node_Graph n)\<lparr>nodeScores := scores\<rparr>)"
  by (auto simp: SaveLearned_def learned_of_def NodeScores_def Let_def split_beta)

lemma applyLearned_ok:
  assumes "graph_ok ends (node_Graph (pl_Node pl))"
  shows "graph_ok ends (node_Graph (pl_Node (applyLearned marshal mpow now e pl)))"
proof -
  let ?n = "case pendingBeliefs pl of None \<Rightarrow> pl_Node pl
    | Some state \<Rightarrow> apply_saved ((now - liquidityRefresh (pl_Node pl)) div 1000000000) state (pl_Node pl)"
  let ?m = "if localChannelIds ?n \<noteq> {} then fst (pruneCandidates ?n (localChannelIds ?n)) else ?n"
  have "graph_ok ends (node_Graph ?m)"
    using assms apply_saved_ok by (auto simp: pruneCandidates_def split: option.split)
  moreover obtain n d ok where saved: "SaveLearned marshal mpow (now div 1000000000) e ?m (pl_Disk pl) = (n, d, ok)"
    by (metis prod_cases3)
  ultimately have "graph_ok ends (node_Graph n)"
    using save_keeps_graph [of marshal mpow "now div 1000000000" e ?m "pl_Disk pl"] by auto
  then show ?thesis unfolding applyLearned_def Let_def saved by simp
qed

lemma start_refresh_ok:
  assumes "graph_ok ends (node_Graph n)" "\<And>cs. channelList = Some cs \<Longrightarrow> list_all (fits_ends ends) cs"
  shows "graph_ok ends (node_Graph (fst (refreshGraph now (\<lambda>n. n) n channelList nodes)))"
proof (cases channelList)
  case (Some cs)
  with assms have "graph_ok ends (fst (SyncChannels (node_Graph n) cs (localChannelIds n) (word_of_int now)))"
    by (intro SyncChannels_ok) (auto simp: list_all_iff)
  then show ?thesis
    by (auto simp: refreshGraph_def Some Let_def RefreshAliases_def intro!: graph_keep split: option.split)
qed (simp add: refreshGraph_def assms(1))

section \<open>Every state of the graph\<close>

text \<open>
  The operations of \<^verbatim>\<open>graph/\<close> that change a graph, each with any arguments it can be called with: syncs
  and refreshes, our own channels, gossip, pruning, what payments teach, true or not, what a file of
  saved beliefs says, fading and resetting, the avoid list, inbound fees, aliases and node scores.
\<close>

inductive graph_step :: "(channel_id \<Rightarrow> node_id \<times> node_id) \<Rightarrow> Graph \<Rightarrow> Graph \<Rightarrow> bool" for ends where
  synced: "list_all (fits_ends ends) cs \<Longrightarrow> graph_step ends g (fst (SyncChannels g cs keep asOf))"
| refreshed: "list_all (fits_ends ends) cs \<Longrightarrow> graph_step ends g (refreshChannels g cs)"
| own_channel: "fits_ends ends c \<Longrightarrow>
    graph_step ends g (put_channel (fst (AddChannel g c)) (channelId c) (snd (AddChannel g c)))"
| deleted: "channel_at g i = Some c \<Longrightarrow> graph_step ends g (DeleteChannel g c)"
| updated: "graph_step ends g (fst (ApplyChannelUpdate g u))"
| pruned: "graph_step ends g (PruneChannels g t)"
| dear: "graph_step ends g (fst (MarkDearChannels g))"
| at_most: "graph_step ends g (LearnUpperBound now g i msat)"
| at_least: "graph_step ends g (LearnLowerBound now g i msat)"
| paid: "graph_step ends g (LearnPayment now g i msat)"
| unusable: "graph_step ends g (MarkUnusable now g i)"
| restored: "graph_step ends g (fst (ApplyBeliefs g bs since))"
| reset: "graph_step ends g (fst (GraphBeliefs.RefreshLiquidity now g threshold))"
| decayed: "graph_step ends g (fst (DecayLiquidity mpow now g h))"
| avoided: "graph_step ends g (avoid_key g key until)"
| unavoided: "graph_step ends g (Unavoid g key)"
| avoid_read: "graph_step ends g (fst (Avoided g now))"
| fee: "graph_step ends g (SetInboundFee g i b r)"
| no_fee: "graph_step ends g (fst (DeleteInboundFee g i))"
| aliases: "graph_step ends g (RefreshAliases g nodes)"
| memory: "graph_step ends g (SetNodeMemory g h)"
| node_failed: "graph_step ends g (NodeFailed mpow now g n)"
| node_forwarded: "graph_step ends g (NodeForwarded mpow now g n)"
| scores_read: "graph_step ends g (fst (NodeScores mpow now g))"
| scores: "graph_step ends g (fst (ApplyNodeScores g ss))"

inductive graph_reachable :: "(channel_id \<Rightarrow> node_id \<times> node_id) \<Rightarrow> Graph \<Rightarrow> bool" for ends where
  new: "graph_reachable ends NewGraph"
| steps: "graph_reachable ends g \<Longrightarrow> graph_step ends g g' \<Longrightarrow> graph_reachable ends g'"

text \<open>What touches neither the channels nor the adjacency list.\<close>

lemma side_tables_same:
  "Channels (avoid_key g key until) = Channels g" "Inbound (avoid_key g key until) = Inbound g"
  "Channels (fst (Avoided g now)) = Channels g" "Inbound (fst (Avoided g now)) = Inbound g"
  "Channels (SetInboundFee g i b r) = Channels g" "Inbound (SetInboundFee g i b r) = Inbound g"
  "Channels (fst (DeleteInboundFee g i)) = Channels g" "Inbound (fst (DeleteInboundFee g i)) = Inbound g"
  "Channels (RefreshAliases g nodes) = Channels g" "Inbound (RefreshAliases g nodes) = Inbound g"
  "Channels (SetNodeMemory g h) = Channels g" "Inbound (SetNodeMemory g h) = Inbound g"
  "Channels (changeNode mpow now g n change) = Channels g" "Inbound (changeNode mpow now g n change) = Inbound g"
  "Channels (fst (NodeScores mpow now g)) = Channels g" "Inbound (fst (NodeScores mpow now g)) = Inbound g"
  by (simp_all add: avoid_key_def Avoided_def SetInboundFee_def DeleteInboundFee_def RefreshAliases_def SetNodeMemory_def
      changeNode_def NodeScores_def Let_def split: option.split)

lemma graph_step_ok:
  assumes "graph_step ends g g'" "graph_ok ends g"
  shows "graph_ok ends g'"
  using assms
proof (cases rule: graph_step.cases)
  case (synced cs keep asOf)
  then show ?thesis using assms(2) by (simp add: SyncChannels_ok list_all_iff)
next
  case (refreshed cs)
  then show ?thesis using assms(2) by (simp add: refreshChannels_ok list_all_iff)
next
  case (own_channel c)
  then show ?thesis using graph_ok_add [OF assms(2)] by simp
next
  case (deleted i c)
  then show ?thesis using assms(2) by (simp add: DeleteChannel_ok)
qed (use assms(2) in \<open>simp_all add: graph_keep node_scores_ok NodeFailed_def NodeForwarded_def side_tables_same
  graph_ok_cong [OF side_tables_same(1,2)] graph_ok_cong [OF side_tables_same(3,4)] graph_ok_cong [OF side_tables_same(5,6)]
  graph_ok_cong [OF side_tables_same(7,8)] graph_ok_cong [OF side_tables_same(9,10)] graph_ok_cong [OF side_tables_same(11,12)]
  graph_ok_cong [OF side_tables_same(13,14)] graph_ok_cong [OF side_tables_same(15,16)]\<close>)

text \<open>The node reaches its graph only by these steps, for instance when it reads its peers, refreshes the
  graph, reads the gossip store and applies a saved file.\<close>

lemma addLocal_reachable:
  assumes "graph_reachable ends (node_Graph n)" "list_all (channel_fits ends (node_Id n)) chs"
  shows "graph_reachable ends (node_Graph (addLocalChannelsToGraph now n chs))"
proof -
  have one: "graph_reachable ends (node_Graph (add_local now m ch b)) \<and> node_Id (add_local now m ch b) = node_Id m"
    if "graph_reachable ends (node_Graph m)" "channel_fits ends (node_Id m) ch" for m ch b
    using steps [OF that(1) own_channel [OF channel_fits_graph [OF that(2)]]] by (simp add: add_local_def Let_def split_beta)
  show ?thesis using assms unfolding addLocalChannelsToGraph_def
    by (induction chs arbitrary: n) (simp_all add: one)
qed

lemma refreshGraph_reachable:
  assumes "graph_reachable ends (node_Graph n)" "case channelList of None \<Rightarrow> True | Some cs \<Rightarrow> list_all (fits_ends ends) cs"
  shows "graph_reachable ends (node_Graph (fst (refreshGraph now (\<lambda>n. n) n channelList nodes)))"
  using assms by (auto simp: refreshGraph_def Let_def split: option.split
      intro!: steps [OF _ aliases] steps [OF _ dear] steps [OF _ pruned] steps [OF _ synced])

lemma apply_saved_reachable:
  assumes "graph_reachable ends (node_Graph n)"
  shows "graph_reachable ends (node_Graph (apply_saved since state n))"
proof -
  have "graph_reachable ends (avoid_keys g ks)" if "graph_reachable ends g" for g ks
    using that by (induction ks arbitrary: g) (auto intro: steps [OF _ avoided])
  then show ?thesis using assms
    by (auto simp: apply_saved_def Let_def restoreCandidates_def intro!: steps [OF _ scores] steps [OF _ restored])
qed

lemma follow_store_reachable:
  assumes "graph_reachable ends g"
  shows "graph_reachable ends (fst (follow_store wait store offset g))"
proof -
  have update: "graph_reachable ends (parseChannelUpdate h body)" if "graph_reachable ends h" for h body
    using that by (auto simp: parseChannelUpdate_def Let_def split: option.split
        intro: steps [OF _ updated] steps [OF _ fee] steps [OF _ no_fee])
  then have entry: "graph_reachable ends (apply_record flags rec h)" if "graph_reachable ends h" for h flags rec
    using that by (simp add: apply_record_def)
  show ?thesis using assms
  proof (induction wait store offset g rule: follow_store.induct)
    case (1 wait store offset g)
    show ?case
      by (cases "readGossipRecord wait (drop offset store)")
        (use "1.IH" entry "1.prems" in \<open>auto simp: follow_store.simps [of wait store offset]\<close>)
  qed
qed

text \<open>
C16
Whatever operations a graph goes through, in any order and with any arguments, refreshes of the graph
and of our own channels, gossip, pruning, anything learned from payments, restored from a file or
forgotten, the adjacency list the search walks and the map of channels agree: no key and no listing
occurs twice, every channel is stored under its own id, and a scid is listed from one node to another
exactly if that channel is stored with those ends.  The one condition is on the channels that are
listed or are our own: a scid with a direction always names the same two nodes (\<open>ends\<close>), as it does on
the chain.
\<close>
theorem graph_always_ok:
  assumes "graph_reachable ends g"
  shows "graph_ok ends g"
  using assms by induction (simp_all add: graph_ok_NewGraph graph_step_ok)

definition sample_restored :: Graph where
  "sample_restored = LearnPayment 300 (fst (ApplyBeliefs (fst (SyncChannels NewGraph sample_listing {} 0))
     (Beliefs sample_failed) 0)) ''2x1x1/0'' 100000000"

theorem graph_always_ok_witness: "graph_ok sample_ends sample_restored"
proof (rule graph_always_ok)
  have "list_all (fits_ends sample_ends) sample_listing" using sample_fits by (simp add: list_all_iff)
  then show "graph_reachable sample_ends sample_restored"
    unfolding sample_restored_def by (intro steps [OF _ paid] steps [OF _ restored] steps [OF _ synced] new)
qed

section \<open>The start\<close>

lemma loadLearned_frame [simp]:
  "pl_Node (loadLearned unmarshal legacy pl) = pl_Node pl" "pl_Disk (loadLearned unmarshal legacy pl) = pl_Disk pl"
  "learnedApplied (loadLearned unmarshal legacy pl) = learnedApplied pl"
  by (simp_all add: loadLearned_def split: option.split prod.split)

definition same_peers :: "Node \<Rightarrow> Node \<Rightarrow> bool" where
  "same_peers n n' \<longleftrightarrow> Peers n' = Peers n \<and> scidToPeer n' = scidToPeer n \<and> node_Id n' = node_Id n"

lemma same_peers_current: "same_peers n n' \<Longrightarrow> peers_current n' = peers_current n"
  by (intro peers_current_cong) (simp_all add: same_peers_def)

lemma applyLearned_same: "same_peers (pl_Node pl) (pl_Node (applyLearned marshal mpow now e pl))"
proof -
  have saved: "same_peers n (apply_saved since state n)" for since state n
    by (simp add: same_peers_def apply_saved_def Let_def restoreCandidates_def)
  have pruned: "same_peers n (fst (pruneCandidates n ids))" for n ids by (simp add: same_peers_def pruneCandidates_def)
  have save: "same_peers n (fst (SaveLearned marshal mpow t e n d))" for n t d
    by (simp add: same_peers_def SaveLearned_def learned_of_def Let_def split_beta)
  have if_same: "same_peers a b \<Longrightarrow> same_peers a c \<Longrightarrow> same_peers a (if P then c else b)" for a b c P by simp
  have trans: "same_peers a b \<Longrightarrow> same_peers b c \<Longrightarrow> same_peers a c" for a b c by (simp add: same_peers_def)
  have refl: "same_peers n n" for n by (simp add: same_peers_def)
  let ?n = "case pendingBeliefs pl of None \<Rightarrow> pl_Node pl
    | Some state \<Rightarrow> apply_saved ((now - liquidityRefresh (pl_Node pl)) div 1000000000) state (pl_Node pl)"
  let ?m = "if localChannelIds ?n \<noteq> {} then fst (pruneCandidates ?n (localChannelIds ?n)) else ?n"
  have n: "same_peers (pl_Node pl) ?n" by (cases "pendingBeliefs pl") (simp_all add: saved refl)
  then have "same_peers (pl_Node pl) ?m" using trans [OF n pruned] by (rule if_same)
  then have "same_peers (pl_Node pl) (fst (SaveLearned marshal mpow (now div 1000000000) e ?m (pl_Disk pl)))"
    by (rule trans [OF _ save])
  moreover obtain n d ok where saved: "SaveLearned marshal mpow (now div 1000000000) e ?m (pl_Disk pl) = (n, d, ok)"
    by (metis prod_cases3)
  ultimately show ?thesis unfolding applyLearned_def Let_def saved by simp
qed

lemma applyLearned_applied [simp]: "learnedApplied (applyLearned marshal mpow now e pl)"
  unfolding applyLearned_def Let_def by (auto split: prod.split)

lemma refreshPeers_Id [simp]: "node_Id (fst (refreshPeers now n peers chs readAt)) = node_Id n"
proof -
  have "node_Id (addLocalChannelsToGraph now m opened) = node_Id m" for m opened
    unfolding addLocalChannelsToGraph_def by (induction opened arbitrary: m) simp_all
  then show ?thesis
    by (auto simp: refreshPeers_def setPeers_def Let_def split_beta split: option.split)
qed

lemma refreshGraph_frame:
  "same_peers n (fst (refreshGraph now (\<lambda>n. n) n channelList nodes))"
  "snd (refreshGraph now (\<lambda>n. n) n channelList nodes) \<longleftrightarrow> channelList \<noteq> None"
  by (auto simp: same_peers_def refreshGraph_def Let_def split: option.split)

text \<open>
C15
A start leaves the node well formed, whatever was saved and whichever of lightningd's answers fail:
when what lightningd lists names each channel's nodes as its id does, the graph afterwards holds each
channel once, under its id, with an adjacency list that is exactly its channels; the index of our
channels agrees with the peers; and what was saved counts as applied exactly when the channels could be
read, so that closing the plugin before then saves nothing over it.
\<close>
theorem start_well_formed:
  assumes "peers_current (pl_Node pl)" "channelsReadAt (pl_Node pl) = []" "\<not> learnedApplied pl"
    and "case peerChannels of None \<Rightarrow> True | Some chs \<Rightarrow> list_all (channel_fits ends me) chs"
    and "case channelList of None \<Rightarrow> True | Some cs \<Rightarrow> list_all (fits_ends ends) cs"
    and "pl' = plugin_Init (loadLearned unmarshal legacy) (applyLearned marshal mpow now_ns e) ParseFloat opts me now
      peers peerChannels channelList nodes pl"
  shows "graph_ok ends (node_Graph (pl_Node pl')) \<and> peers_current (pl_Node pl') \<and> node_Id (pl_Node pl') = me
    \<and> (learnedApplied pl' \<longleftrightarrow> channelList \<noteq> None)
    \<and> (if channelList = None then pl_Disk (plugin_Close marshal mpow later e' pl') = pl_Disk pl else True)"
proof -
  obtain n memory stats where opts: "setOptions ParseFloat opts (pl_Node pl) = (n, memory, stats)" by (metis prod_cases3)
  have n: "same_peers (pl_Node pl) n" "channelsReadAt n = []"
    using opts assms(2) by (auto simp: setOptions_def Let_def same_peers_def split: if_splits option.splits)
  let ?n = "n\<lparr>node_Id := me, node_Graph := SetNodeMemory NewGraph memory\<rparr>"
  let ?peers = "fst (refreshPeers now ?n peers peerChannels now)"
  let ?load = "(loadLearned unmarshal legacy (pl\<lparr>pl_Node := ?n\<rparr>))\<lparr>pl_Node := ?peers\<rparr>"
  let ?graph = "refreshGraph now (\<lambda>n. n) ?peers channelList nodes"
  have start: "pl' = (if channelList = None then ?load\<lparr>pl_Node := fst ?graph\<rparr>
      else applyLearned marshal mpow now_ns e (?load\<lparr>pl_Node := fst ?graph\<rparr>))"
    using refreshGraph_frame(2) [of now ?peers channelList nodes]
    by (cases ?graph) (auto simp: assms(6) plugin_Init_def refreshGraph_applied_def opts Let_def split: bool.split)
  have "peers_current ?n"
    using assms(1) n(1) by (subst peers_current_cong [of _ "pl_Node pl"]) (simp_all add: same_peers_def)
  then have current: "peers_current ?peers" by (rule refreshPeers_current)
  have me: "node_Id ?peers = me" by simp
  have "graph_ok ends (node_Graph ?n)" by (simp add: SetNodeMemory_def Let_def graph_ok_NewGraph)
  then have "graph_ok ends (node_Graph ?peers)"
    using n(2) assms(4) by (intro first_refreshPeers_ok) auto
  then have graph: "graph_ok ends (node_Graph (fst ?graph))"
    using assms(5) by (intro start_refresh_ok) auto
  have same: "same_peers ?peers (fst ?graph)" by (rule refreshGraph_frame)
  show ?thesis
  proof (cases channelList)
    case None
    then show ?thesis
      using start graph current me same same_peers_current [OF same] assms(3)
      by (simp add: same_peers_def plugin_Close_def)
  next
    case (Some cs)
    let ?m = "?load\<lparr>pl_Node := fst ?graph\<rparr>"
    have pl': "pl' = applyLearned marshal mpow now_ns e ?m" using start Some by simp
    have "graph_ok ends (node_Graph (pl_Node pl'))" unfolding pl' by (rule applyLearned_ok) (simp add: graph)
    moreover have "same_peers (fst ?graph) (pl_Node pl')" unfolding pl' using applyLearned_same [of ?m marshal mpow now_ns e] by simp
    moreover have "learnedApplied pl'" unfolding pl' by simp
    ultimately show ?thesis
      using current me same same_peers_current [OF same] same_peers_current [of "fst ?graph" "pl_Node pl'"] Some
      by (simp add: same_peers_def)
  qed
qed

text \<open>A first start, at the sample network, with one channel open and nothing saved.\<close>

lemma GetNode_fresh: "peers_current GetNode" "channelsReadAt GetNode = []"
  by (simp_all add: GetNode_def peers_current_def)

definition sample_options :: Options where
  "sample_options = \<lparr>opt_liquidity_refresh = 180, opt_liquidity_halflife = 1440, opt_node_memory = 24, opt_risk_ppm = 10,
     opt_attempts = 1, opt_max_hops = 8, opt_max_node_fails = 5, opt_max_fail_streak = 3, opt_max_time = 60,
     opt_max_fee = 0, opt_earn_days = 30, opt_fee_ratio = ''0.5'', opt_save_stats = True\<rparr>"

definition first_start :: Plugin where
  "first_start = \<lparr>pl_Node = GetNode, pl_Disk = sample_disk, pendingBeliefs = None, migrateLegacy = False, learnedApplied = False\<rparr>"

definition sample_started :: Plugin where
  "sample_started = plugin_Init (loadLearned (\<lambda>_. None) (\<lambda>_. None)) (applyLearned (\<lambda>_. None) (\<lambda>_ _. 1) 100 no_errors)
     (\<lambda>_. Some (1 / 2)) sample_options ''us'' 100 (Some [(''ann'', True)])
     (Some [sample_peer_channel ''1x1x1'' ''ann'' 1800000000]) (Some sample_listing) None first_start"

theorem start_well_formed_witness:
  "graph_ok (sample_ends(''1x1x1/0'' := (''ann'', ''us''))) (node_Graph (pl_Node sample_started))
    \<and> peers_current (pl_Node sample_started) \<and> node_Id (pl_Node sample_started) = ''us'' \<and> learnedApplied sample_started"
proof -
  let ?ends = "sample_ends(''1x1x1/0'' := (''ann'', ''us''))"
  have "list_all (channel_fits ?ends ''us'') [sample_peer_channel ''1x1x1'' ''ann'' 1800000000]" by code_simp
  moreover have "list_all (fits_ends ?ends) sample_listing"
    using sample_fits by code_simp
  ultimately show ?thesis
    using start_well_formed [where ends = ?ends, OF _ _ _ _ _ sample_started_def] GetNode_fresh
    by (simp add: first_start_def)
qed

end
