(* ===== verification/Texts.thy ===== *)
theory Texts
  imports Parameters Rounds
begin

text \<open>
  Texts that the program answers or logs: a success of a run as JSON (\<^verbatim>\<open>MarshalJSON\<close> of
  \<^verbatim>\<open>rebalance/parallel/result.go\<close>), which split failed last, how a run is going, the hint to raise
  feeratio (same file), a route in one line (\<^verbatim>\<open>Simple\<close> of \<^verbatim>\<open>graph/prettyRoute.go\<close>), and the error of a
  route that is too expensive (\<^verbatim>\<open>util/error.go\<close>).  \<^verbatim>\<open>json.Marshal\<close> of a string and of a list of strings
  are parameters.
\<close>

definition show_u64 :: "u64 \<Rightarrow> string" where "show_u64 x = decimal (uint x)"

section \<open>A success of a run\<close>

definition success_prices :: "Success \<Rightarrow> u64 list" where
  "success_prices s = sort (map fst (ByPPM s))"

definition Success_MarshalJSON ::
    "(string \<Rightarrow> string option) \<Rightarrow> (string list \<Rightarrow> string option) \<Rightarrow> Success \<Rightarrow> string option" where
  "Success_MarshalJSON marshal marshal_list s =
     do {
       alias \<leftarrow> (case suc_Alias s of
                None \<Rightarrow> Some ''''
              | Some a \<Rightarrow> if a = '''' then Some ''''
                    else map_option (\<lambda>t. ''\"alias\":'' @ t @ '','') (marshal a));
       node \<leftarrow> marshal (suc_NodeId s);
       involving \<leftarrow> (if Involving s = [] then Some ''''
                    else map_option (\<lambda>t. '',\"involving\":'' @ t) (marshal_list (Involving s)));
       Some (''{'' @ alias @ ''\"node_id\":'' @ node
         @ concat (map (\<lambda>x. '',\"'' @ show_u64 x @ ''\":'' @ show_u64 (the (map_of (ByPPM s) x))) (success_prices s))
         @ involving @ ''}'')
     }"

text \<open>The prices are written once each, in increasing order, and none is left out.\<close>

lemma success_prices_in_order:
  assumes "distinct (map fst (ByPPM s))"
  shows "sorted (success_prices s)" "distinct (success_prices s)" "set (success_prices s) = fst ` set (ByPPM s)"
  using assms by (simp_all add: success_prices_def)

section \<open>A run\<close>

text \<open>\<^verbatim>\<open>strings.IndexByte\<close> finds the slash of a candidate's id.\<close>

definition splitName :: "Result \<Rightarrow> Par \<Rightarrow> string" where
  "splitName res p =
     (let peer = (if candidateSide p = SideOut then Out res else In res);
          scid = takeWhile (\<lambda>c. c \<noteq> CHR ''/'') (Candidate res) in
      if scid = '''' then ''last failed split''
      else ''last failed split, via '' @ scid @ '' ('' @ GetAlias (p_graph p) peer @ '')'')"

definition feeratioHint :: "Par \<Rightarrow> string" where
  "feeratioHint p =
     (case outcome p of
        None \<Rightarrow> ''''
      | Some res \<Rightarrow>
          if heldLimit p = 0 \<or> FeeratioHeld res = 0 then ''''
          else
            ''; feeratio held its splits to at most '' @ show_u64 (heldLimit p) @ '' ppm''
            @ (if CheapestPPMOverMax res > heldLimit p
               then '', and the cheapest route found cost '' @ show_u64 (CheapestPPMOverMax res) @ '' ppm'' else '''')
            @ '': raise feeratio, or pass feeratio=-1 to pay up to maxppm '' @ show_u64 (maxPPM p))"

text \<open>\<open>seconds\<close> since the run started, and \<open>sent\<close> payments, counted as they are made.\<close>

definition progress :: "int \<Rightarrow> u64 \<Rightarrow> Par \<Rightarrow> string" where
  "progress seconds sent p =
     (let name = (case kind p of Pull \<Rightarrow> ''circular-pull'' | Push \<Rightarrow> ''circular-push'');
          made = (if sent < TotalAttempts p then TotalAttempts p else sent) in
      name @ '' '' @ ShortChannelId (Target p) @ '': '' @ show_u64 (AmountRebalanced p div 1000) @ ''/'' @ show_u64 (amount p div 1000)
      @ '' sats moved in '' @ Itoa seconds @ ''s, '' @ show_u64 made @ '' payments''
      @ (if movedMsat p > 0 then '', avg '' @ show_u64 (avgPPM (feesPaid p) (movedMsat p)) @ '' ppm'' else '''')
      @ '', '' @ Itoa (splitsInFlight p) @ '' splits in flight''
      @ (if retryEvery p > 0
         then '', round '' @ Itoa (rounds p)
           @ (if stepPPM p > 0
              then '' at '' @ show_u64 (maxPPM p) @ '' ppm'' @ (if stepProbe p then '' (probe)'' else '''')
                @ (if heldLimit p > 0 then '', splits held to '' @ show_u64 (heldLimit p) @ '' ppm by feeratio'' else '''')
              else '''')
         else '''')
      @ (if failStreak p > 0 then '', '' @ Itoa (failStreak p) @ '' payments failed in a row'' else ''''))"

section \<open>A route\<close>

definition PrettyRoute_Simple :: "PrettyRoute \<Rightarrow> string" where
  "PrettyRoute_Simple r =
     ''Sending '' @ show_u64 (pr_Amount r) @ '' sats from ['' @ pr_SourceAlias r @ ''] to ['' @ pr_DestinationAlias r
     @ ''] over '' @ Itoa (int (length (pr_Hops r))) @ '' hops, costing '' @ show_u64 (pr_Fee r) @ ''msat (''
     @ show_u64 (pr_FeePPM r) @ ''PPM)''
     @ (if InboundSavingsMSat r = 0 then ''''
        else if InboundSavingsMSat r > 0
        then '' [Saved '' @ Itoa (InboundSavingsMSat r) @ ''msat ('' @ Itoa (InboundSavingsPPM r) @ ''PPM) due to inbound discount]''
        else '' [Extra '' @ Itoa (i64 (- InboundSavingsMSat r)) @ ''msat ('' @ Itoa (i64 (- InboundSavingsPPM r)) @ ''PPM) due to inbound surcharge]'')
     @ '' via ''
     @ concat (map (\<lambda>h. ''- '' @ ph_Alias h @ '' ('' @ show_u64 (ph_FeePPM h) @ ''PPM) '') (pr_Hops r))"

definition ErrRouteTooExpensive_Error :: "u64 \<Rightarrow> u64 \<Rightarrow> string \<Rightarrow> string" where
  "ErrRouteTooExpensive_Error fee limit ownLimit =
     (if ownLimit \<noteq> ''''
      then ''route too expensive. Cheapest route found was '' @ show_u64 fee @ '' ppm, but this split's own limit is '' @ ownLimit
      else ''route too expensive. Cheapest route found was '' @ show_u64 fee @ '' ppm, but maxppm is '' @ show_u64 limit)"

end
