(* ===== verification/Spec2Isabelle.thy ===== *)
theory Spec2Isabelle
  imports GraphClaims RouteClaims GossipClaims PeerClaims Candidates FailureClaims RunClaims EdgeCases
    QuoteClaims SavedClaims PaymentClaims ReportClaims Methods PriceClaims ParameterClaims StartClaims Texts
begin

text \<open>
  CLN-circular, a plugin of Core Lightning written in Go, rebalances the channels of a node by paying
  itself over circular routes.  This development models it from the routing graph up to the commands
  that run many payments at once, and proves what makes them correct.

  The program and its parts (paths are under \<^verbatim>\<open>src/\<close>):

  \<^item> \<^verbatim>\<open>graph/\<close> keeps the routing graph: channels with their policies, inbound fees, what payments taught
    about liquidity (beliefs), remembered node failures; and searches routes in it.
  \<^item> \<^verbatim>\<open>node/\<close> keeps what lightningd says of peers and channels, follows the gossip store, remembers how
    candidates did, and passes payments to lightningd.
  \<^item> \<^verbatim>\<open>rebalance/\<close> is one rebalance from one of our channels to another: it tries routes, learns from
    failures and ends with a result.
  \<^item> \<^verbatim>\<open>rebalance/parallel/\<close> is circular-pull and circular-push: a run that finds candidate channels, fires
    splits (rebalances of part of the amount) at them at once, judges their results, and in slow mode
    goes on in rounds, stepping its price up.

  The theories, in the order they build on each other:

  \<^item> \<^theory_text>\<open>Prelude\<close> (64-bit words and their bounds, maps as association lists, folds over maps), \<^theory_text>\<open>GoFloat\<close>
    (float64 arithmetic as rationals rounded to nearest even), \<^theory_text>\<open>GoHeap\<close> (\<^verbatim>\<open>container/heap\<close>, an
    interface of a priority queue and the queue laws).
  \<^item> \<^theory_text>\<open>Amounts\<close> (fees and rates: \<^verbatim>\<open>graph/channel.go\<close>, \<^verbatim>\<open>graph/pathfinder.go\<close>, \<^verbatim>\<open>util/util.go\<close>),
    \<^theory_text>\<open>GraphChannel\<close> (\<^verbatim>\<open>graph/channel.go\<close>), \<^theory_text>\<open>GraphState\<close> (\<^verbatim>\<open>graph/graph.go\<close>, \<^verbatim>\<open>graph/fees.go\<close>,
    \<^verbatim>\<open>graph/stats.go\<close>), \<^theory_text>\<open>GraphBeliefs\<close> (\<^verbatim>\<open>graph/beliefs.go\<close>, \<^verbatim>\<open>graph/nodes.go\<close> and the learning of
    \<^verbatim>\<open>graph/graph.go\<close>); their properties in \<^theory_text>\<open>GraphClaims\<close>.
  \<^item> \<^theory_text>\<open>Routes\<close> (\<^verbatim>\<open>graph/route.go\<close>, \<^verbatim>\<open>graph/estimate.go\<close>, \<^verbatim>\<open>graph/prettyRoute.go\<close>), \<^theory_text>\<open>RouteSearch\<close>
    (\<^verbatim>\<open>graph/pathfinder.go\<close>, \<^verbatim>\<open>graph/pq.go\<close>), \<^theory_text>\<open>RouteSound\<close> (what every label of a search is),
    \<^theory_text>\<open>RouteClaims\<close>.
  \<^item> \<^theory_text>\<open>Gossip\<close> and \<^theory_text>\<open>GossipClaims\<close> (\<^verbatim>\<open>node/gossip.go\<close>), \<^theory_text>\<open>Peers\<close> and \<^theory_text>\<open>PeerClaims\<close> (\<^verbatim>\<open>node/peers.go\<close>,
    \<^verbatim>\<open>node/cron.go\<close>), \<^theory_text>\<open>Candidates\<close> (\<^verbatim>\<open>node/candidates.go\<close>).
  \<^item> \<^theory_text>\<open>Failures\<close> (\<^verbatim>\<open>rebalance/failure.go\<close>, \<^verbatim>\<open>rebalance/side.go\<close>), \<^theory_text>\<open>RebalanceRun\<close>
    (\<^verbatim>\<open>rebalance/rebalance.go\<close>, \<^verbatim>\<open>rebalance/route.go\<close>, \<^verbatim>\<open>rebalance/params.go\<close>, \<^verbatim>\<open>rebalance/quote.go\<close>,
    \<^verbatim>\<open>rebalance/bynode.go\<close>, \<^verbatim>\<open>rebalance/byscid.go\<close>); \<^theory_text>\<open>FailureClaims\<close>, \<^theory_text>\<open>RunClaims\<close>, \<^theory_text>\<open>RunResults\<close>.
  \<^item> \<^theory_text>\<open>ParallelState\<close> (\<^verbatim>\<open>rebalance/parallel/parallel.go\<close>, \<^verbatim>\<open>params.go\<close>, \<^verbatim>\<open>economics.go\<close>), \<^theory_text>\<open>ParallelFire\<close>
    (\<^verbatim>\<open>candidates.go\<close>, \<^verbatim>\<open>pull.go\<close>, \<^verbatim>\<open>push.go\<close>), \<^theory_text>\<open>ParallelResult\<close> (\<^verbatim>\<open>result.go\<close>: judging results),
    \<^theory_text>\<open>Rounds\<close> (\<^verbatim>\<open>result.go\<close>: slow mode; the calls; \<^verbatim>\<open>runs.go\<close>); \<^theory_text>\<open>RunSamples\<close> (two concrete calls),
    \<^theory_text>\<open>ParallelAccount\<close> (what each operation leaves alone), \<^theory_text>\<open>ParallelClaims\<close>, \<^theory_text>\<open>ParallelLimits\<close>,
    \<^theory_text>\<open>RunEnds\<close>, \<^theory_text>\<open>RoundEnds\<close> (a round cannot go on forever), \<^theory_text>\<open>PriceClaims\<close> (what is paid for
    what moves), \<^theory_text>\<open>EdgeCases\<close>; \<^theory_text>\<open>Methods\<close> (the methods
    that \<^verbatim>\<open>pull.go\<close> and \<^verbatim>\<open>push.go\<close> each give to what they share, and that the shared definitions, which
    choose by the kind of the run, are these); \<^theory_text>\<open>Quotes\<close> and \<^theory_text>\<open>QuoteClaims\<close> (\<^verbatim>\<open>quote.go\<close>:
    circular-quote).
  \<^item> \<^theory_text>\<open>SavedState\<close> and \<^theory_text>\<open>SavedClaims\<close> (\<^verbatim>\<open>node/file.go\<close>, and loading, applying and closing in
    \<^verbatim>\<open>node/node.go\<close>), \<^theory_text>\<open>Payments\<close> and \<^theory_text>\<open>PaymentClaims\<close> (\<^verbatim>\<open>node/payment.go\<close>, \<^verbatim>\<open>node/invoice.go\<close>,
    \<^verbatim>\<open>node/db.go\<close>, \<^verbatim>\<open>node/deletestats.go\<close>, \<^verbatim>\<open>payInvoice\<close> of \<^verbatim>\<open>rebalance/route.go\<close>), \<^theory_text>\<open>Reports\<close> and
    \<^theory_text>\<open>ReportClaims\<close> (the start of the plugin in \<^verbatim>\<open>node/node.go\<close>, \<^verbatim>\<open>node/earned.go\<close> and the commands
    that report).
  \<^item> \<^theory_text>\<open>Parameters\<close> and \<^theory_text>\<open>ParameterClaims\<close> (\<^verbatim>\<open>util/param.go\<close>; the options of \<^verbatim>\<open>cmd/circular/options.go\<close>
    and where \<^verbatim>\<open>node/node.go\<close> and \<^verbatim>\<open>node/cron.go\<close> read them; the log of \<^verbatim>\<open>cmd/circular/main.go\<close>),
    \<^theory_text>\<open>StartClaims\<close> (the start as a whole), \<^theory_text>\<open>Texts\<close> (some of the texts that are answered or logged).
\<close>

text \<open>
  How state corresponds.  A Go struct is a record of the same name, a Go map an association list
  where its order or its keys are iterated and a partial function where not, an \<^verbatim>\<open>int\<close> an integer and a
  \<^verbatim>\<open>uint64\<close> a 64-bit word that wraps around as in Go.  A function that changes the struct behind its
  receiver returns it updated; an error is the left of a sum, and a panic a value of its own where
  the code can reach one.  Locks are not modelled.  An operation that holds its lock
  throughout is atomic, and the interleaving of goroutines is the order of the steps of
  \<^const>\<open>run_step\<close>, the updates \<^const>\<open>e_others\<close> that other goroutines make between the attempts of a
  rebalance, the steps \<^const>\<open>graph_step\<close> of the graph and the steps \<^const>\<open>meanwhile\<close> between the
  readings of peers.  A payment holds no lock while it waits and uses the database several times:
  \<^const>\<open>SendPay\<close> and \<^const>\<open>OnPayment\<close> are whole calls, \<^const>\<open>pay_next\<close> and \<^const>\<open>note_next\<close> the same
  calls one access to the database at a time (\<open>pay_steps_SendPay\<close>, \<open>note_steps_OnPayment\<close>), and
  \<^const>\<open>run_race\<close> interleaves a payment with its notification by any schedule.

  Durations are whole seconds; the code's are 64-bit nanoseconds, the same up to 292 years
  (\<^const>\<open>time_Duration\<close>).

  Code that is not the program's is a parameter: \<^verbatim>\<open>math.Log\<close>, \<^verbatim>\<open>math.Pow\<close>, \<^verbatim>\<open>strconv.ParseFloat\<close> and the
  codecs of \<^verbatim>\<open>encoding/json\<close> are functions, and what lightningd answers and the clock says is the record
  \<^typ>\<open>env\<close> of a rebalance, \<^typ>\<open>penv\<close> of a run, \<^typ>\<open>lightningd\<close> of a payment, and plain arguments of the
  refreshes of a node.  The disk is a map from names to contents changed by a list of operations
  (\<^typ>\<open>fs_op\<close>), of which a crash leaves a prefix; Badger is a map whose operations may fail
  (\<^typ>\<open>Store\<close>).

  What the groups of lemmas show.  The graph: every operation, with whatever arguments, keeps it well formed
  (\<^const>\<open>graph_reachable\<close>, as long as a channel id always names the same two nodes), refreshes keep what
  was learned, and as long as what is learned is true and nobody else pays, the bounds never contradict
  the true balances (\<^const>\<open>world_ok\<close> is the relation of the graph to an abstract network).  Routes: every route found is
  one of the graph within its limits, in the order of cost.  Gossip: updates read back as written,
  whatever bytes come only policies, inbound fees and what a new policy takes off the avoid list change,
  and reading in pieces is reading at once.  Peers: what is looked up is current, and a notification
  outlives older readings that list the peer.  Candidates: the ranking is in the documented order, with
  its floats compared as the fractions they stand for.  One rebalance: failures blame the
  right side and teach the truth, what failed is not tried again, payments stay within the attempts
  and the fee limit.  A run: its account of splits in flight, amounts and reserved fees is exact in
  every reachable state (\<^const>\<open>account_ok\<close>), so that target, fee budget and slots hold of what the run counts
  (a payment that settles after its timeout is not counted), and on average it pays no more than its
  highest rate (\<^const>\<open>price_ok\<close>); what
  it fires leaves every channel its threshold; its parameters are well formed; a round ends, whatever
  its results say (\<^const>\<open>rank\<close> is what they use up); and rounds that move nothing are bounded.  A quote is the first attempt
  of the run it is of.  A crash in a save leaves what was saved before or after, and what is saved
  is what the next start knows.  A payment asks for its invoice to be deleted whatever happens, and its
  notification is recorded at most once, and is recognised unless it is handled at the moment a timeout
  is; \<open>payments_are_honest\<close> makes these payments an
  environment of a rebalance.  A start ends with a well-formed graph and current peers, whatever was
  saved and whatever fails, and reads its options and numbers as they were given.  What a channel earned is never older than its cache allows.

  Interfaces.  The priority queue of the search is a locale, interpreted on the binary heap of
  \<^verbatim>\<open>container/heap\<close>; \<open>limited_payments\<close> states what a rebalance asks of its payments and is
  interpreted on a lightningd that refuses every other route; \<open>bystander\<close> states what a view of a run
  must ignore for firing to leave it alone, and is interpreted on the five views used;
  \<open>candidate_channels\<close> states what circular-pull and circular-push promise of the channels they use and
  of the room they report, and is interpreted on each of them and on the choice between them.

  Loops and bounds.  No fuel is used: the search takes a turn per label and is bounded by the labels
  it can still make; a rebalance by its attempts left and one reused route (\<^const>\<open>run_loop\<close>); firing
  by the slots left (\<^const>\<open>FireCandidates\<close>); reading the gossip store by the bytes left
  (\<^const>\<open>follow_store\<close>), each a \<^theory_text>\<open>function\<close> with its measure.  The rounds of a run are steps, since they
  may go on until a time limit; \<^const>\<open>idle_rounds_left\<close> bounds those that move nothing.

  Not modelled: most log lines and the texts of most errors, results, verdicts and summaries (only which
  text it is), the table a route prints as, the JSON form of answers but for a success of a run, the
  calls of lightningd and of the operating system themselves, Badger's deletion of entries after 14
  days, when the timers fire, and the registration of commands and subscriptions with the plugin
  library (\<^verbatim>\<open>cmd/circular/methods.go\<close> and \<^verbatim>\<open>subscriptions.go\<close>), which is glue.
\<close>

end
